(* ===== verification/Prelude.thy ===== *)
theory Prelude
  imports Main "HOL-Library.Word" "HOL-Library.Sublist" "HOL-Library.List_Lexorder"
    "HOL-Library.Char_ord"
begin

text \<open>
  Shared ground of the development: JSON values, Go's error values with \<open>errors.Is\<close> and
  \<open>errors.As\<close>, the state-and-error operations every stateful function is written in, the
  parts of Go's \<open>strings\<close> and \<open>path\<close> packages the sources call, and 64-bit integers with
  their wrap-around.  Strings are byte sequences (\<^typ>\<open>string\<close>), as Go's are.

  Named collections: \<open>op_simps\<close> unfolds the operations, \<open>keeps_intros\<close> proves that an
  operation keeps a predicate of the state on every exit, errors included.
\<close>

named_theorems op_simps
named_theorems keeps_intros

section \<open>Values\<close>

text \<open>A decoded JSON document (Go's \<open>any\<close> after \<open>json.Unmarshal\<close>).  An object is an
  association list; the first binding of a key counts.\<close>

datatype json =
    JNull
  | JBool bool
  | JInt int
  | JStr string
  | JArr "json list"
  | JObj "(string \<times> json) list"

text \<open>The catalog codes the service tells apart, by the names of go-irodsclient's \<open>common\<close>
  package.\<close>

datatype server_code =
    CAT_UNKNOWN_FILE | CAT_UNKNOWN_COLLECTION | CAT_NAME_EXISTS_AS_DATAOBJ
  | CAT_NAME_EXISTS_AS_COLLECTION | CAT_NO_ACCESS_PERMISSION | CAT_INSUFFICIENT_PRIVILEGE_LEVEL
  | SYS_NO_API_PRIV | CAT_INVALID_USER | CAT_INVALID_GROUP | OtherCode int

text \<open>What go-irodsclient's error predicates tell apart (\<open>types.IsFileNotFoundError\<close> and its
  siblings); \<open>ServerCode\<close> is an \<open>IRODSError\<close> carrying a catalog code.\<close>

datatype lib_kind =
    FileNotFound | FileAlreadyExist | UserNotFound | TicketNotFound | CollectionNotEmpty
  | ConnectionFailure | ServerCode server_code | OtherFailure

text \<open>Go error values.  \<open>Wrap t e\<close> is \<open>fmt.Errorf(t + ": %w", e)\<close>; \<open>LibError\<close> is an
  error of go-irodsclient; the code's own concrete error types are constructors: \<open>ApiError\<close> is \<open>*apierror.Error\<close> (code, style is
  \<open>StyleOK\<close>, extra keys, status, cause, schema), \<open>UpstreamError\<close> the relayed response
  (service, status, content type, body, the \<open>error_code\<close> its body decodes to, empty when
  there is none), \<open>HTTPError\<close> echo's (code, message, internal error), \<open>QueryError\<close> the
  catalog's, \<open>Panicked\<close> a recovered panic.\<close>

datatype gerror =
    Plain string
  | LibError lib_kind string
  | Wrap string gerror
  | ApiError (ecode: string) (estyleok: bool) (eextra: "(string \<times> json) list")
      (estatus: int) (ecause: "gerror option") (eschema: bool)
  | UpstreamError string int string string string
  | HTTPError int "string option" "gerror option"
  | QueryError string gerror
  | Panicked string
  | Canceled
  | DeadlineExceeded
  | NoSuchItem
  | ScopeClosed

text \<open>\<open>errors.Unwrap\<close>: the next error of the chain.\<close>

fun unwrap_error :: "gerror \<Rightarrow> gerror option" where
  "unwrap_error (Wrap t e) = Some e"
| "unwrap_error (ApiError c s x st cause sch) = cause"
| "unwrap_error (QueryError t e) = Some e"
| "unwrap_error (HTTPError c m i) = i"
| "unwrap_error e = None"

text \<open>\<open>errors.As\<close> and \<open>errors.Is\<close> return the first error of the chain that fits.\<close>

function errors_find :: "(gerror \<Rightarrow> bool) \<Rightarrow> gerror \<Rightarrow> gerror option" where
  "errors_find P e =
     (if P e then Some e
      else case unwrap_error e of None \<Rightarrow> None | Some e' \<Rightarrow> errors_find P e')"
  by pat_completeness auto
termination
proof (relation "measure (\<lambda>(P, e). size e)", goal_cases)
  case 1
  then show ?case by simp
next
  case (2 P e e')
  then show ?case by (cases e) auto
qed

declare errors_find.simps [simp del]

fun is_api_error :: "gerror \<Rightarrow> bool" where
  "is_api_error (ApiError c s x st cause sch) = True"
| "is_api_error _ = False"

lemma errors_find_sat: "errors_find P e = Some e' \<Longrightarrow> P e'"
proof (induction P e rule: errors_find.induct)
  case (1 P e)
  show ?case
    using "1.prems" "1.IH"
    by (subst (asm) errors_find.simps) (auto split: if_splits option.splits)
qed

section \<open>Operations with state and errors\<close>

text \<open>An operation takes the state of the world it acts on and returns a result or an error
  with the state it leaves.  The state survives an error: a write that succeeded before a
  later step failed is not undone.\<close>

type_synonym ('s, 'a) op = "'s \<Rightarrow> (gerror + 'a) \<times> 's"

definition returnM :: "'a \<Rightarrow> ('s, 'a) op" where
  "returnM a = (\<lambda>s. (Inr a, s))"

definition failM :: "gerror \<Rightarrow> ('s, 'a) op" where
  "failM e = (\<lambda>s. (Inl e, s))"

definition bindM :: "('s, 'a) op \<Rightarrow> ('a \<Rightarrow> ('s, 'b) op) \<Rightarrow> ('s, 'b) op" where
  "bindM m f = (\<lambda>s. case m s of (Inl e, s') \<Rightarrow> (Inl e, s') | (Inr a, s') \<Rightarrow> f a s')"

definition thenM :: "('s, 'a) op \<Rightarrow> ('s, 'b) op \<Rightarrow> ('s, 'b) op" where
  "thenM m k = bindM m (\<lambda>_. k)"

text \<open>\<open>wrapM t m\<close>: \<open>if err := m; err != nil { return fmt.Errorf(t: %w, err) }\<close>.\<close>

definition wrapM :: "string \<Rightarrow> ('s, 'a) op \<Rightarrow> ('s, 'a) op" where
  "wrapM t m = (\<lambda>s. case m s of (Inl e, s') \<Rightarrow> (Inl (Wrap t e), s') | (Inr a, s') \<Rightarrow> (Inr a, s'))"

definition modifyM :: "('s \<Rightarrow> 's) \<Rightarrow> ('s, unit) op" where
  "modifyM f = (\<lambda>s. (Inr (), f s))"

text \<open>A loop over a slice that stops at the first error.\<close>

primrec forM :: "('a \<Rightarrow> ('s, unit) op) \<Rightarrow> 'a list \<Rightarrow> ('s, unit) op" where
  "forM f [] = returnM ()"
| "forM f (x # xs) = thenM (f x) (forM f xs)"

primrec mapM :: "('a \<Rightarrow> ('s, 'b) op) \<Rightarrow> 'a list \<Rightarrow> ('s, 'b list) op" where
  "mapM f [] = returnM []"
| "mapM f (x # xs) = bindM (f x) (\<lambda>y. bindM (mapM f xs) (\<lambda>ys. returnM (y # ys)))"

primrec foldM :: "('b \<Rightarrow> 'a \<Rightarrow> ('s, 'b) op) \<Rightarrow> 'b \<Rightarrow> 'a list \<Rightarrow> ('s, 'b) op" where
  "foldM f b [] = returnM b"
| "foldM f b (x # xs) = bindM (f b x) (\<lambda>c. foldM f c xs)"

text \<open>A deferred call: it runs on every exit, and its own outcome is dropped.\<close>

definition finallyM :: "('s, 'a) op \<Rightarrow> ('s, 'b) op \<Rightarrow> ('s, 'a) op" where
  "finallyM m k = (\<lambda>s. case m s of (r, s') \<Rightarrow> (r, snd (k s')))"

text \<open>Results without a state.\<close>

definition ofM :: "gerror + 'a \<Rightarrow> ('s, 'a) op" where
  "ofM r = (\<lambda>s. (r, s))"

primrec traverse :: "('a \<Rightarrow> gerror + 'b) \<Rightarrow> 'a list \<Rightarrow> gerror + 'b list" where
  "traverse f [] = Inr []"
| "traverse f (x # xs) =
     (case f x of Inl e \<Rightarrow> Inl e
      | Inr y \<Rightarrow> (case traverse f xs of Inl e \<Rightarrow> Inl e | Inr ys \<Rightarrow> Inr (y # ys)))"

lemma ofM_apply [simp, op_simps]: "ofM r s = (r, s)"
  by (simp add: ofM_def)

lemma traverse_Inr: "traverse f xs = Inr ys \<longleftrightarrow> map f xs = map Inr ys"
proof (induction xs arbitrary: ys)
  case (Cons x xs)
  show ?case
    by (cases ys) (auto simp: Cons.IH [symmetric] split: sum.splits)
qed auto

lemma returnM_apply [simp, op_simps]: "returnM a s = (Inr a, s)"
  by (simp add: returnM_def)

lemma failM_apply [simp, op_simps]: "failM e s = (Inl e, s)"
  by (simp add: failM_def)

lemma modifyM_apply [simp, op_simps]: "modifyM f s = (Inr (), f s)"
  by (simp add: modifyM_def)

lemma bindM_Inr [simp]: "m s = (Inr a, s') \<Longrightarrow> bindM m f s = f a s'"
  by (simp add: bindM_def)

lemma bindM_Inl [simp]: "m s = (Inl e, s') \<Longrightarrow> bindM m f s = (Inl e, s')"
  by (simp add: bindM_def)

lemma bindM_returnM [simp]: "bindM (returnM a) f = f a"
  by (simp add: bindM_def)

lemma bindM_failM [simp]: "bindM (failM e) f = failM e"
  by (simp add: bindM_def failM_def)

lemma bindM_assoc: "bindM (bindM m f) g = bindM m (\<lambda>x. bindM (f x) g)"
  by (rule ext) (simp add: bindM_def split: prod.splits sum.splits)

lemma bindM_eq_Inr:
  "bindM m f s = (Inr b, s') \<longleftrightarrow> (\<exists>a t. m s = (Inr a, t) \<and> f a t = (Inr b, s'))"
  by (auto simp: bindM_def split: prod.splits sum.splits)

lemma bindM_eq_Inl:
  "bindM m f s = (Inl e, s') \<longleftrightarrow>
     m s = (Inl e, s') \<or> (\<exists>a t. m s = (Inr a, t) \<and> f a t = (Inl e, s'))"
  by (auto simp: bindM_def split: prod.splits sum.splits)

lemma thenM_eq_Inr:
  "thenM m k s = (Inr b, s') \<longleftrightarrow> (\<exists>a t. m s = (Inr a, t) \<and> k t = (Inr b, s'))"
  by (simp add: thenM_def bindM_eq_Inr)

lemma wrapM_eq_Inr [simp]: "wrapM t m s = (Inr a, s') \<longleftrightarrow> m s = (Inr a, s')"
  by (auto simp: wrapM_def split: prod.splits sum.splits)

lemma snd_wrapM [simp]: "snd (wrapM t m s) = snd (m s)"
  by (auto simp: wrapM_def split: prod.splits sum.splits)

lemmas op_inversions = bindM_eq_Inr thenM_eq_Inr

subsection \<open>Predicates kept on every exit\<close>

text \<open>\<open>keeps R m\<close>: whatever the outcome, the state after is related to the state before.
  With a reflexive and transitive \<open>R\<close> it composes along every loop and early return.\<close>

definition keeps :: "('s \<Rightarrow> 's \<Rightarrow> bool) \<Rightarrow> ('s, 'a) op \<Rightarrow> bool" where
  "keeps R m \<longleftrightarrow> (\<forall>s. R s (snd (m s)))"

definition preorder_rel :: "('s \<Rightarrow> 's \<Rightarrow> bool) \<Rightarrow> bool" where
  "preorder_rel R \<longleftrightarrow> reflp R \<and> transp R"

lemma keepsD: "keeps R m \<Longrightarrow> m s = (r, s') \<Longrightarrow> R s s'"
  unfolding keeps_def by (metis snd_conv)

lemma keepsI: "(\<And>s r s'. m s = (r, s') \<Longrightarrow> R s s') \<Longrightarrow> keeps R m"
  unfolding keeps_def by (metis prod.collapse)

lemma preorder_relI:
  "(\<And>s. R s s) \<Longrightarrow> (\<And>s t u. R s t \<Longrightarrow> R t u \<Longrightarrow> R s u) \<Longrightarrow> preorder_rel R"
  by (auto simp: preorder_rel_def reflp_def transp_def)

lemma preorder_rel_refl: "preorder_rel R \<Longrightarrow> R s s"
  by (auto simp: preorder_rel_def reflp_def)

lemma preorder_rel_trans: "preorder_rel R \<Longrightarrow> R s t \<Longrightarrow> R t u \<Longrightarrow> R s u"
  unfolding preorder_rel_def transp_def by blast

lemma keeps_returnM [keeps_intros]: "preorder_rel R \<Longrightarrow> keeps R (returnM a)"
  by (simp add: keeps_def preorder_rel_refl)

lemma keeps_failM [keeps_intros]: "preorder_rel R \<Longrightarrow> keeps R (failM e)"
  by (simp add: keeps_def preorder_rel_refl)

lemma keeps_bindM [keeps_intros]:
  assumes "preorder_rel R" "keeps R m" "\<And>a. keeps R (f a)"
  shows "keeps R (bindM m f)"
proof (rule keepsI)
  fix s r s'
  assume run: "bindM m f s = (r, s')"
  obtain q t where m: "m s = (q, t)"
    by (cases "m s")
  with assms(2) have st: "R s t"
    by (rule keepsD)
  show "R s s'"
  proof (cases q)
    case (Inl e)
    with run m st show ?thesis
      by (simp add: bindM_def)
  next
    case (Inr a)
    with run m have "f a t = (r, s')"
      by (simp add: bindM_def)
    with assms(3) have "R t s'"
      by (rule keepsD)
    with assms(1) st show ?thesis
      by (rule preorder_rel_trans)
  qed
qed

lemma keeps_thenM [keeps_intros]:
  "preorder_rel R \<Longrightarrow> keeps R m \<Longrightarrow> keeps R k \<Longrightarrow> keeps R (thenM m k)"
  unfolding thenM_def by (rule keeps_bindM)

lemma keeps_wrapM [keeps_intros]: "keeps R m \<Longrightarrow> keeps R (wrapM t m)"
  by (simp add: keeps_def)

lemma keeps_if [keeps_intros]:
  "(b \<Longrightarrow> keeps R m) \<Longrightarrow> (\<not> b \<Longrightarrow> keeps R k) \<Longrightarrow> keeps R (if b then m else k)"
  by simp

lemma keeps_case_option [keeps_intros]:
  "(x = None \<Longrightarrow> keeps R m) \<Longrightarrow> (\<And>a. x = Some a \<Longrightarrow> keeps R (f a)) \<Longrightarrow>
   keeps R (case x of None \<Rightarrow> m | Some a \<Rightarrow> f a)"
  by (cases x) auto

lemma keeps_forM [keeps_intros]:
  "preorder_rel R \<Longrightarrow> (\<And>x. x \<in> set xs \<Longrightarrow> keeps R (f x)) \<Longrightarrow> keeps R (forM f xs)"
  by (induction xs) (auto intro: keeps_intros)

lemma keeps_mapM [keeps_intros]:
  "preorder_rel R \<Longrightarrow> (\<And>x. x \<in> set xs \<Longrightarrow> keeps R (f x)) \<Longrightarrow> keeps R (mapM f xs)"
  by (induction xs) (auto intro!: keeps_intros)

lemma keeps_foldM [keeps_intros]:
  "preorder_rel R \<Longrightarrow> (\<And>b x. x \<in> set xs \<Longrightarrow> keeps R (f b x)) \<Longrightarrow> keeps R (foldM f b xs)"
  by (induction xs arbitrary: b) (auto intro!: keeps_intros)

lemma keeps_ofM [keeps_intros]: "preorder_rel R \<Longrightarrow> keeps R (ofM r)"
  by (simp add: keeps_def preorder_rel_refl)

lemma keeps_finallyM [keeps_intros]:
  assumes "preorder_rel R" "keeps R m" "keeps R k"
  shows "keeps R (finallyM m k)"
proof (rule keepsI)
  fix s r s'
  assume run: "finallyM m k s = (r, s')"
  obtain q t where m: "m s = (q, t)"
    by (cases "m s")
  obtain q' t' where k: "k t = (q', t')"
    by (cases "k t")
  have "R s t" "R t t'"
    using assms(2,3) m k by (auto dest: keepsD)
  then have "R s t'"
    by (rule preorder_rel_trans [OF assms(1)])
  with run m k show "R s s'"
    by (simp add: finallyM_def)
qed

text \<open>A loop whose body establishes \<open>Q x\<close> and whose later iterations keep it establishes
  it for every element.\<close>

lemma forM_establishes:
  assumes "forM f xs s = (Inr (), s')"
    and est: "\<And>x t t'. x \<in> set xs \<Longrightarrow> f x t = (Inr (), t') \<Longrightarrow> Q x t'"
    and keep: "\<And>x y t t'. y \<in> set xs \<Longrightarrow> x \<in> set xs \<Longrightarrow> Q x t \<Longrightarrow> f y t = (Inr (), t') \<Longrightarrow> Q x t'"
  shows "\<forall>x \<in> set xs. Q x s'"
proof -
  have later: "Q x t \<Longrightarrow> forM f ys t = (Inr (), t') \<Longrightarrow> set ys \<subseteq> set xs \<Longrightarrow> x \<in> set xs \<Longrightarrow> Q x t'"
    for x ys t t'
    by (induction ys arbitrary: t) (auto simp: op_inversions intro: keep)
  have "forM f ys t = (Inr (), t') \<Longrightarrow> set ys \<subseteq> set xs \<Longrightarrow> x \<in> set ys \<Longrightarrow> Q x t'" for x ys t t'
    by (induction ys arbitrary: t) (auto simp: op_inversions intro: later est)
  with assms(1) show ?thesis by blast
qed

section \<open>Triples\<close>

text \<open>\<open>hoare P m Q E\<close>: from a state satisfying \<open>P\<close>, a success ends in \<open>Q\<close> of its result and an
  error in \<open>E\<close>.\<close>

definition hoare ::
    "('s \<Rightarrow> bool) \<Rightarrow> ('s, 'a) op \<Rightarrow> ('a \<Rightarrow> 's \<Rightarrow> bool) \<Rightarrow> ('s \<Rightarrow> bool) \<Rightarrow> bool" where
  "hoare P m Q E \<longleftrightarrow> (\<forall>s r s'. P s \<longrightarrow> m s = (r, s') \<longrightarrow> (case r of Inr a \<Rightarrow> Q a s' | Inl e \<Rightarrow> E s'))"

named_theorems hoare_intros

lemma hoareI:
  "(\<And>s a s'. P s \<Longrightarrow> m s = (Inr a, s') \<Longrightarrow> Q a s') \<Longrightarrow>
   (\<And>s e s'. P s \<Longrightarrow> m s = (Inl e, s') \<Longrightarrow> E s') \<Longrightarrow> hoare P m Q E"
  unfolding hoare_def by (auto split: sum.splits)

lemma hoareD: "hoare P m Q E \<Longrightarrow> P s \<Longrightarrow> m s = (Inr a, s') \<Longrightarrow> Q a s'"
  unfolding hoare_def by fastforce

lemma hoareD_err: "hoare P m Q E \<Longrightarrow> P s \<Longrightarrow> m s = (Inl e, s') \<Longrightarrow> E s'"
  unfolding hoare_def by fastforce

lemma hoare_exit: "hoare P m (\<lambda>_. I) I \<Longrightarrow> P s \<Longrightarrow> m s = (r, s') \<Longrightarrow> I s'"
  by (cases r) (auto dest: hoareD hoareD_err)

lemma hoare_conseq:
  "hoare P m Q E \<Longrightarrow> (\<And>s. P' s \<Longrightarrow> P s) \<Longrightarrow> (\<And>a s. Q a s \<Longrightarrow> Q' a s) \<Longrightarrow> (\<And>s. E s \<Longrightarrow> E' s)
   \<Longrightarrow> hoare P' m Q' E'"
  unfolding hoare_def by (auto split: sum.splits) blast+

lemma hoare_pre: "hoare P m Q E \<Longrightarrow> (\<And>s. P' s \<Longrightarrow> P s) \<Longrightarrow> hoare P' m Q E"
  unfolding hoare_def by blast

lemma hoare_conj:
  "hoare P m Q E \<Longrightarrow> hoare P' m Q' E' \<Longrightarrow> hoare (\<lambda>s. P s \<and> P' s) m (\<lambda>a s. Q a s \<and> Q' a s) E"
  by (intro hoareI) (blast dest: hoareD hoareD_err)+

lemma hoare_ex: "(\<And>x. hoare (P x) m Q E) \<Longrightarrow> hoare (\<lambda>s. \<exists>x. P x s) m Q E"
  unfolding hoare_def by blast

lemma hoare_ball:
  "(\<And>x. x \<in> A \<Longrightarrow> hoare (P x) m (\<lambda>_. Q x) E) \<Longrightarrow> hoare (\<lambda>s. \<forall>x \<in> A. P x s) m (\<lambda>_ s. \<forall>x \<in> A. Q x s) (\<lambda>_. True)"
  by (intro hoareI) (auto dest: hoareD)

lemma hoare_returnM [hoare_intros]: "(\<And>s. P s \<Longrightarrow> Q a s) \<Longrightarrow> hoare P (returnM a) Q E"
  by (rule hoareI) auto

lemma hoare_failM [hoare_intros]: "(\<And>s. P s \<Longrightarrow> E s) \<Longrightarrow> hoare P (failM e) Q E"
  by (rule hoareI) auto

lemma hoare_bindM:
  assumes "hoare P m R E" "\<And>a. hoare (R a) (f a) Q E"
  shows "hoare P (bindM m f) Q E"
proof (rule hoareI)
  fix s b s'
  assume "P s" "bindM m f s = (Inr b, s')"
  then show "Q b s'"
    unfolding bindM_eq_Inr using assms by (blast dest: hoareD)
next
  fix s e s'
  assume "P s" "bindM m f s = (Inl e, s')"
  then show "E s'"
    unfolding bindM_eq_Inl using assms by (blast dest: hoareD hoareD_err)
qed

lemma hoare_thenM: "hoare P m R E \<Longrightarrow> (\<And>a. hoare (R a) k Q E) \<Longrightarrow> hoare P (thenM m k) Q E"
  unfolding thenM_def by (rule hoare_bindM)

text \<open>Where the first step keeps the precondition.\<close>

lemma hoare_bindM_inv [hoare_intros]:
  "hoare I m (\<lambda>_. I) E \<Longrightarrow> (\<And>a. hoare I (f a) Q E) \<Longrightarrow> hoare I (bindM m f) Q E"
  by (rule hoare_bindM)

lemma hoare_thenM_inv [hoare_intros]:
  "hoare I m (\<lambda>_. I) E \<Longrightarrow> hoare I k Q E \<Longrightarrow> hoare I (thenM m k) Q E"
  by (rule hoare_thenM)

lemma hoare_wrapM [hoare_intros]: "hoare P m Q E \<Longrightarrow> hoare P (wrapM t m) Q E"
  unfolding hoare_def wrapM_def by (fastforce split: sum.splits prod.splits)

lemma hoare_if [hoare_intros]:
  "(b \<Longrightarrow> hoare P m Q E) \<Longrightarrow> (\<not> b \<Longrightarrow> hoare P k Q E) \<Longrightarrow> hoare P (if b then m else k) Q E"
  by simp

lemma hoare_forM [hoare_intros]:
  "(\<And>x. x \<in> set xs \<Longrightarrow> hoare I (f x) (\<lambda>_. I) E) \<Longrightarrow> hoare I (forM f xs) (\<lambda>_. I) E"
proof (induction xs)
  case Nil
  show ?case
    by (simp only: forM.simps) (rule hoare_returnM)
next
  case (Cons x xs)
  have "hoare I (f x) (\<lambda>_. I) E"
    by (rule Cons.prems) simp
  moreover have "hoare I (forM f xs) (\<lambda>_. I) E"
    by (rule Cons.IH) (simp add: Cons.prems)
  ultimately show ?case
    by (simp only: forM.simps) (rule hoare_thenM)
qed

text \<open>A loop that establishes \<open>A x\<close> for each element while keeping an invariant and what
  earlier elements established.\<close>

lemma hoare_forM_each:
  assumes "\<And>x. x \<in> set xs \<Longrightarrow> hoare I (f x) (\<lambda>_ s. I s \<and> A x s) E"
    and "\<And>x y. x \<in> set xs \<Longrightarrow> y \<in> set xs \<Longrightarrow> hoare (\<lambda>s. I s \<and> A x s) (f y) (\<lambda>_ s. A x s) E"
  shows "hoare I (forM f xs) (\<lambda>_ s. I s \<and> (\<forall>x \<in> set xs. A x s)) E"
proof -
  have "set ys \<subseteq> set xs \<Longrightarrow> hoare (\<lambda>s. I s \<and> (\<forall>x \<in> D. A x s)) (forM f ys)
          (\<lambda>_ s. I s \<and> (\<forall>x \<in> D \<union> set ys. A x s)) E" if "D \<subseteq> set xs" for ys D
    using that
  proof (induction ys arbitrary: D)
    case Nil
    show ?case
      by (simp only: forM.simps) (rule hoare_returnM, simp)
  next
    case (Cons y ys)
    have y: "y \<in> set xs"
      using Cons.prems(1) by simp
    have head: "hoare (\<lambda>s. I s \<and> (\<forall>x \<in> D. A x s)) (f y) (\<lambda>_ s. I s \<and> (\<forall>x \<in> insert y D. A x s)) E"
    proof (rule hoareI)
      fix s a s'
      assume pre: "I s \<and> (\<forall>x \<in> D. A x s)" and run: "f y s = (Inr a, s')"
      have "I s' \<and> A y s'"
        using hoareD [OF assms(1) [OF y] _ run] pre by blast
      moreover have "A x s'" if "x \<in> D" for x
        using hoareD [OF assms(2) [OF _ y] _ run] pre that Cons.prems(2) by blast
      ultimately show "I s' \<and> (\<forall>x \<in> insert y D. A x s')"
        by blast
    next
      fix s e s'
      assume "I s \<and> (\<forall>x \<in> D. A x s)" "f y s = (Inl e, s')"
      then show "E s'"
        using hoareD_err [OF assms(1) [OF y]] by blast
    qed
    have tail: "hoare (\<lambda>s. I s \<and> (\<forall>x \<in> insert y D. A x s)) (forM f ys)
                 (\<lambda>_ s. I s \<and> (\<forall>x \<in> insert y D \<union> set ys. A x s)) E"
      using Cons.prems by (intro Cons.IH) auto
    show ?case
      unfolding forM.simps
      by (rule hoare_thenM [OF head]) (use tail in simp)
  qed
  from this [of "{}" xs] show ?thesis by simp
qed

end
