(* ===== verification/GoStrings.thy ===== *)
theory GoStrings
  imports Prelude
begin

text \<open>
  The parts of Go's standard \<open>strings\<close>, \<open>path\<close> and \<open>strconv\<close> packages the sources call, on
  byte strings: \<open>TrimRight\<close>, \<open>TrimSpace\<close>, \<open>HasPrefix\<close>, \<open>Split\<close>, \<open>Join\<close>, \<open>ToLower\<close>,
  \<open>ContainsAny\<close>, and \<open>path.Clean\<close>, \<open>path.Base\<close>, \<open>path.Dir\<close>, \<open>path.Join\<close>, \<open>path.Ext\<close>;
  and 64-bit integer arithmetic.  The second half is the theory of canonical paths: lists of
  good components rendered by \<open>abs_path\<close>, on which the \<open>path\<close> functions are list operations.
\<close>

named_theorems path_simps

section \<open>Strings\<close>

abbreviation slash :: char where "slash \<equiv> CHR ''/''"

text \<open>\<open>strings.TrimRight(p, "/")\<close>.\<close>

definition trim_right :: "string \<Rightarrow> string" where
  "trim_right p = rev (dropWhile (\<lambda>c. c = slash) (rev p))"

text \<open>\<open>strings.HasPrefix(s, p)\<close>.\<close>

fun has_prefix :: "string \<Rightarrow> string \<Rightarrow> bool" where
  "has_prefix s [] = True"
| "has_prefix [] (c # p) = False"
| "has_prefix (d # s) (c # p) = (c = d \<and> has_prefix s p)"

text \<open>\<open>strings.TrimPrefix(s, p)\<close>.\<close>

definition trim_prefix :: "string \<Rightarrow> string \<Rightarrow> string" where
  "trim_prefix s p = (if has_prefix s p then drop (length p) s else s)"

text \<open>\<open>strings.Split(s, string(c))\<close> for a single-byte separator: never empty.\<close>

fun split_on :: "char \<Rightarrow> string \<Rightarrow> string list" where
  "split_on c [] = [[]]"
| "split_on c (x # xs) =
     (if x = c then [] # split_on c xs
      else case split_on c xs of [] \<Rightarrow> [[x]] | w # ws \<Rightarrow> (x # w) # ws)"

text \<open>\<open>strings.Join(ws, sep)\<close>.\<close>

fun join_with :: "string \<Rightarrow> string list \<Rightarrow> string" where
  "join_with sep [] = []"
| "join_with sep [w] = w"
| "join_with sep (w # v # ws) = w @ sep @ join_with sep (v # ws)"

text \<open>\<open>strings.TrimSpace\<close>: the UTF-8 encodings of the code points \<open>unicode.IsSpace\<close> accepts
  are stripped from both ends.\<close>

definition space_encodings :: "string list" where
  "space_encodings =
     map (map char_of)
       ([[9], [10], [11], [12], [13], [32], [194, 133], [194, 160], [225, 154, 128],
        [226, 128, 168], [226, 128, 169], [226, 128, 175], [226, 129, 159], [227, 128, 128],
        [226, 128, 128], [226, 128, 129], [226, 128, 130], [226, 128, 131], [226, 128, 132],
        [226, 128, 133], [226, 128, 134], [226, 128, 135], [226, 128, 136], [226, 128, 137],
        [226, 128, 138]] :: nat list list)"

function strip_any :: "string list \<Rightarrow> string \<Rightarrow> string" where
  "strip_any ws s =
     (case find (\<lambda>w. w \<noteq> [] \<and> has_prefix s w) ws of
        None \<Rightarrow> s
      | Some w \<Rightarrow> strip_any ws (drop (length w) s))"
  by pat_completeness auto
termination
proof (relation "measure (\<lambda>(ws, s). length s)", goal_cases)
  case 1
  then show ?case by simp
next
  case (2 ws s w)
  then have "w \<noteq> [] \<and> has_prefix s w"
    by (auto simp: find_Some_iff)
  then show ?case
    by (cases s; cases w) auto
qed

declare strip_any.simps [simp del]

definition trim_space :: "string \<Rightarrow> string" where
  "trim_space s = rev (strip_any (map rev space_encodings) (rev (strip_any space_encodings s)))"

definition blank :: "string \<Rightarrow> bool" where
  "blank s \<longleftrightarrow> trim_space s = []"

text \<open>\<open>strings.ToLower\<close>, exact on ASCII and on the two other code points whose lower case is
  an ASCII letter (U+0130, U+212A); the remaining code points keep their bytes.  The sources
  only compare the result with ASCII literals, which cannot tell the difference.\<close>

definition lower_byte :: "char \<Rightarrow> char" where
  "lower_byte c = (let n = (of_char c :: nat) in if 65 \<le> n \<and> n \<le> 90 then char_of (n + 32) else c)"

function to_lower :: "string \<Rightarrow> string" where
  "to_lower s =
     (case s of
        [] \<Rightarrow> []
      | c # cs \<Rightarrow>
          if has_prefix s (map char_of [196 :: nat, 176]) then CHR ''i'' # to_lower (drop 2 s)
          else if has_prefix s (map char_of [226 :: nat, 132, 170]) then CHR ''k'' # to_lower (drop 3 s)
          else lower_byte c # to_lower cs)"
  by pat_completeness auto
termination
  by (relation "measure length") auto

declare to_lower.simps [simp del]

text \<open>Decoding of UTF-8 as \<open>range\<close> over a string does: the code points, each as its
  encoding; a byte that starts no valid sequence decodes to U+FFFD.\<close>

definition in_range :: "nat \<Rightarrow> nat \<Rightarrow> nat \<Rightarrow> bool" where
  "in_range lo hi n \<longleftrightarrow> lo \<le> n \<and> n \<le> hi"

definition rune_width :: "string \<Rightarrow> nat" where
  "rune_width s =
     (case map of_char s of
        [] \<Rightarrow> 0
      | b0 # bs \<Rightarrow>
          if b0 < 128 then 1
          else (case bs of
             b1 # b2 # b3 # _ \<Rightarrow>
               if in_range 194 223 b0 \<and> in_range 128 191 b1 then 2
               else if in_range 224 239 b0 \<and> in_range 128 191 b2
                 \<and> in_range (if b0 = 224 then 160 else 128) (if b0 = 237 then 159 else 191) b1 then 3
               else if in_range 240 244 b0 \<and> in_range 128 191 b2 \<and> in_range 128 191 b3
                 \<and> in_range (if b0 = 240 then 144 else 128) (if b0 = 244 then 143 else 191) b1 then 4
               else 0
           | [b1, b2] \<Rightarrow>
               if in_range 194 223 b0 \<and> in_range 128 191 b1 then 2
               else if in_range 224 239 b0 \<and> in_range 128 191 b2
                 \<and> in_range (if b0 = 224 then 160 else 128) (if b0 = 237 then 159 else 191) b1 then 3
               else 0
           | [b1] \<Rightarrow> if in_range 194 223 b0 \<and> in_range 128 191 b1 then 2 else 0
           | [] \<Rightarrow> 0))"

definition rune_error :: string where
  "rune_error = map char_of [239 :: nat, 191, 189]"

function runes :: "string \<Rightarrow> string list" where
  "runes s =
     (if s = [] then []
      else if rune_width s = 0 then rune_error # runes (tl s)
      else take (rune_width s) s # runes (drop (rune_width s) s))"
  by pat_completeness auto
termination
  by (relation "measure length") auto

declare runes.simps [simp del]

text \<open>\<open>strings.ContainsAny(s, chars)\<close>: some code point of \<open>s\<close> is one of \<open>chars\<close>.\<close>

definition contains_any :: "string \<Rightarrow> string \<Rightarrow> bool" where
  "contains_any s chars \<longleftrightarrow> list_ex (\<lambda>r. List.member (runes chars) r) (runes s)"

text \<open>\<open>strconv.Itoa\<close> of a non-negative integer.\<close>

fun itoa :: "nat \<Rightarrow> string" where
  "itoa n = (if n < 10 then [char_of (48 + n)] else itoa (n div 10) @ [char_of (48 + n mod 10)])"

declare itoa.simps [simp del]

definition digits_value :: "string \<Rightarrow> nat" where
  "digits_value s = foldl (\<lambda>a c. 10 * a + (of_char c - 48)) 0 s"

lemma digits_value_itoa [simp]: "digits_value (itoa n) = n"
proof (induction n rule: itoa.induct)
  case (1 n)
  have digit: "of_char (char_of (48 + d) :: char) = 48 + d" if "d < 10" for d :: nat
    using that by (simp add: of_char_of)
  show ?case
    using 1 by (subst itoa.simps) (auto simp: digits_value_def digit)
qed

lemma inj_itoa: "inj itoa"
  by (metis digits_value_itoa injI)

section \<open>Package path\<close>

definition slash_join :: "string list \<Rightarrow> string" where
  "slash_join cs = join_with ''/'' cs"

text \<open>The component stack of \<open>path.Clean\<close>: the accumulator holds the components kept so far,
  last first.\<close>

fun clean_comps :: "bool \<Rightarrow> string list \<Rightarrow> string list \<Rightarrow> string list" where
  "clean_comps rooted acc [] = rev acc"
| "clean_comps rooted acc (c # cs) =
     (if c = [] \<or> c = ''.'' then clean_comps rooted acc cs
      else if c = ''..'' then
        (case acc of
           [] \<Rightarrow> clean_comps rooted (if rooted then [] else [c]) cs
         | a # as \<Rightarrow> clean_comps rooted (if a = ''..'' then c # acc else as) cs)
      else clean_comps rooted (c # acc) cs)"

definition path_Clean :: "string \<Rightarrow> string" where
  "path_Clean p =
     (if p = [] then ''.''
      else let rooted = (hd p = slash); cs = clean_comps rooted [] (split_on slash p)
           in if rooted then slash # slash_join cs
              else if cs = [] then ''.'' else slash_join cs)"

definition after_last_slash :: "string \<Rightarrow> string" where
  "after_last_slash p = rev (takeWhile (\<lambda>c. c \<noteq> slash) (rev p))"

definition upto_last_slash :: "string \<Rightarrow> string" where
  "upto_last_slash p = rev (dropWhile (\<lambda>c. c \<noteq> slash) (rev p))"

definition path_Base :: "string \<Rightarrow> string" where
  "path_Base p =
     (if p = [] then ''.''
      else let b = after_last_slash (trim_right p) in if b = [] then ''/'' else b)"

definition path_Dir :: "string \<Rightarrow> string" where
  "path_Dir p = path_Clean (upto_last_slash p)"

text \<open>\<open>path.Join\<close> drops leading empty elements, separates the rest by slashes and cleans.\<close>

definition path_Join :: "string list \<Rightarrow> string" where
  "path_Join es =
     (if concat es = [] then [] else path_Clean (slash_join (dropWhile (\<lambda>e. e = []) es)))"

text \<open>\<open>path.Ext\<close>: from the last dot of the last element, dot included.\<close>

definition path_Ext :: "string \<Rightarrow> string" where
  "path_Ext p =
     (let b = after_last_slash p; r = takeWhile (\<lambda>c. c \<noteq> CHR ''.'') (rev b)
      in if CHR ''.'' \<in> set b then CHR ''.'' # rev r else [])"

section \<open>64-bit integers\<close>

text \<open>Go's \<open>int\<close> and \<open>int64\<close> are two's complement and wrap; division truncates.\<close>

definition wrap64 :: "int \<Rightarrow> int" where
  "wrap64 x = signed_take_bit 63 x"

definition go_div :: "int \<Rightarrow> int \<Rightarrow> int" where
  "go_div a b = sgn a * sgn b * (\<bar>a\<bar> div \<bar>b\<bar>)"

definition int64 :: "int \<Rightarrow> bool" where
  "int64 x \<longleftrightarrow> -(2 ^ 63) \<le> x \<and> x < 2 ^ 63"

text \<open>\<open>strconv.ParseInt(s, 10, 64)\<close>: an optional sign and decimal digits, within 64 bits.\<close>

definition is_digit :: "char \<Rightarrow> bool" where
  "is_digit c \<longleftrightarrow> in_range 48 57 (of_char c)"

definition parse_digits :: "string \<Rightarrow> int option" where
  "parse_digits s =
     (if s \<noteq> [] \<and> list_all is_digit s
      then Some (foldl (\<lambda>n c. 10 * n + (of_char c - 48)) 0 s) else None)"

definition parse_int64 :: "string \<Rightarrow> int option" where
  "parse_int64 s =
     (case s of
        [] \<Rightarrow> None
      | c # cs \<Rightarrow>
          Option.bind (parse_digits (if c = CHR ''-'' \<or> c = CHR ''+'' then cs else s))
            (\<lambda>n. let v = (if c = CHR ''-'' then - n else n) in if int64 v then Some v else None))"

lemma wrap64_id: "int64 x \<Longrightarrow> wrap64 x = x"
  unfolding int64_def wrap64_def by (simp add: signed_take_bit_int_eq_self)

lemma int64_wrap64 [simp]: "int64 (wrap64 x)"
  using signed_take_bit_int_greater_eq_minus_exp [of 63 x] signed_take_bit_int_less_exp [of 63 x]
  by (simp add: int64_def wrap64_def)

lemma go_div_pos: "0 \<le> a \<Longrightarrow> 0 < b \<Longrightarrow> go_div a b = a div b"
  by (cases "a = 0") (auto simp: go_div_def sgn_if)

section \<open>Canonical paths\<close>

text \<open>A component iRODS and \<open>path.Clean\<close> both leave alone, and the absolute path of a list of
  components.  The root is the empty list; it prints as \<open>/\<close> (\<open>dir_path\<close>) and is what
  trimming its slash leaves, the empty string (\<open>abs_path\<close>).\<close>

definition good_comp :: "string \<Rightarrow> bool" where
  "good_comp c \<longleftrightarrow> c \<noteq> [] \<and> slash \<notin> set c \<and> c \<noteq> ''.'' \<and> c \<noteq> ''..''"

abbreviation good_comps :: "string list \<Rightarrow> bool" where
  "good_comps cs \<equiv> list_all good_comp cs"

definition abs_path :: "string list \<Rightarrow> string" where
  "abs_path cs = concat (map (\<lambda>c. slash # c) cs)"

definition dir_path :: "string list \<Rightarrow> string" where
  "dir_path cs = (if cs = [] then ''/'' else abs_path cs)"

lemma has_prefix_iff [simp]: "has_prefix s p \<longleftrightarrow> prefix p s"
  by (induction s p rule: has_prefix.induct) auto

lemma abs_path_Nil [simp]: "abs_path [] = []"
  by (simp add: abs_path_def)

lemma abs_path_Cons [simp]: "abs_path (c # cs) = slash # c @ abs_path cs"
  by (simp add: abs_path_def)

lemma abs_path_append [simp]: "abs_path (xs @ ys) = abs_path xs @ abs_path ys"
  by (simp add: abs_path_def)

lemma abs_path_eq_Nil [simp]: "abs_path cs = [] \<longleftrightarrow> cs = []"
  by (cases cs) auto

lemma slash_join_abs: "cs \<noteq> [] \<Longrightarrow> slash # slash_join cs = abs_path cs"
  by (induction cs rule: induct_list012) (auto simp: slash_join_def)

lemma split_on_no_sep [simp]: "c \<notin> set w \<Longrightarrow> split_on c w = [w]"
  by (induction w) auto

lemma split_on_append:
  "c \<notin> set w \<Longrightarrow> split_on c (w @ c # s) = w # split_on c s"
  by (induction w) auto

lemma split_on_nonempty [simp]: "split_on c s \<noteq> []"
  by (induction s) (auto split: list.splits)

lemma split_on_no_sep_members: "w \<in> set (split_on c s) \<Longrightarrow> c \<notin> set w"
proof (induction s arbitrary: w)
  case Nil
  then show ?case by simp
next
  case (Cons x xs)
  then show ?case
    by (cases "split_on c xs") (auto split: if_splits)
qed

lemma join_split: "join_with [c] (split_on c s) = s"
proof (induction s)
  case Nil
  then show ?case by simp
next
  case (Cons x xs)
  obtain w ws where w: "split_on c xs = w # ws"
    by (cases "split_on c xs") auto
  with Cons show ?case
    by (cases ws) auto
qed

lemma split_on_abs_path:
  "good_comps cs \<Longrightarrow> split_on slash (abs_path cs) = [] # cs"
proof (induction cs)
  case Nil
  then show ?case by simp
next
  case (Cons c cs)
  then have c: "slash \<notin> set c" and IH: "split_on slash (abs_path cs) = [] # cs"
    by (auto simp: good_comp_def)
  show ?case
  proof (cases cs)
    case Nil
    with c show ?thesis by simp
  next
    case (Cons d ds)
    then obtain s where s: "abs_path cs = slash # s"
      by simp
    with IH have "split_on slash s = cs"
      by simp
    with c s show ?thesis
      by (simp add: split_on_append)
  qed
qed

lemma abs_path_inject:
  assumes "good_comps xs" "good_comps ys" "abs_path xs = abs_path ys"
  shows "xs = ys"
proof -
  have "[] # xs = split_on slash (abs_path ys)"
    using split_on_abs_path [OF assms(1)] assms(3) by (simp only:)
  then show ?thesis
    using split_on_abs_path [OF assms(2)] by (simp only: list.inject)
qed

lemma clean_comps_step:
  "good_comp c \<Longrightarrow> clean_comps r acc (c # cs) = clean_comps r (c # acc) cs"
  by (simp add: good_comp_def)

lemma clean_comps_good: "good_comps cs \<Longrightarrow> clean_comps r acc cs = rev acc @ cs"
  by (induction cs arbitrary: acc) (simp_all add: clean_comps_step del: clean_comps.simps(2))

lemma clean_comps_skip: "clean_comps r acc ([] # cs) = clean_comps r acc cs"
  by simp

lemma path_Clean_rooted:
  "p \<noteq> [] \<Longrightarrow> hd p = slash \<Longrightarrow>
   path_Clean p = slash # slash_join (clean_comps True [] (split_on slash p))"
  by (simp add: path_Clean_def)

lemma hd_abs_path: "cs \<noteq> [] \<Longrightarrow> hd (abs_path cs @ s) = slash"
  by (cases cs) auto

lemma path_Clean_abs:
  assumes "good_comps cs" "cs \<noteq> []"
  shows "path_Clean (abs_path cs) = abs_path cs"
proof -
  have "clean_comps True [] (split_on slash (abs_path cs)) = cs"
    using assms by (simp add: split_on_abs_path clean_comps_good)
  with assms show ?thesis
    using hd_abs_path [of cs "[]"] by (simp add: path_Clean_rooted slash_join_abs)
qed

lemma last_good: "good_comps cs \<Longrightarrow> cs \<noteq> [] \<Longrightarrow> last (abs_path cs) \<noteq> slash"
proof (induction cs rule: rev_induct)
  case Nil
  then show ?case by simp
next
  case (snoc c cs)
  then have "c \<noteq> []" and "slash \<notin> set c"
    by (auto simp: good_comp_def)
  then show ?case
    by (simp add: last_append) (metis last_in_set)
qed

lemma trim_right_id: "p = [] \<or> last p \<noteq> slash \<Longrightarrow> trim_right p = p"
  by (cases p rule: rev_cases) (auto simp: trim_right_def)

lemma trim_right_abs [path_simps]: "good_comps cs \<Longrightarrow> trim_right (abs_path cs) = abs_path cs"
  by (metis abs_path_eq_Nil last_good trim_right_id)

lemma trim_right_slash [simp]: "trim_right (p @ ''/'') = trim_right p"
  by (simp add: trim_right_def)

lemma trim_right_root [simp]: "trim_right ''/'' = []"
  by (simp add: trim_right_def)

lemma trim_right_dir [path_simps]: "good_comps cs \<Longrightarrow> trim_right (dir_path cs) = abs_path cs"
  by (simp add: dir_path_def trim_right_abs)

lemma trim_right_last: "trim_right p = [] \<or> last (trim_right p) \<noteq> slash"
proof -
  have "dropWhile (\<lambda>c. c = slash) (rev p) = [] \<or> hd (dropWhile (\<lambda>c. c = slash) (rev p)) \<noteq> slash"
    using hd_dropWhile [of "\<lambda>c. c = slash" "rev p"] by blast
  then show ?thesis
    by (auto simp: trim_right_def last_rev)
qed

lemma trim_right_idem [simp]: "trim_right (trim_right p) = trim_right p"
  using trim_right_last by (rule trim_right_id)

lemma takeWhile_rev_comp:
  "slash \<notin> set c \<Longrightarrow> takeWhile (\<lambda>x. x \<noteq> slash) (rev c @ slash # s) = rev c"
  by (subst takeWhile_append2) auto

lemma dropWhile_rev_comp:
  "slash \<notin> set c \<Longrightarrow> dropWhile (\<lambda>x. x \<noteq> slash) (rev c @ slash # s) = slash # s"
  by (subst dropWhile_append2) auto

lemma after_last_slash_snoc:
  "slash \<notin> set c \<Longrightarrow> after_last_slash (p @ slash # c) = c"
  by (simp add: after_last_slash_def takeWhile_rev_comp)

lemma upto_last_slash_snoc:
  "slash \<notin> set c \<Longrightarrow> upto_last_slash (p @ slash # c) = p @ ''/''"
  by (simp add: upto_last_slash_def dropWhile_rev_comp)

lemma split_on_sep: "split_on c (u @ c # v) = split_on c u @ split_on c v"
  by (induction u) (auto split: list.splits)

lemma clean_comps_trailing: "clean_comps r acc (cs @ [[]]) = clean_comps r acc cs"
  by (induction r acc cs rule: clean_comps.induct) (auto split: list.splits)

lemma path_Clean_trailing [path_simps]:
  assumes "good_comps cs"
  shows "path_Clean (abs_path cs @ ''/'') = dir_path cs"
proof (cases cs)
  case Nil
  then show ?thesis
    by (simp add: path_Clean_def dir_path_def slash_join_def)
next
  case (Cons d ds)
  have "split_on slash (abs_path cs @ ''/'') = ([] # cs) @ [[]]"
    using assms by (simp add: split_on_sep split_on_abs_path)
  then have "clean_comps True [] (split_on slash (abs_path cs @ ''/'')) = cs"
    using assms by (simp only: clean_comps_trailing) (simp add: clean_comps_good)
  moreover have "hd (abs_path cs @ ''/'') = slash" and "cs \<noteq> []"
    using Cons by auto
  ultimately show ?thesis
    by (simp add: path_Clean_rooted dir_path_def slash_join_abs del: abs_path_Cons)
qed

lemma path_Dir_snoc [path_simps]:
  assumes "good_comps cs" "good_comp c"
  shows "path_Dir (abs_path (cs @ [c])) = dir_path cs"
  using assms by (simp add: path_Dir_def upto_last_slash_snoc good_comp_def path_Clean_trailing)

lemma path_Base_snoc [path_simps]:
  assumes "good_comps cs" "good_comp c"
  shows "path_Base (abs_path (cs @ [c])) = c"
proof -
  have "trim_right (abs_path (cs @ [c])) = abs_path (cs @ [c])"
    using assms by (intro trim_right_abs) simp
  with assms show ?thesis
    by (simp add: path_Base_def after_last_slash_snoc good_comp_def)
qed

text \<open>Joining a clean collection and a relative path of good components appends them.\<close>

lemma clean_comps_filter_good:
  assumes "good_comps (filter (\<lambda>c. c \<noteq> []) cs)"
  shows "clean_comps r acc cs = rev acc @ filter (\<lambda>c. c \<noteq> []) cs"
  using assms by (induction cs arbitrary: acc) (auto simp: good_comp_def split: if_splits)

lemma path_Join_abs [path_simps]:
  assumes "good_comps cs" "good_comp c"
  shows "path_Join [dir_path cs, c] = abs_path (cs @ [c])"
proof (cases cs)
  case Nil
  have "split_on slash (''/'' @ slash # c) = [[], [], c]"
    using assms by (simp add: good_comp_def)
  with Nil assms show ?thesis
    by (simp add: path_Join_def slash_join_def dir_path_def path_Clean_def good_comp_def)
next
  case (Cons d ds)
  have "path_Join [dir_path cs, c] = path_Clean (abs_path (cs @ [c]))"
    using Cons assms by (simp add: path_Join_def slash_join_def dir_path_def)
  also have "\<dots> = abs_path (cs @ [c])"
    using assms by (intro path_Clean_abs) auto
  finally show ?thesis .
qed

lemma prefix_abs_path:
  assumes "good_comps xs" "good_comps ys"
  shows "prefix (abs_path ys @ ''/'') (abs_path xs) \<longleftrightarrow> strict_prefix ys xs"
proof
  assume "prefix (abs_path ys @ ''/'') (abs_path xs)"
  then obtain s where s: "abs_path xs = abs_path ys @ slash # s"
    by (auto simp: prefix_def)
  then have "split_on slash (abs_path xs) = split_on slash (abs_path ys) @ split_on slash s"
    by (simp only: split_on_sep)
  then have "[] # xs = ([] # ys) @ split_on slash s"
    using split_on_abs_path [OF assms(1)] split_on_abs_path [OF assms(2)] by (simp only:)
  then show "strict_prefix ys xs"
    by (auto simp: strict_prefix_def prefix_def)
next
  assume "strict_prefix ys xs"
  then obtain z zs where "xs = ys @ z # zs"
    by (rule strict_prefixE')
  then show "prefix (abs_path ys @ ''/'') (abs_path xs)"
    by (simp add: prefix_def)
qed

section \<open>Canonical paths\<close>

text \<open>An absolute path of ordinary components: no empty one, no dot, no trailing slash.\<close>

definition canonical :: "string \<Rightarrow> bool" where
  "canonical p \<longleftrightarrow> (case split_on slash p of c # cs \<Rightarrow> c = [] \<and> cs \<noteq> [] \<and> good_comps cs | [] \<Rightarrow> False)"

lemma canonical_iff: "canonical p \<longleftrightarrow> (\<exists>cs. cs \<noteq> [] \<and> good_comps cs \<and> p = abs_path cs)"
proof
  assume "canonical p"
  then obtain cs where cs: "split_on slash p = [] # cs" "cs \<noteq> []" "good_comps cs"
    by (auto simp: canonical_def split: list.splits)
  have "join_with [slash] ([] # cs) = p"
    using join_split [of slash p] cs(1) by simp
  moreover have "join_with [slash] ([] # cs) = abs_path cs"
    using cs(2) slash_join_abs [OF cs(2)] by (cases cs) (simp_all add: slash_join_def)
  ultimately show "\<exists>cs. cs \<noteq> [] \<and> good_comps cs \<and> p = abs_path cs"
    using cs by blast
next
  assume "\<exists>cs. cs \<noteq> [] \<and> good_comps cs \<and> p = abs_path cs"
  then show "canonical p"
    using split_on_abs_path by (auto simp: canonical_def)
qed

lemma canonicalE:
  assumes "canonical p"
  obtains cs c where "good_comps cs" "good_comp c" "p = abs_path (cs @ [c])"
proof -
  obtain ds where ds: "ds \<noteq> []" "good_comps ds" "p = abs_path ds"
    using assms by (auto simp: canonical_iff)
  then have "ds = butlast ds @ [last ds]"
    by simp
  with ds that show ?thesis
    by (metis list_all_append list.pred_inject(2))
qed

lemma canonical_trim: "canonical p \<Longrightarrow> trim_right p = p"
  by (auto simp: canonical_iff trim_right_abs)

end
