(* ===== verification/Paths.thy ===== *)
theory Paths
  imports GoStrings
begin

text \<open>
  Package \<open>internal/paths\<close>: the zone's namespace (\<open>paths.go\<close>) and the path length limits
  (\<open>lengths.go\<close>), function by function.  The locale \<open>path_tree\<close> is the contract other
  packages rely on: containment is a preorder whose up-sets are chains.  It is interpreted on
  \<open>IsWithin\<close>.
\<close>

section \<open>paths.go\<close>

record layout =
  Zone :: string
  Home :: string
  CommunityData :: string

definition Base :: "string \<Rightarrow> string" where
  "Base p = path_Base (trim_right p)"

definition Dir :: "string \<Rightarrow> string" where
  "Dir p = path_Dir (trim_right p)"

definition Clean :: "string \<Rightarrow> string" where
  "Clean p = path_Clean p"

definition Join :: "string list \<Rightarrow> string" where
  "Join elements = path_Join elements"

definition IsWithin :: "string \<Rightarrow> string \<Rightarrow> bool" where
  "IsWithin p base =
     (let p = trim_right p; base = trim_right base
      in p = base \<or> has_prefix p (base @ ''/''))"

definition path_equal :: "string \<Rightarrow> string \<Rightarrow> bool" where
  "path_equal a b \<longleftrightarrow> trim_right a = trim_right b"

definition UserHome :: "layout \<Rightarrow> string \<Rightarrow> string" where
  "UserHome l user = Join [Home l, user]"

definition TrashBase :: "layout \<Rightarrow> string" where
  "TrashBase l = Join [''/'' @ Zone l, ''trash'', ''home'']"

definition UserTrash :: "layout \<Rightarrow> string \<Rightarrow> string" where
  "UserTrash l user = Join [TrashBase l, user]"

definition IsUserTrash :: "layout \<Rightarrow> string \<Rightarrow> string \<Rightarrow> bool" where
  "IsUserTrash l user p = path_equal p (UserTrash l user)"

definition IsTrashBase :: "layout \<Rightarrow> string \<Rightarrow> bool" where
  "IsTrashBase l p = path_equal p (TrashBase l)"

definition IsSharing :: "layout \<Rightarrow> string \<Rightarrow> bool" where
  "IsSharing l p = path_equal p (Home l)"

definition IsCommunityData :: "layout \<Rightarrow> string \<Rightarrow> bool" where
  "IsCommunityData l p = path_equal p (CommunityData l)"

definition InTrash :: "layout \<Rightarrow> string \<Rightarrow> bool" where
  "InTrash l p = IsWithin p (TrashBase l)"

definition Label :: "layout \<Rightarrow> string \<Rightarrow> string \<Rightarrow> string" where
  "Label l user p =
     (if IsUserTrash l user p then ''Trash''
      else if IsSharing l p then ''Shared With Me''
      else if IsCommunityData l p then ''Community Data''
      else Base p)"

definition IsBasePath :: "layout \<Rightarrow> string \<Rightarrow> string \<Rightarrow> bool" where
  "IsBasePath l user p \<longleftrightarrow>
     IsUserTrash l user p \<or> IsTrashBase l p \<or> IsSharing l p \<or> IsCommunityData l p"

definition DestinationsUnder :: "string \<Rightarrow> string list \<Rightarrow> string list" where
  "DestinationsUnder destination sources = map (\<lambda>source. Join [destination, Base source]) sources"

section \<open>lengths.go\<close>

definition MaxPathLength :: nat where "MaxPathLength = 1067"

definition MaxDirLength :: nat where "MaxDirLength = 640"

definition MaxFilenameLength :: nat where "MaxFilenameLength = MaxPathLength - MaxDirLength"

datatype length_violation = LengthOK | LengthPath | LengthDir | LengthBasename

definition CheckLength :: "string \<Rightarrow> length_violation" where
  "CheckLength p =
     (if length p > MaxPathLength then LengthPath
      else if length (Dir p) > MaxDirLength then LengthDir
      else if length (Base p) > MaxFilenameLength then LengthBasename
      else LengthOK)"

lemmas length_limits = MaxPathLength_def MaxDirLength_def MaxFilenameLength_def

section \<open>The tree of paths\<close>

text \<open>What the lock check and the trash rules rely on: containment is reflexive and
  transitive, and two collections holding the same path are nested.\<close>

locale path_tree =
  fixes within :: "'p \<Rightarrow> 'p \<Rightarrow> bool"
  assumes within_refl: "within p p"
    and within_trans: "within p q \<Longrightarrow> within q r \<Longrightarrow> within p r"
    and within_chain: "within p q \<Longrightarrow> within p r \<Longrightarrow> within q r \<or> within r q"
begin

text \<open>Two subtrees meet exactly when one root lies inside the other.\<close>

lemma overlap_iff: "(\<exists>p. within p a \<and> within p b) \<longleftrightarrow> within a b \<or> within b a"
  using within_refl within_chain by blast

lemma overlap_up: "within a b \<Longrightarrow> within a c \<or> within c a \<Longrightarrow> within b c \<or> within c b"
  using within_trans within_chain by blast

end

lemma IsWithin_refl: "IsWithin p p"
  by (simp add: IsWithin_def)

lemma IsWithin_prefix:
  "IsWithin p q \<longleftrightarrow> prefix (trim_right q @ ''/'') (trim_right p @ ''/'')"
  by (auto simp: IsWithin_def Let_def)

lemma trimmed_slash_inject: "prefix (a @ [c]) (b @ [c]) \<Longrightarrow> prefix (b @ [c]) (a @ [c]) \<Longrightarrow> a = b"
  using prefix_order.antisym by blast

interpretation paths: path_tree IsWithin
proof
  show "IsWithin p p" for p
    by (rule IsWithin_refl)
  show "IsWithin p r" if "IsWithin p q" "IsWithin q r" for p q r
    using that unfolding IsWithin_prefix by (rule prefix_order.trans [rotated])
  show "IsWithin q r \<or> IsWithin r q" if "IsWithin p q" "IsWithin p r" for p q r
    using that unfolding IsWithin_prefix using prefix_same_cases by blast
qed

lemma IsWithin_antisym: "IsWithin p q \<Longrightarrow> IsWithin q p \<Longrightarrow> path_equal p q"
  unfolding IsWithin_prefix path_equal_def by (rule trimmed_slash_inject)

lemma IsWithin_comps [path_simps]:
  assumes "good_comps xs" "good_comps ys"
  shows "IsWithin (abs_path xs) (abs_path ys) \<longleftrightarrow> prefix ys xs"
  using assms abs_path_inject [OF assms]
  by (auto simp: IsWithin_def Let_def trim_right_abs prefix_abs_path strict_prefix_def)

section \<open>Components of parents, names and special collections\<close>

lemma Dir_snoc [path_simps]:
  "good_comps cs \<Longrightarrow> good_comp c \<Longrightarrow> Dir (abs_path (cs @ [c])) = dir_path cs"
  using trim_right_abs [of "cs @ [c]"] path_Dir_snoc [of cs c] by (simp add: Dir_def)

lemma Base_snoc [path_simps]:
  "good_comps cs \<Longrightarrow> good_comp c \<Longrightarrow> Base (abs_path (cs @ [c])) = c"
  using trim_right_abs [of "cs @ [c]"] path_Base_snoc [of cs c] by (simp add: Base_def)

lemma Join_comp [path_simps]:
  "good_comps cs \<Longrightarrow> good_comp c \<Longrightarrow> Join [dir_path cs, c] = abs_path (cs @ [c])"
  unfolding Join_def by (rule path_Join_abs)

lemma Join_comp_abs [path_simps]:
  "good_comps cs \<Longrightarrow> cs \<noteq> [] \<Longrightarrow> good_comp c \<Longrightarrow> Join [abs_path cs, c] = abs_path (cs @ [c])"
  using Join_comp [of cs c] by (simp add: dir_path_def)

lemma TrashBase_comps [path_simps]:
  assumes "good_comp (Zone l)"
  shows "TrashBase l = abs_path [Zone l, ''trash'', ''home'']"
proof -
  have "slash_join [''/'' @ Zone l, ''trash'', ''home''] = abs_path [Zone l, ''trash'', ''home'']"
    by (simp add: slash_join_def)
  moreover have "good_comps [Zone l, ''trash'', ''home'']"
    using assms by (simp add: good_comp_def)
  ultimately show ?thesis
    using path_Clean_abs [of "[Zone l, ''trash'', ''home'']"]
    by (simp add: TrashBase_def Join_def path_Join_def)
qed

lemma UserTrash_comps [path_simps]:
  assumes "good_comp (Zone l)" "good_comp user"
  shows "UserTrash l user = abs_path [Zone l, ''trash'', ''home'', user]"
  using assms Join_comp_abs [of "[Zone l, ''trash'', ''home'']" user]
  by (simp add: UserTrash_def TrashBase_comps good_comp_def)

lemma Join_Base_comps [path_simps]:
  assumes "good_comps ds" "ds \<noteq> []" "good_comps cs" "good_comp c"
  shows "Join [abs_path ds, Base (abs_path (cs @ [c]))] = abs_path (ds @ [c])"
  using assms by (simp add: Base_snoc Join_comp_abs del: abs_path_append)

section \<open>Walking up terminates\<close>

text \<open>\<open>Dir\<close> shortens every path of two bytes or more and ends in the fixed point \<open>.\<close>, so a
  loop that climbs with it until nothing changes stops.\<close>

definition comps_size :: "string list \<Rightarrow> nat" where
  "comps_size cs = sum_list (map (\<lambda>c. Suc (length c)) cs)"

lemma comps_size_simps [simp]:
  "comps_size [] = 0" "comps_size (c # cs) = Suc (length c + comps_size cs)"
  "comps_size (xs @ ys) = comps_size xs + comps_size ys" "comps_size (rev cs) = comps_size cs"
  by (simp_all add: comps_size_def rev_map [symmetric])

lemma comps_size_split: "comps_size (split_on c s) = Suc (length s)"
  by (induction s) (auto split: list.splits)

lemma comps_size_clean: "comps_size (clean_comps r acc cs) \<le> comps_size acc + comps_size (filter (\<lambda>c. c \<noteq> []) cs)"
proof (induction r acc cs rule: clean_comps.induct)
  case (1 r acc)
  then show ?case by simp
next
  case (2 r acc c cs)
  then show ?case
    by (auto split: list.splits if_splits)
qed

lemma comps_size_filter: "comps_size (filter P cs) \<le> comps_size cs"
  by (induction cs) auto

lemma length_slash_join: "Suc (length (slash_join cs)) \<le> max 1 (comps_size cs)"
  by (induction cs rule: induct_list012) (auto simp: slash_join_def)

lemma length_Clean_slash: "length (path_Clean (y @ ''/'')) \<le> max 1 (length y)"
proof -
  have split: "split_on slash (y @ ''/'') = split_on slash y @ [[]]"
    by (simp add: split_on_sep)
  show ?thesis
  proof (cases y)
    case Nil
    then show ?thesis
      by (simp add: path_Clean_def slash_join_def)
  next
    case (Cons c z)
    let ?cs = "\<lambda>r. clean_comps r [] (split_on slash (y @ ''/''))"
    have size: "comps_size (?cs r) \<le> comps_size (filter (\<lambda>c. c \<noteq> []) (split_on slash y))" for r
      using comps_size_clean [of r "[]" "split_on slash (y @ ''/'')"] by (simp add: split)
    show ?thesis
    proof (cases "c = slash")
      case True
      then have "comps_size (?cs True) \<le> length y"
        using size [of True] Cons comps_size_filter [of "\<lambda>c. c \<noteq> []" "split_on slash z"]
        by (simp add: comps_size_split)
      with True Cons length_slash_join [of "?cs True"] show ?thesis
        by (simp add: path_Clean_def)
    next
      case False
      have "comps_size (?cs False) \<le> Suc (length y)"
        using size [of False] comps_size_filter [of "\<lambda>c. c \<noteq> []" "split_on slash y"]
        by (simp add: comps_size_split)
      with False Cons length_slash_join [of "?cs False"] show ?thesis
        by (auto simp: path_Clean_def Let_def)
    qed
  qed
qed

lemma upto_last_slash_cases: "upto_last_slash p = [] \<or> (\<exists>y. upto_last_slash p = y @ ''/'' \<and> length y < length p)"
proof (cases "dropWhile (\<lambda>c. c \<noteq> slash) (rev p)")
  case Nil
  then show ?thesis by (simp add: upto_last_slash_def)
next
  case (Cons c r)
  then have "c = slash"
    using hd_dropWhile [of "\<lambda>c. c \<noteq> slash" "rev p"] by auto
  moreover have "length r < length p"
    using Cons length_dropWhile_le [of "\<lambda>c. c \<noteq> slash" "rev p"] by simp
  ultimately show ?thesis
    using Cons by (auto simp: upto_last_slash_def intro!: exI [of _ "rev r"])
qed

lemma length_trim_right: "length (trim_right p) \<le> length p"
  by (simp add: trim_right_def) (metis length_dropWhile_le length_rev)

lemma length_Dir: "length (Dir p) \<le> max 1 (length p - 1)"
proof -
  let ?q = "trim_right p"
  consider "upto_last_slash ?q = []" | y where "upto_last_slash ?q = y @ ''/''" "length y < length ?q"
    using upto_last_slash_cases by blast
  then show ?thesis
  proof cases
    case 1
    then show ?thesis
      by (simp add: Dir_def path_Dir_def path_Clean_def)
  next
    case 2
    then show ?thesis
      using length_Clean_slash [of y] length_trim_right [of p]
      by (simp add: Dir_def path_Dir_def)
  qed
qed

lemma clean_comps_nonempty: "[] \<notin> set acc \<Longrightarrow> [] \<notin> set (clean_comps r acc cs)"
  by (induction r acc cs rule: clean_comps.induct) (auto split: list.splits if_splits)

lemma path_Clean_nonempty [simp]: "path_Clean q \<noteq> []"
proof -
  have "slash_join cs \<noteq> []" if "cs \<noteq> []" "[] \<notin> set cs" for cs
    using that by (induction cs rule: induct_list012) (auto simp: slash_join_def)
  then show ?thesis
    using clean_comps_nonempty [of "[]"] by (simp add: path_Clean_def Let_def)
qed

lemma Dir_nonempty [simp]: "Dir p \<noteq> []"
  by (simp add: Dir_def path_Dir_def)

definition climb_measure :: "string \<Rightarrow> nat" where
  "climb_measure p = (if p = [] then 3 else 2 * length p - (if p = ''.'' then 1 else 0))"

lemma Dir_short:
  assumes "length p \<le> 1"
  shows "Dir p = ''.''"
proof -
  have "p = [] \<or> (\<exists>c. p = [c])"
    using assms by (cases p) auto
  then have "slash \<notin> set (trim_right p)"
    by (auto simp: trim_right_def split: if_splits)
  then have "upto_last_slash (trim_right p) = []"
    by (auto simp: upto_last_slash_def dropWhile_eq_Nil_conv)
  then show ?thesis
    by (simp add: Dir_def path_Dir_def path_Clean_def)
qed

lemma climb_measure_Dir: "Dir p \<noteq> p \<Longrightarrow> climb_measure (Dir p) < climb_measure p"
proof -
  assume change: "Dir p \<noteq> p"
  show ?thesis
  proof (cases "length p \<le> 1")
    case True
    then have "Dir p = ''.''"
      by (rule Dir_short)
    with change True show ?thesis
      by (cases p) (auto simp: climb_measure_def)
  next
    case False
    moreover have "climb_measure (Dir p) \<le> 2 * length (Dir p)"
      by (simp add: climb_measure_def)
    ultimately show ?thesis
      using length_Dir [of p] by (auto simp: climb_measure_def)
  qed
qed

section \<open>Properties\<close>

text \<open>Path containment is containment of whole components: on canonical paths \<open>p\<close> lies in
  \<open>base\<close> exactly when \<open>base\<close>'s components begin \<open>p\<close>'s, trailing slashes notwithstanding.\<close>

theorem IsWithin_whole_components:
  assumes "good_comps xs" and "good_comps ys"
  shows "IsWithin (abs_path xs) (abs_path ys @ replicate n slash) \<longleftrightarrow> prefix ys xs"
proof -
  have "trim_right (abs_path ys @ replicate n slash) = trim_right (abs_path ys)"
    by (induction n) (simp_all add: replicate_append_same [symmetric] flip: append_assoc)
  then have "IsWithin (abs_path xs) (abs_path ys @ replicate n slash) = IsWithin (abs_path xs) (abs_path ys)"
    by (simp add: IsWithin_def)
  with assms show ?thesis
    by (simp add: IsWithin_comps)
qed

theorem IsWithin_whole_components_witness:
  "\<not> IsWithin (abs_path [''a'', ''bc'']) (abs_path [''a'', ''b''] @ replicate 1 slash)"
  using IsWithin_whole_components [of "[''a'', ''bc'']" "[''a'', ''b'']" 1] by (simp add: good_comp_def)

text \<open>What a move names as destinations: one per source, in order, each directly inside the
  destination collection and carrying its source's own name, so that a path and its landing
  place differ only in the collection.\<close>

theorem DestinationsUnder_placement:
  assumes "good_comps ds" "ds \<noteq> []" and "list_all (\<lambda>(cs, c). good_comps cs \<and> good_comp c) srcs"
  shows "DestinationsUnder (abs_path ds) (map (\<lambda>(cs, c). abs_path (cs @ [c])) srcs)
    = map (\<lambda>(cs, c). abs_path (ds @ [c])) srcs"
  unfolding DestinationsUnder_def
  using assms by (auto simp: list_all_iff Join_Base_comps simp del: abs_path_append)

theorem DestinationsUnder_placement_witness:
  "DestinationsUnder (abs_path [''z'', ''d'']) [''/z/home/a''] = [''/z/d/a'']"
  using DestinationsUnder_placement [of "[''z'', ''d'']" "[([''z'', ''home''], ''a'')]"]
  by (simp add: good_comp_def)

text \<open>C31.  The trash is a place of its own: in a layout whose home collection is
  \<open>/zone/home\<close>, no path under it is in the trash, every user's trash is, and two users'
  trashes hold no common path.\<close>

theorem trash_disjoint_from_home:
  assumes "good_comp (Zone l)" "Home l = abs_path [Zone l, ''home'']" "good_comp u" "good_comp v"
  shows "(IsWithin p (Home l) \<longrightarrow> \<not> InTrash l p) \<and> InTrash l (UserTrash l u)
    \<and> (u \<noteq> v \<longrightarrow> \<not> (IsWithin p (UserTrash l u) \<and> IsWithin p (UserTrash l v)))"
proof (intro conjI impI notI)
  assume "IsWithin p (Home l)" "InTrash l p"
  then have "IsWithin (Home l) (TrashBase l) \<or> IsWithin (TrashBase l) (Home l)"
    unfolding InTrash_def using paths.within_chain by blast
  with assms show False
    using IsWithin_comps [of "[Zone l, ''home'']" "[Zone l, ''trash'', ''home'']"]
      IsWithin_comps [of "[Zone l, ''trash'', ''home'']" "[Zone l, ''home'']"]
    by (simp add: TrashBase_comps good_comp_def del: abs_path_Cons)
next
  show "InTrash l (UserTrash l u)"
    using assms IsWithin_comps [of "[Zone l, ''trash'', ''home'', u]" "[Zone l, ''trash'', ''home'']"]
    by (simp add: InTrash_def UserTrash_comps TrashBase_comps good_comp_def del: abs_path_Cons)
next
  assume "u \<noteq> v" "IsWithin p (UserTrash l u) \<and> IsWithin p (UserTrash l v)"
  then have "IsWithin (UserTrash l u) (UserTrash l v) \<or> IsWithin (UserTrash l v) (UserTrash l u)"
    using paths.within_chain by blast
  with assms \<open>u \<noteq> v\<close> show False
    using IsWithin_comps [of "[Zone l, ''trash'', ''home'', u]" "[Zone l, ''trash'', ''home'', v]"]
      IsWithin_comps [of "[Zone l, ''trash'', ''home'', v]" "[Zone l, ''trash'', ''home'', u]"]
    by (simp add: UserTrash_comps good_comp_def del: abs_path_Cons)
qed

definition sample_layout :: layout where
  "sample_layout = \<lparr>Zone = ''z'', Home = ''/z/home'', CommunityData = ''/z/home/shared''\<rparr>"

theorem trash_disjoint_from_home_witness:
  "\<not> InTrash sample_layout ''/z/home/ann/x'' \<and> InTrash sample_layout (UserTrash sample_layout ''ann'')"
proof -
  have "IsWithin ''/z/home/ann/x'' (Home sample_layout)"
    by code_simp
  then show ?thesis
    using trash_disjoint_from_home [of sample_layout "''ann''" "''bob''" "''/z/home/ann/x''"]
    by (simp add: sample_layout_def good_comp_def)
qed

text \<open>The length check accepts a path exactly when it is within all three limits, and
  names the first limit exceeded in the order path, collection, name.\<close>

theorem CheckLength_exact:
  "(CheckLength p = LengthOK \<longleftrightarrow> length p \<le> 1067 \<and> length (Dir p) \<le> 640 \<and> length (Base p) \<le> 427)
   \<and> (CheckLength p = LengthPath \<longleftrightarrow> 1067 < length p)
   \<and> (CheckLength p = LengthDir \<longleftrightarrow> length p \<le> 1067 \<and> 640 < length (Dir p))
   \<and> (CheckLength p = LengthBasename \<longleftrightarrow>
        length p \<le> 1067 \<and> length (Dir p) \<le> 640 \<and> 427 < length (Base p))"
  by (auto simp: CheckLength_def length_limits)

end
