(* ===== verification/ApiErrors.thy ===== *)
theory ApiErrors
  imports GoStrings
begin

text \<open>
  Package \<open>internal/apierror\<close>: the shared code vocabulary (\<open>codes.go\<close>), the status table
  (\<open>status.go\<close>), the error envelope (\<open>error.go\<close>), relayed upstream errors (\<open>upstream.go\<close>)
  and the handler that turns any error into a response (\<open>handler.go\<close>).  An envelope is the
  ordered list of its fields; turning a field into bytes is \<open>json.Marshal\<close>'s.
\<close>

section \<open>codes.go\<close>

type_synonym code = string

definition ErrBadOrMissingField :: code where "ErrBadOrMissingField = ''ERR_BAD_OR_MISSING_FIELD''"
definition ErrBadQueryParameter :: code where "ErrBadQueryParameter = ''ERR_BAD_QUERY_PARAMETER''"
definition ErrBadRequest :: code where "ErrBadRequest = ''ERR_BAD_REQUEST''"
definition ErrConfigInvalid :: code where "ErrConfigInvalid = ''ERR_CONFIG_INVALID''"
definition ErrConflict :: code where "ErrConflict = ''ERR_CONFLICT''"
definition ErrDoesNotExist :: code where "ErrDoesNotExist = ''ERR_DOES_NOT_EXIST''"
definition ErrExists :: code where "ErrExists = ''ERR_EXISTS''"
definition ErrForbidden :: code where "ErrForbidden = ''ERR_FORBIDDEN''"
definition ErrIllegalArgument :: code where "ErrIllegalArgument = ''ERR_ILLEGAL_ARGUMENT''"
definition ErrIncompleteRename :: code where "ErrIncompleteRename = ''ERR_INCOMPLETE_RENAME''"
definition ErrInvalidJSON :: code where "ErrInvalidJSON = ''ERR_INVALID_JSON''"
definition ErrMissingQueryParam :: code where "ErrMissingQueryParam = ''ERR_MISSING_QUERY_PARAMETER''"
definition ErrNotAFile :: code where "ErrNotAFile = ''ERR_NOT_A_FILE''"
definition ErrNotAFolder :: code where "ErrNotAFolder = ''ERR_NOT_A_FOLDER''"
definition ErrNotAUser :: code where "ErrNotAUser = ''ERR_NOT_A_USER''"
definition ErrNotAuthorized :: code where "ErrNotAuthorized = ''ERR_NOT_AUTHORIZED''"
definition ErrNotFound :: code where "ErrNotFound = ''ERR_NOT_FOUND''"
definition ErrNotOwner :: code where "ErrNotOwner = ''ERR_NOT_OWNER''"
definition ErrNotReadable :: code where "ErrNotReadable = ''ERR_NOT_READABLE''"
definition ErrNotWriteable :: code where "ErrNotWriteable = ''ERR_NOT_WRITEABLE''"
definition ErrRequestFailed :: code where "ErrRequestFailed = ''ERR_REQUEST_FAILED''"
definition ErrTicketDoesNotExist :: code where "ErrTicketDoesNotExist = ''ERR_TICKET_DOES_NOT_EXIST''"
definition ErrTicketExists :: code where "ErrTicketExists = ''ERR_TICKET_EXISTS''"
definition ErrTooManyResults :: code where "ErrTooManyResults = ''ERR_TOO_MANY_RESULTS''"
definition ErrUnavailable :: code where "ErrUnavailable = ''ERR_UNAVAILABLE''"
definition ErrUncheckedException :: code where "ErrUncheckedException = ''ERR_UNCHECKED_EXCEPTION''"
definition ErrBadBasenameLength :: code where "ErrBadBasenameLength = ''ERR_BAD_BASENAME_LENGTH''"
definition ErrBadDirnameLength :: code where "ErrBadDirnameLength = ''ERR_BAD_DIRNAME_LENGTH''"
definition ErrBadPathLength :: code where "ErrBadPathLength = ''ERR_BAD_PATH_LENGTH''"
definition ErrChunkTooSmall :: code where "ErrChunkTooSmall = ''ERR_CHUNK_TOO_SMALL''"
definition ErrInvalidPage :: code where "ErrInvalidPage = ''ERR_INVALID_PAGE''"
definition ErrPageNotPos :: code where "ErrPageNotPos = ''ERR_PAGE_NOT_POS''"
definition ErrTooManyPaths :: code where "ErrTooManyPaths = ''ERR_TOO_MANY_PATHS''"

lemmas code_defs =
  ErrBadOrMissingField_def ErrBadQueryParameter_def ErrBadRequest_def ErrConfigInvalid_def
  ErrConflict_def ErrDoesNotExist_def ErrExists_def ErrForbidden_def ErrIllegalArgument_def
  ErrIncompleteRename_def ErrInvalidJSON_def ErrMissingQueryParam_def ErrNotAFile_def
  ErrNotAFolder_def ErrNotAUser_def ErrNotAuthorized_def ErrNotFound_def ErrNotOwner_def
  ErrNotReadable_def ErrNotWriteable_def ErrRequestFailed_def ErrTicketDoesNotExist_def
  ErrTicketExists_def ErrTooManyResults_def ErrUnavailable_def ErrUncheckedException_def
  ErrBadBasenameLength_def ErrBadDirnameLength_def ErrBadPathLength_def ErrChunkTooSmall_def
  ErrInvalidPage_def ErrPageNotPos_def ErrTooManyPaths_def

definition IsServerFault :: "code \<Rightarrow> bool" where
  "IsServerFault c \<longleftrightarrow>
     c = ErrConfigInvalid \<or> c = ErrRequestFailed \<or> c = ErrUnavailable \<or> c = ErrUncheckedException"

definition EmittedCodes :: "code list" where
  "EmittedCodes =
     [ErrNotAUser, ErrDoesNotExist, ErrNotWriteable, ErrNotReadable, ErrExists,
      ErrNotAFolder, ErrNotAFile, ErrTooManyPaths, ErrNotOwner, ErrNotAuthorized,
      ErrTooManyResults, ErrBadOrMissingField, ErrBadPathLength, ErrPageNotPos,
      ErrNotFound, ErrInvalidPage, ErrIncompleteRename, ErrChunkTooSmall,
      ErrBadDirnameLength, ErrBadBasenameLength, ErrTicketExists, ErrTicketDoesNotExist,
      ErrMissingQueryParam, ErrBadRequest, ErrUnavailable, ErrRequestFailed,
      ErrInvalidJSON, ErrForbidden, ErrConflict, ErrConfigInvalid, ErrBadQueryParameter]"

section \<open>status.go\<close>

datatype style = StyleTrap | StyleOK

definition statusFor :: "code \<Rightarrow> style \<Rightarrow> int" where
  "statusFor c s =
     (if s = StyleOK then 500
      else if c \<in> {ErrBadOrMissingField, ErrIllegalArgument, ErrInvalidJSON, ErrBadRequest,
                   ErrBadQueryParameter, ErrMissingQueryParam} then 400
      else if c = ErrNotAuthorized then 401
      else if c = ErrNotOwner \<or> c = ErrForbidden then 403
      else if c = ErrNotFound then 404
      else if c = ErrConflict then 409
      else 500)"

section \<open>error.go\<close>

text \<open>The struct behind \<open>*apierror.Error\<close>, and its place among the error values.\<close>

record api_error =
  Code :: code
  Style :: style
  Extra :: "(string \<times> json) list"
  Status :: int
  Cause :: "gerror option"
  Schema :: bool

definition to_gerror :: "api_error \<Rightarrow> gerror" where
  "to_gerror e = ApiError (Code e) (Style e = StyleOK) (Extra e) (Status e) (Cause e) (Schema e)"

definition of_gerror :: "gerror \<Rightarrow> api_error" where
  "of_gerror g =
     \<lparr>Code = ecode g, Style = (if estyleok g then StyleOK else StyleTrap), Extra = eextra g,
      Status = estatus g, Cause = ecause g, Schema = eschema g\<rparr>"

lemma of_gerror_to_gerror [simp]: "of_gerror (to_gerror e) = e"
  by (cases "Style e") (simp_all add: of_gerror_def to_gerror_def)

definition New :: "code \<Rightarrow> api_error" where
  "New c = \<lparr>Code = c, Style = StyleTrap, Extra = [], Status = 0, Cause = None, Schema = False\<rparr>"

definition With :: "string \<Rightarrow> json \<Rightarrow> api_error \<Rightarrow> api_error" where
  "With key v e = e\<lparr>Extra := (key, v) # filter (\<lambda>(k, _). k \<noteq> key) (Extra e)\<rparr>"

definition WithStyle :: "style \<Rightarrow> api_error \<Rightarrow> api_error" where
  "WithStyle s e = e\<lparr>Style := s\<rparr>"

definition WithStatus :: "int \<Rightarrow> api_error \<Rightarrow> api_error" where
  "WithStatus n e = e\<lparr>Status := n\<rparr>"

definition AsSchemaFailure :: "api_error \<Rightarrow> api_error" where
  "AsSchemaFailure e = e\<lparr>Schema := True\<rparr>"

definition WithCause :: "gerror \<Rightarrow> api_error \<Rightarrow> api_error" where
  "WithCause c e = e\<lparr>Cause := Some c\<rparr>"

definition HTTPStatus :: "api_error \<Rightarrow> int" where
  "HTTPStatus e = (if Status e \<noteq> 0 then Status e else statusFor (Code e) (Style e))"

definition MarshalJSON :: "api_error \<Rightarrow> (string \<times> json) list" where
  "MarshalJSON e =
     (let keys = sort (filter (\<lambda>k. k \<noteq> ''error_code'') (map fst (Extra e)))
      in (''error_code'', JStr (Code e)) # map (\<lambda>k. (k, the (map_of (Extra e) k))) keys)"

text \<open>\<open>schemaError\<close> of \<open>handlers/deps.go\<close>, used by every parameter check.\<close>

definition schemaError :: "string \<Rightarrow> api_error" where
  "schemaError reason =
     With ''reason'' (JStr reason) (WithStatus 400 (AsSchemaFailure (New ErrIllegalArgument)))"

lemmas api_error_defs =
  New_def With_def WithStyle_def WithStatus_def AsSchemaFailure_def WithCause_def schemaError_def

section \<open>upstream.go\<close>

text \<open>\<open>UpstreamError service status contentType body decoded\<close> carries the \<open>error_code\<close>
  its body unmarshals to, empty when the body is not JSON or has none.\<close>

fun UpstreamError_Code :: "gerror \<Rightarrow> code" where
  "UpstreamError_Code (UpstreamError svc st ct body decoded) =
     (if decoded = [] then ErrRequestFailed else decoded)"
| "UpstreamError_Code _ = ErrRequestFailed"

section \<open>handler.go\<close>

definition unrecognizedPath :: string where
  "unrecognizedPath = ''{\"success\":false,\"reason\":\"unrecognized service path\"}''"

definition JSONContentType :: string where
  "JSONContentType = ''application/json;charset=utf-8''"

definition unrecognizedPathContentType :: string where
  "unrecognizedPathContentType = ''text/html;charset=utf-8''"

text \<open>\<open>err.Error()\<close>, for the errors that reach a response by their text: those with no
  \<open>*Error\<close> in their chain.\<close>

fun error_text :: "gerror \<Rightarrow> string" where
  "error_text (Plain t) = t"
| "error_text (LibError k t) = t"
| "error_text (Wrap t e) = t @ '': '' @ error_text e"
| "error_text (ApiError c s x st cause sch) = c"
| "error_text (UpstreamError svc st ct body d) = svc @ '' answered '' @ itoa (nat st) @ '': '' @ trim_space body"
| "error_text (HTTPError c m i) = (case m of Some t \<Rightarrow> t | None \<Rightarrow> [])"
| "error_text (QueryError t e) = ''icat: '' @ t @ '': '' @ error_text e"
| "error_text (Panicked t) = ''panic: '' @ t @ ''; this is a bug in data-info''"
| "error_text Canceled = ''context canceled''"
| "error_text DeadlineExceeded = ''context deadline exceeded''"
| "error_text NoSuchItem = ''no such catalog item''"
| "error_text ScopeClosed = ''rods: the scope is closed''"

fun is_query_error :: "gerror \<Rightarrow> bool" where
  "is_query_error (QueryError t e) = True"
| "is_query_error _ = False"

fun is_upstream_error :: "gerror \<Rightarrow> bool" where
  "is_upstream_error (UpstreamError svc st ct body d) = True"
| "is_upstream_error _ = False"

fun is_http_error :: "gerror \<Rightarrow> bool" where
  "is_http_error (HTTPError c m i) = True"
| "is_http_error _ = False"

definition errors_is :: "gerror \<Rightarrow> gerror \<Rightarrow> bool" where
  "errors_is target e \<longleftrightarrow> errors_find (\<lambda>x. x = target) e \<noteq> None"

definition publicMessage :: "gerror \<Rightarrow> string" where
  "publicMessage err =
     (if errors_find is_query_error err \<noteq> None
      then ''a query against the iRODS catalog failed'' else error_text err)"

text \<open>\<open>messageOf\<close>; \<open>StatusText\<close> is \<open>http.StatusText\<close>, the standard reason phrases.\<close>

definition messageOf :: "(int \<Rightarrow> string) \<Rightarrow> gerror \<Rightarrow> string" where
  "messageOf StatusText he =
     (case he of
        HTTPError c m i \<Rightarrow>
          (case m of Some t \<Rightarrow> t
           | None \<Rightarrow> (case i of Some e \<Rightarrow> error_text e | None \<Rightarrow> StatusText c))
      | _ \<Rightarrow> [])"

definition toAPIError :: "(int \<Rightarrow> string) \<Rightarrow> gerror \<Rightarrow> style \<Rightarrow> api_error \<times> string" where
  "toAPIError StatusText err style =
     (case errors_find is_api_error err of
        Some g \<Rightarrow>
          (let apiErr = of_gerror g
           in (if Style apiErr = StyleTrap \<and> style \<noteq> StyleTrap
               then WithStyle style apiErr else apiErr, []))
      | None \<Rightarrow>
          if errors_is DeadlineExceeded err then
            (WithCause err (With ''reason'' (JStr (publicMessage err))
               (WithStyle style (New ErrUnavailable))), [])
          else case errors_find is_http_error err of
            Some (HTTPError hc m i) \<Rightarrow>
              let he = HTTPError hc m i in
              if hc = 404 \<or> hc = 405 then
                (WithCause err (WithStatus 404 (New ErrNotFound)), unrecognizedPath)
              else if hc = 413 then
                (WithCause err (With ''reason'' (JStr ''request body too large'')
                   (WithStatus 413 (New ErrBadRequest))), [])
              else if hc = 400 then
                (WithCause err (With ''reason'' (JStr (messageOf StatusText he))
                   (WithStatus 400 (New ErrIllegalArgument))), [])
              else
                (WithCause err (With ''reason'' (JStr (messageOf StatusText he))
                   (WithStatus hc (New ErrRequestFailed))), [])
          | _ \<Rightarrow>
              (WithCause err (With (if style = StyleOK then ''reason'' else ''message'')
                 (JStr (publicMessage err)) (WithStatus 500 (New ErrUncheckedException))), []))"

definition contentTypeFor :: "api_error \<Rightarrow> string \<Rightarrow> string" where
  "contentTypeFor apiErr raw =
     (if raw = unrecognizedPath then unrecognizedPathContentType
      else if Style apiErr = StyleOK \<and> \<not> Schema apiErr then []
      else JSONContentType)"

text \<open>\<open>Envelope\<close> drops nothing: an extra key named \<open>error_code\<close> overwrites the code there.\<close>

definition Envelope :: "(int \<Rightarrow> string) \<Rightarrow> gerror \<Rightarrow> string \<rightharpoonup> json" where
  "Envelope StatusText err =
     (let apiErr = fst (toAPIError StatusText err StyleTrap)
      in [''error_code'' \<mapsto> JStr (Code apiErr)] ++ map_of (Extra apiErr))"

datatype body = NoBody | RawBody string | EnvelopeBody "(string \<times> json) list"

record response =
  resp_status :: int
  resp_content_type :: string   \<comment> \<open>empty: the header is suppressed\<close>
  resp_body :: body

fun relay :: "gerror \<Rightarrow> response" where
  "relay (UpstreamError svc st ct body d) =
     \<lparr>resp_status = st, resp_content_type = ct, resp_body = RawBody body\<rparr>"
| "relay _ = \<lparr>resp_status = 500, resp_content_type = [], resp_body = NoBody\<rparr>"

text \<open>The response \<open>HTTPErrorHandler\<close> writes, if it writes one: \<open>committed\<close> says a response
  has begun, \<open>isHead\<close> that the request's method is HEAD, \<open>style\<close> the route's.  Logging is
  left out.\<close>

definition HTTPErrorHandler ::
    "(int \<Rightarrow> string) \<Rightarrow> bool \<Rightarrow> bool \<Rightarrow> style \<Rightarrow> gerror \<Rightarrow> response option" where
  "HTTPErrorHandler StatusText committed isHead style err =
     (if committed then None
      else if errors_is Canceled err then None
      else case errors_find is_upstream_error err of
        Some upstream \<Rightarrow> Some (relay upstream)
      | None \<Rightarrow>
          let (apiErr, raw) = toAPIError StatusText err style;
              status = HTTPStatus apiErr
          in if isHead then
               Some \<lparr>resp_status = status,
                     resp_content_type = (if Schema apiErr then JSONContentType else []),
                     resp_body = NoBody\<rparr>
             else
               Some \<lparr>resp_status = status, resp_content_type = contentTypeFor apiErr raw,
                     resp_body = (if raw = [] then EnvelopeBody (MarshalJSON apiErr)
                                  else RawBody raw)\<rparr>)"

section \<open>Properties\<close>

lemma errors_find_hit [simp]: "P e \<Longrightarrow> errors_find P e = Some e"
  by (simp add: errors_find.simps)

lemma errors_find_miss:
  "\<not> P e \<Longrightarrow> errors_find P e = Option.bind (unwrap_error e) (errors_find P)"
  by (subst errors_find.simps) (simp split: option.splits)

lemma errors_find_api_cause_free:
  "ecause e = None \<Longrightarrow> is_api_error e \<Longrightarrow> errors_find P e = (if P e then Some e else None)"
  by (cases e) (simp_all add: errors_find_miss)

lemma With_keys_distinct [intro]:
  assumes "distinct (map fst (Extra e))"
  shows "distinct (map fst (Extra (With k v e)))"
proof -
  have "distinct (map fst xs) \<Longrightarrow> distinct (map fst (filter P xs))" for P and xs :: "(string \<times> json) list"
    by (induction xs) auto
  with assms show ?thesis
    by (auto simp: With_def)
qed

lemma map_of_filter_keys: "map_of (map (\<lambda>k. (k, the (m k))) ks) k = (if k \<in> set ks then Some (the (m k)) else None)"
  by (induction ks) auto

text \<open>The serialised envelope: \<open>error_code\<close> first with the error's code, then every other
  extra key exactly once in ascending order with its own value, so that the body is a
  function of the error alone; an extra key named \<open>error_code\<close> cannot displace the code.\<close>

theorem MarshalJSON_envelope:
  assumes "distinct (map fst (Extra e))"
  shows "hd (MarshalJSON e) = (''error_code'', JStr (Code e))
    \<and> sorted_wrt (<) (map fst (tl (MarshalJSON e)))
    \<and> map_of (MarshalJSON e) = (map_of (Extra e))(''error_code'' \<mapsto> JStr (Code e))"
proof -
  let ?ks = "sort (filter (\<lambda>k. k \<noteq> ''error_code'') (map fst (Extra e)))"
  have tl: "map fst (tl (MarshalJSON e)) = ?ks"
    by (simp add: MarshalJSON_def Let_def comp_def)
  have "sorted_wrt (<) ?ks"
    using assms by (simp add: strict_sorted_iff)
  moreover have "map_of (MarshalJSON e) k = ((map_of (Extra e))(''error_code'' \<mapsto> JStr (Code e))) k" for k
    by (auto simp: MarshalJSON_def Let_def map_of_filter_keys map_of_eq_None_iff dest: weak_map_of_SomeI)
      (metis domI dom_map_of_conv_image_fst option.collapse map_of_eq_None_iff not_None_eq)
  ultimately show ?thesis
    unfolding tl by (auto simp: MarshalJSON_def Let_def)
qed

theorem MarshalJSON_envelope_witness:
  "hd (MarshalJSON (With ''user'' (JStr ''ann'') (With ''paths'' (JArr []) (New ErrNotOwner))))
     = (''error_code'', JStr ErrNotOwner)"
proof -
  have "distinct (map fst (Extra (With ''user'' (JStr ''ann'') (With ''paths'' (JArr []) (New ErrNotOwner)))))"
    by (intro With_keys_distinct) (simp add: New_def)
  from MarshalJSON_envelope [OF this] show ?thesis
    by (simp add: With_def New_def)
qed

text \<open>Whatever the route's style and method, a request that fails validation is answered
  with a 400 labelled as JSON, and a non-HEAD one carries the reason in the envelope.\<close>

theorem schema_failure_response:
  "HTTPErrorHandler st False isHead style (to_gerror (schemaError reason)) =
     Some \<lparr>resp_status = 400, resp_content_type = JSONContentType,
           resp_body = (if isHead then NoBody
             else EnvelopeBody [(''error_code'', JStr ErrIllegalArgument), (''reason'', JStr reason)])\<rparr>"
proof -
  let ?e = "to_gerror (schemaError reason)"
  have api: "is_api_error ?e" "ecause ?e = None"
    by (simp_all add: to_gerror_def api_error_defs)
  have none: "\<not> errors_is Canceled ?e" "errors_find is_upstream_error ?e = None"
    by (simp_all add: errors_is_def errors_find_api_cause_free [OF api(2,1)])
      (simp_all add: to_gerror_def)
  have "unrecognizedPath \<noteq> []"
    by (simp add: unrecognizedPath_def)
  moreover have "toAPIError st ?e style = (WithStyle style (schemaError reason), [])"
    using api by (cases style) (auto simp: toAPIError_def Let_def WithStyle_def schemaError_def
        api_error_defs)
  ultimately show ?thesis
    using none
    by (simp add: HTTPErrorHandler_def HTTPStatus_def contentTypeFor_def MarshalJSON_def api_error_defs)
qed

text \<open>A code meaning that this service or a backend failed always answers 500, in both
  styles, and the only statuses the table gives are 400, 401, 403, 404, 409 and 500.\<close>

theorem statusFor_range:
  "statusFor c s \<in> {400, 401, 403, 404, 409, 500} \<and> (IsServerFault c \<longrightarrow> statusFor c s = 500)
    \<and> statusFor c StyleOK = 500"
  by (auto simp: statusFor_def IsServerFault_def code_defs)

theorem statusFor_range_witness:
  "IsServerFault ErrUnavailable \<and> statusFor ErrUnavailable StyleTrap = 500"
  using statusFor_range [of ErrUnavailable StyleTrap] by (simp add: IsServerFault_def)



end
