(* ===== verification/Catalog.thy ===== *)
theory Catalog
  imports ApiErrors
begin

text \<open>
  Package \<open>internal/icat\<close>: catalog rows and access levels (\<open>row.go\<close>), the guards and
  arguments of each query (\<open>queries.go\<close>, \<open>listing.go\<close>, \<open>uuidlisting.go\<close>) and the parameters
  that select a listing.  PostgreSQL is not part of the repository: the record \<open>database\<close>
  holds one operation per SQL statement, taking the arguments the code binds.
\<close>

section \<open>row.go\<close>

datatype row_type = RowCollection | RowDataObject

datatype permission = PermissionNone | PermissionRead | PermissionWrite | PermissionOwn

text \<open>The levels are ordered: own implies write implies read.\<close>

fun permission_rank :: "permission \<Rightarrow> nat" where
  "permission_rank PermissionNone = 0"
| "permission_rank PermissionRead = 1"
| "permission_rank PermissionWrite = 2"
| "permission_rank PermissionOwn = 3"

lemma permission_rank_inject: "permission_rank p = permission_rank q \<longleftrightarrow> p = q"
  by (cases p; cases q) simp_all

instantiation permission :: linorder
begin

definition less_eq_permission :: "permission \<Rightarrow> permission \<Rightarrow> bool" where
  "less_eq_permission p q \<longleftrightarrow> permission_rank p \<le> permission_rank q"

definition less_permission :: "permission \<Rightarrow> permission \<Rightarrow> bool" where
  "less_permission p q \<longleftrightarrow> permission_rank p < permission_rank q"

instance
  by standard
    (auto simp: less_eq_permission_def less_permission_def permission_rank_inject)

end

fun permission_string :: "permission \<Rightarrow> string" where
  "permission_string PermissionNone = []"
| "permission_string PermissionRead = ''read''"
| "permission_string PermissionWrite = ''write''"
| "permission_string PermissionOwn = ''own''"

record row =
  row_object_id :: int
  row_kind :: row_type
  row_uuid :: "string option"
  row_full_path :: string
  row_base_name :: string
  row_info_type :: "string option"
  row_data_size :: int
  row_create_ts :: string
  row_modify_ts :: string
  row_access_type_id :: int
  row_data_checksum :: "string option"
  row_total_count :: "int option"

definition IsCollection :: "row \<Rightarrow> bool" where
  "IsCollection r \<longleftrightarrow> row_kind r = RowCollection"

text \<open>A NULL text column reads as the empty string.\<close>

definition null_string :: "string option \<Rightarrow> string" where
  "null_string v = (case v of None \<Rightarrow> [] | Some s \<Rightarrow> s)"

definition ParseTimestamp :: "string \<Rightarrow> int \<times> bool" where
  "ParseTimestamp s =
     (case parse_int64 s of None \<Rightarrow> (0, False) | Some seconds \<Rightarrow> (wrap64 (seconds * 1000), True))"

definition epochMillis :: "string \<Rightarrow> int" where
  "epochMillis s = fst (ParseTimestamp s)"

definition CreatedMillis :: "row \<Rightarrow> int" where
  "CreatedMillis r = epochMillis (row_create_ts r)"

definition ModifiedMillis :: "row \<Rightarrow> int" where
  "ModifiedMillis r = epochMillis (row_modify_ts r)"

record perm =
  perm_object_id :: int
  perm_full_path :: string
  perm_user_name :: string
  perm_zone :: string
  perm_access_type_id :: int

definition AccessRead :: int where "AccessRead = 1050"
definition AccessWrite :: int where "AccessWrite = 1120"
definition AccessOwn :: int where "AccessOwn = 1200"

definition PermissionOf :: "int \<Rightarrow> permission" where
  "PermissionOf accessTypeID =
     (if accessTypeID = AccessOwn then PermissionOwn
      else if accessTypeID = AccessWrite then PermissionWrite
      else if accessTypeID = AccessRead then PermissionRead
      else PermissionNone)"

definition row_permission :: "row \<Rightarrow> permission" where
  "row_permission r = PermissionOf (row_access_type_id r)"

definition perm_permission :: "perm \<Rightarrow> permission" where
  "perm_permission p = PermissionOf (perm_access_type_id p)"

section \<open>queries.go\<close>

datatype user_kind = UserKindNone | UserKindUser | UserKindAdmin | UserKindGroup | UserKindGroupAdmin

type_synonym child_counts = "int \<times> int"  \<comment> \<open>files, subfolders\<close>

record listing_args =
  la_column :: string
  la_direction :: string
  la_path :: string
  la_user :: string
  la_zone :: string
  la_groups :: "int list option"
  la_info_types :: "string list option"
  la_include_unknown :: bool
  la_limit :: "int option"
  la_offset :: int
  la_attribute :: string
  la_entity :: string

record uuid_args =
  ua_column :: string
  ua_direction :: string
  ua_user :: string
  ua_zone :: string
  ua_groups :: "int list option"
  ua_info_types :: "string list option"
  ua_include_unknown :: bool
  ua_limit :: int
  ua_offset :: int
  ua_attribute :: string

text \<open>One field per SQL statement; the group ids are NULL when the query is to derive them.\<close>

record 'w database =
  db_user_group_ids :: "string \<Rightarrow> string \<Rightarrow> ('w, int list) op"
  db_get_items :: "string list \<Rightarrow> string list \<Rightarrow> string \<Rightarrow> string \<Rightarrow> int list option \<Rightarrow> string \<Rightarrow> ('w, row list) op"
  db_user_exists :: "string \<Rightarrow> string \<Rightarrow> ('w, user_kind list) op"
  db_user_groups :: "string \<Rightarrow> string \<Rightarrow> ('w, string list) op"
  db_paths_for_uuids :: "string list \<Rightarrow> ('w, (string \<times> string) list) op"
  db_count_children :: "string \<Rightarrow> string \<Rightarrow> string \<Rightarrow> int list option \<Rightarrow> ('w, child_counts) op"
  db_count_children_batch ::
    "string list \<Rightarrow> string \<Rightarrow> string \<Rightarrow> int list option \<Rightarrow> ('w, (string \<times> child_counts) list) op"
  db_perms_for_items :: "string list \<Rightarrow> string list \<Rightarrow> ('w, perm list) op"
  db_paged_folder :: "listing_args \<Rightarrow> ('w, row list) op"
  db_folders_in_folder :: "string \<Rightarrow> string \<Rightarrow> string \<Rightarrow> int list option \<Rightarrow> ('w, row list) op"
  db_paged_uuids :: "string list \<Rightarrow> uuid_args \<Rightarrow> ('w, row list) op"
  db_count_uuids ::
    "string list \<Rightarrow> string \<Rightarrow> string \<Rightarrow> int list option \<Rightarrow> string list option \<Rightarrow> bool \<Rightarrow> string \<Rightarrow> ('w, int) op"

text \<open>\<open>queryError\<close>: a failed statement's error is wrapped so that it can be recognised.\<close>

definition queryM :: "string \<Rightarrow> ('w, 'a) op \<Rightarrow> ('w, 'a) op" where
  "queryM what m =
     (\<lambda>s. case m s of (Inl e, s') \<Rightarrow> (Inl (QueryError what e), s') | (Inr a, s') \<Rightarrow> (Inr a, s'))"

record item_query =
  iq_paths :: "string list"
  iq_user :: string
  iq_zone :: string
  iq_groups :: "int list"
  iq_attribute :: string

definition infoTypeAttributeOr :: "string \<Rightarrow> string" where
  "infoTypeAttributeOr attribute = (if attribute = [] then ''ipc-filetype'' else attribute)"

definition groupIDArray :: "int list \<Rightarrow> int list option" where
  "groupIDArray ids = (if ids = [] then None else Some ids)"

definition CheckPath :: "string \<Rightarrow> gerror option" where
  "CheckPath p =
     (if \<not> has_prefix p ''/'' \<or> trim_right p = []
      then Some (Plain (p @ '' is not an absolute iRODS path'')) else None)"

fun splitPaths :: "string list \<Rightarrow> gerror + (string list \<times> string list)" where
  "splitPaths [] = Inr ([], [])"
| "splitPaths (p # ps) =
     (case CheckPath p of
        Some err \<Rightarrow> Inl (Wrap ''icat: path'' err)
      | None \<Rightarrow>
          (case splitPaths ps of
             Inl err \<Rightarrow> Inl err
           | Inr (dirnames, basenames) \<Rightarrow>
               Inr (trim_right (upto_last_slash (trim_right p)) # dirnames,
                    after_last_slash (trim_right p) # basenames)))"

definition userGroupIDs :: "'w database \<Rightarrow> string \<Rightarrow> string \<Rightarrow> ('w, int list) op" where
  "userGroupIDs db user zone =
     (if user = [] then failM (Plain ''icat: a username is required'')
      else if zone = [] then failM (Plain ''icat: a zone is required to look up groups'')
      else queryM ''looking up group ids'' (db_user_group_ids db user zone))"

definition getItems :: "'w database \<Rightarrow> item_query \<Rightarrow> ('w, row list) op" where
  "getItems db q =
     (if iq_paths q = [] then returnM []
      else if iq_groups q = [] \<and> iq_user q = [] then
        failM (Plain ''icat: a user or a set of group ids is required'')
      else if iq_groups q = [] \<and> iq_zone q = [] then
        failM (Plain ''icat: a zone is required when resolving groups'')
      else case splitPaths (iq_paths q) of
        Inl err \<Rightarrow> failM err
      | Inr (dirnames, basenames) \<Rightarrow>
          queryM ''getting items'' (db_get_items db dirnames basenames (iq_user q) (iq_zone q)
            (groupIDArray (iq_groups q)) (infoTypeAttributeOr (iq_attribute q))))"

definition GetItem :: "'w database \<Rightarrow> item_query \<Rightarrow> ('w, row) op" where
  "GetItem db q =
     (if length (iq_paths q) \<noteq> 1 then failM (Plain ''icat: GetItem takes exactly one path'')
      else bindM (getItems db q)
        (\<lambda>rows. case rows of [] \<Rightarrow> failM NoSuchItem | r # _ \<Rightarrow> returnM r))"

definition lookupUser :: "'w database \<Rightarrow> string \<Rightarrow> string \<Rightarrow> ('w, user_kind) op" where
  "lookupUser db user zone =
     (if user = [] \<or> zone = [] then failM (Plain ''icat: a username and zone are required'')
      else bindM (queryM ''looking up a user'' (db_user_exists db user zone))
        (\<lambda>kinds. case kinds of [] \<Rightarrow> returnM UserKindNone | k # _ \<Rightarrow> returnM k))"

definition userGroupNames :: "'w database \<Rightarrow> string \<Rightarrow> string \<Rightarrow> ('w, string list) op" where
  "userGroupNames db user zone =
     (if user = [] \<or> zone = [] then failM (Plain ''icat: a username and zone are required'')
      else queryM ''listing groups'' (db_user_groups db user zone))"

definition pathsForUUIDs :: "'w database \<Rightarrow> string list \<Rightarrow> ('w, (string \<times> string) list) op" where
  "pathsForUUIDs db uuids =
     (if uuids = [] then returnM [] else queryM ''resolving uuids'' (db_paths_for_uuids db uuids))"

definition countChildren ::
    "'w database \<Rightarrow> string \<Rightarrow> string \<Rightarrow> string \<Rightarrow> int list \<Rightarrow> ('w, child_counts) op" where
  "countChildren db path user zone groups =
     (if path = [] then failM (Plain ''icat: a path is required'')
      else if groups = [] \<and> (user = [] \<or> zone = []) then
        failM (Plain ''icat: a user and zone are required when resolving groups'')
      else queryM ''counting children''
        (db_count_children db (trim_right path) user zone (groupIDArray groups)))"

definition countChildrenBatch ::
    "'w database \<Rightarrow> string list \<Rightarrow> string \<Rightarrow> string \<Rightarrow> int list \<Rightarrow> ('w, (string \<times> child_counts) list) op" where
  "countChildrenBatch db paths user zone groups =
     (if paths = [] then returnM []
      else if groups = [] \<and> (user = [] \<or> zone = []) then
        failM (Plain ''icat: a user and zone are required when resolving groups'')
      else queryM ''counting children''
        (db_count_children_batch db (map trim_right paths) user zone (groupIDArray groups)))"

definition permsForItems :: "'w database \<Rightarrow> string list \<Rightarrow> ('w, perm list) op" where
  "permsForItems db paths =
     (if paths = [] then returnM []
      else case splitPaths paths of
        Inl err \<Rightarrow> failM err
      | Inr (dirnames, basenames) \<Rightarrow>
          queryM ''getting permissions'' (db_perms_for_items db dirnames basenames))"

section \<open>listing.go and uuidlisting.go\<close>

definition sortColumns :: "(string \<times> string) list" where
  "sortColumns =
     [(''datecreated'', ''create_ts''), (''datemodified'', ''modify_ts''), (''name'', ''base_name''),
      (''path'', ''full_path''), (''size'', ''data_size'')]"

datatype entity_type = EntityAny | EntityFile | EntityFolder

fun entity_string :: "entity_type \<Rightarrow> string" where
  "entity_string EntityAny = ''any''"
| "entity_string EntityFile = ''file''"
| "entity_string EntityFolder = ''folder''"

definition ResolveEntityType :: "string \<Rightarrow> gerror + entity_type" where
  "ResolveEntityType v =
     (let w = to_lower (trim_space v)
      in if w = [] \<or> w = ''any'' then Inr EntityAny
         else if w = ''file'' then Inr EntityFile
         else if w = ''folder'' then Inr EntityFolder
         else Inl (Plain (''icat: '' @ v @ '' is not an entity type'')))"

definition DefaultSortColumn :: string where "DefaultSortColumn = ''base_name''"

definition ResolveSortColumn :: "string \<Rightarrow> gerror + string" where
  "ResolveSortColumn field =
     (if trim_space field = [] then Inr DefaultSortColumn
      else case map_of sortColumns (to_lower (trim_space field)) of
        Some column \<Rightarrow> Inr column
      | None \<Rightarrow> Inl (Plain (''icat: '' @ field @ '' is not a sortable field'')))"

datatype sort_direction = SortUnset | SortAscending | SortDescending

definition ResolveSortDirection :: "string \<Rightarrow> gerror + sort_direction" where
  "ResolveSortDirection dir =
     (if dir = [] \<or> dir = ''ASC'' then Inr SortAscending
      else if dir = ''DESC'' then Inr SortDescending
      else Inl (Plain (''icat: '' @ dir @ '' is not a sort direction'')))"

record listing_query =
  lq_path :: string
  lq_user :: string
  lq_zone :: string
  lq_groups :: "int list"
  lq_info_types :: "string list"
  lq_include_unknown :: bool
  lq_entity :: "entity_type option"   \<comment> \<open>None is the zero value\<close>
  lq_attribute :: string
  lq_column :: string                  \<comment> \<open>empty is the zero value\<close>
  lq_direction :: sort_direction
  lq_limit :: int
  lq_offset :: int

definition isKnownSortColumn :: "string \<Rightarrow> bool" where
  "isKnownSortColumn column \<longleftrightarrow> list_ex (\<lambda>(_, known). known = column) sortColumns"

definition infoTypeArray :: "string list \<Rightarrow> string list option" where
  "infoTypeArray types = (if types = [] then None else Some (map to_lower types))"

definition pagedFolder :: "'w database \<Rightarrow> listing_query \<Rightarrow> ('w, row list) op" where
  "pagedFolder db q =
     (if lq_path q = [] then failM (Plain ''icat: a path is required'')
      else if lq_groups q = [] \<and> (lq_user q = [] \<or> lq_zone q = []) then
        failM (Plain ''icat: a user and zone are required when resolving groups'')
      else if lq_limit q = 0 then
        failM (Plain ''icat: a positive limit is required, or a negative one for no limit'')
      else if lq_offset q < 0 then failM (Plain ''icat: a non-negative offset is required'')
      else
        (let column = (if lq_column q = [] then DefaultSortColumn else lq_column q)
         in if \<not> isKnownSortColumn column then
              failM (Plain (''icat: '' @ column @ '' is not a sortable column''))
            else queryM ''listing'' (db_paged_folder db
              \<lparr>la_column = column,
               la_direction = (if lq_direction q = SortDescending then ''DESC'' else ''ASC''),
               la_path = trim_right (lq_path q), la_user = lq_user q, la_zone = lq_zone q,
               la_groups = groupIDArray (lq_groups q), la_info_types = infoTypeArray (lq_info_types q),
               la_include_unknown = lq_include_unknown q,
               la_limit = (if lq_limit q < 0 then None else Some (lq_limit q)),
               la_offset = lq_offset q, la_attribute = infoTypeAttributeOr (lq_attribute q),
               la_entity = entity_string (case lq_entity q of None \<Rightarrow> EntityAny | Some e \<Rightarrow> e)\<rparr>)))"

definition foldersInFolder :: "'w database \<Rightarrow> listing_query \<Rightarrow> ('w, row list) op" where
  "foldersInFolder db q =
     (if lq_path q = [] then failM (Plain ''icat: a path is required'')
      else if lq_groups q = [] \<and> (lq_user q = [] \<or> lq_zone q = []) then
        failM (Plain ''icat: a user and zone are required when resolving groups'')
      else queryM ''listing subfolders'' (db_folders_in_folder db (trim_right (lq_path q))
        (lq_user q) (lq_zone q) (groupIDArray (lq_groups q))))"

record uuid_listing_query =
  uq_uuids :: "string list"
  uq_user :: string
  uq_zone :: string
  uq_groups :: "int list"
  uq_info_types :: "string list"
  uq_include_unknown :: bool
  uq_attribute :: string
  uq_column :: string
  uq_direction :: sort_direction
  uq_limit :: int
  uq_offset :: int

definition pagedUUIDs :: "'w database \<Rightarrow> uuid_listing_query \<Rightarrow> ('w, row list) op" where
  "pagedUUIDs db q =
     (if uq_uuids q = [] then returnM []
      else if uq_groups q = [] \<and> (uq_user q = [] \<or> uq_zone q = []) then
        failM (Plain ''icat: a user and zone are required when resolving groups'')
      else if uq_limit q \<le> 0 then failM (Plain ''icat: a positive limit is required'')
      else if uq_offset q < 0 then failM (Plain ''icat: a non-negative offset is required'')
      else
        (let column = (if uq_column q = [] then DefaultSortColumn else uq_column q)
         in if \<not> isKnownSortColumn column then
              failM (Plain (''icat: '' @ column @ '' is not a sortable column''))
            else queryM ''listing data ids'' (db_paged_uuids db (uq_uuids q)
              \<lparr>ua_column = column,
               ua_direction = (if uq_direction q = SortDescending then ''DESC'' else ''ASC''),
               ua_user = uq_user q, ua_zone = uq_zone q, ua_groups = groupIDArray (uq_groups q),
               ua_info_types = infoTypeArray (uq_info_types q),
               ua_include_unknown = uq_include_unknown q, ua_limit = uq_limit q,
               ua_offset = uq_offset q, ua_attribute = infoTypeAttributeOr (uq_attribute q)\<rparr>)))"

definition countUUIDs :: "'w database \<Rightarrow> uuid_listing_query \<Rightarrow> ('w, int) op" where
  "countUUIDs db q =
     (if uq_uuids q = [] then returnM 0
      else if uq_groups q = [] \<and> (uq_user q = [] \<or> uq_zone q = []) then
        failM (Plain ''icat: a user and zone are required when resolving groups'')
      else queryM ''counting data ids'' (db_count_uuids db (uq_uuids q) (uq_user q) (uq_zone q)
        (groupIDArray (uq_groups q)) (infoTypeArray (uq_info_types q)) (uq_include_unknown q)
        (infoTypeAttributeOr (uq_attribute q))))"

section \<open>Properties\<close>

text \<open>Arguments that are safe to build a statement from: the two interpolated identifiers come
  from fixed lists, the page is bounded by a positive limit or deliberately unbounded, and
  starts at a non-negative offset.\<close>

definition safe_identifiers :: "string \<Rightarrow> string \<Rightarrow> bool" where
  "safe_identifiers column direction \<longleftrightarrow>
     column \<in> {''create_ts'', ''modify_ts'', ''base_name'', ''full_path'', ''data_size''}
     \<and> direction \<in> {''ASC'', ''DESC''}"

definition safe_listing_args :: "listing_args \<Rightarrow> bool" where
  "safe_listing_args args \<longleftrightarrow>
     safe_identifiers (la_column args) (la_direction args)
     \<and> (\<forall>n. la_limit args = Some n \<longrightarrow> 0 < n) \<and> 0 \<le> la_offset args"

definition safe_uuid_args :: "uuid_args \<Rightarrow> bool" where
  "safe_uuid_args args \<longleftrightarrow>
     safe_identifiers (ua_column args) (ua_direction args) \<and> 0 < ua_limit args \<and> 0 \<le> ua_offset args"


definition sample_db :: "(listing_args \<Rightarrow> row list) \<Rightarrow> (uuid_args \<Rightarrow> row list) \<Rightarrow> unit database" where
  "sample_db f g =
     \<lparr>db_user_group_ids = (\<lambda>_ _. returnM []), db_get_items = (\<lambda>_ _ _ _ _ _. returnM []),
      db_user_exists = (\<lambda>_ _. returnM []), db_user_groups = (\<lambda>_ _. returnM []),
      db_paths_for_uuids = (\<lambda>_. returnM []), db_count_children = (\<lambda>_ _ _ _. returnM (0, 0)),
      db_count_children_batch = (\<lambda>_ _ _ _. returnM []), db_perms_for_items = (\<lambda>_ _. returnM []),
      db_paged_folder = (\<lambda>args. returnM (f args)), db_folders_in_folder = (\<lambda>_ _ _ _. returnM []),
      db_paged_uuids = (\<lambda>_ args. returnM (g args)), db_count_uuids = (\<lambda>_ _ _ _ _ _ _. returnM 0)\<rparr>"

definition sample_row :: row where
  "sample_row =
     \<lparr>row_object_id = 1, row_kind = RowDataObject, row_uuid = None, row_full_path = ''/z/home/ann/f'',
      row_base_name = ''f'', row_info_type = None, row_data_size = 10, row_create_ts = ''1'',
      row_modify_ts = ''2'', row_access_type_id = 1200, row_data_checksum = None, row_total_count = None\<rparr>"


end
