(* ===== verification/Stores.thy ===== *)
theory Stores
  imports Paths Catalog
begin

text \<open>
  What the packages above the data store program against: the values of \<open>internal/rods\<close>
  (\<open>Stat\<close>, \<open>ACLEntry\<close>, \<open>AVU\<close>, \<open>Permits\<close>, \<open>normalizePath\<close>), the interfaces
  \<open>PermissionStore\<close> and \<open>ShareStore\<close> of \<open>internal/service\<close> and the operations the jobs
  call, as records of operations on a state.  The locales \<open>acl_frame\<close> and \<open>acl_store\<close> are
  the contracts of the access-control part; they are interpreted on the request scope in
  theory \<open>RodsScope\<close>.
\<close>

section \<open>Values\<close>

datatype object_type = ObjectTypeFile | ObjectTypeDir | ObjectTypeNone

record acl_entry =
  acl_user :: string
  acl_zone :: string
  acl_permission :: permission

record avu =
  avu_attribute :: string
  avu_value :: string
  avu_unit :: string

record stat =
  st_path :: string
  st_type :: object_type
  st_uuid :: string
  st_info_type :: string
  st_size :: int
  st_created :: int
  st_modified :: int
  st_permission :: permission
  st_checksum :: "string option"
  st_exists :: bool

record ticket =
  ticket_id :: int
  ticket_name :: string
  ticket_type :: string
  ticket_owner :: string
  ticket_path :: string
  ticket_expires :: int
  ticket_uses_limit :: int
  ticket_uses_count :: int
  ticket_write_file_limit :: int
  ticket_write_file_count :: int
  ticket_write_byte_limit :: int
  ticket_write_byte_count :: int

definition Permits :: "permission \<Rightarrow> permission \<Rightarrow> bool" where
  "Permits held required \<longleftrightarrow> required \<le> held \<and> held \<noteq> PermissionNone"

definition normalizePath :: "string \<Rightarrow> string" where
  "normalizePath p = (if p = ''/'' then p else trim_right p)"

text \<open>The tickets on a path, or also on what lies under it (\<open>rods/tickets.go\<close>).\<close>

definition matchTickets :: "ticket list \<Rightarrow> string \<Rightarrow> bool \<Rightarrow> ticket list" where
  "matchTickets all path includeDescendants =
     filter (\<lambda>t. let on = trim_right (ticket_path t); p = normalizePath path
       in on = p \<or> includeDescendants \<and> has_prefix on (p @ ''/'')) all"

definition TicketsUnder :: "ticket list \<Rightarrow> string \<Rightarrow> ticket list" where
  "TicketsUnder all path = matchTickets all path True"

section \<open>Interfaces\<close>

text \<open>\<open>service.PermissionStore\<close>; a Go map result is an association list.\<close>

record 's permission_store =
  ps_ACL :: "string \<Rightarrow> ('s, acl_entry list) op"
  ps_ACLs :: "string list \<Rightarrow> ('s, (string \<times> acl_entry list) list) op"
  ps_Inherits :: "string \<Rightarrow> ('s, bool) op"
  ps_Children :: "string \<Rightarrow> ('s, string list) op"
  ps_SetPermission :: "string \<Rightarrow> string \<Rightarrow> permission \<Rightarrow> bool \<Rightarrow> ('s, unit) op"

text \<open>\<open>service.ShareStore\<close>.\<close>

record 's share_store = "'s permission_store" +
  ss_Stat :: "string \<Rightarrow> ('s, stat) op"
  ss_SetInherit :: "string \<Rightarrow> bool \<Rightarrow> bool \<Rightarrow> ('s, unit) op"

text \<open>What the jobs call on a \<open>*rods.Scope\<close> besides.\<close>

record 's job_store = "'s share_store" +
  js_AVUs :: "string \<Rightarrow> ('s, avu list) op"
  js_SetAVU :: "string \<Rightarrow> avu \<Rightarrow> ('s, unit) op"
  js_Move :: "string \<Rightarrow> string \<Rightarrow> ('s, unit) op"
  js_Delete :: "string \<Rightarrow> bool \<Rightarrow> ('s, unit) op"
  js_MakeDir :: "string \<Rightarrow> bool \<Rightarrow> ('s, unit) op"
  js_SetOwner :: "string \<Rightarrow> string \<Rightarrow> bool \<Rightarrow> ('s, unit) op"
  js_Tickets :: "('s, ticket list) op"
  js_DeleteTicket :: "string \<Rightarrow> ('s, unit) op"

text \<open>The level a user holds in an access list: that of the first entry naming them.\<close>

definition level_of :: "acl_entry list \<Rightarrow> string \<Rightarrow> permission" where
  "level_of es u =
     (case find (\<lambda>e. acl_user e = u) es of None \<Rightarrow> PermissionNone | Some e \<Rightarrow> acl_permission e)"

lemma level_of_absent: "u \<notin> acl_user ` set es \<Longrightarrow> level_of es u = PermissionNone"
proof -
  assume "u \<notin> acl_user ` set es"
  then have "find (\<lambda>e. acl_user e = u) es = None"
    unfolding find_None_iff by auto
  then show ?thesis by (simp add: level_of_def)
qed

lemma level_of_entry:
  "distinct (map acl_user es) \<Longrightarrow> e \<in> set es \<Longrightarrow> level_of es (acl_user e) = acl_permission e"
proof (induction es)
  case Nil
  then show ?case by simp
next
  case (Cons x es)
  then show ?case
    by (auto simp: level_of_def rev_image_eqI)
qed

section \<open>Contracts\<close>

text \<open>The levels of a set of users, everywhere, and what users may hold before and after, as
  relations that operations keep.\<close>

definition same_levels ::
    "('s \<Rightarrow> string \<Rightarrow> string \<Rightarrow> permission) \<Rightarrow> (string \<Rightarrow> bool) \<Rightarrow> 's \<Rightarrow> 's \<Rightarrow> bool" where
  "same_levels level U s s' \<longleftrightarrow> (\<forall>q u. U u \<longrightarrow> level s' q u = level s q u)"

definition levels_rel ::
    "('s \<Rightarrow> string \<Rightarrow> string \<Rightarrow> permission) \<Rightarrow> (permission \<Rightarrow> permission \<Rightarrow> bool) \<Rightarrow> 's \<Rightarrow> 's \<Rightarrow> bool" where
  "levels_rel level R s s' \<longleftrightarrow> (\<forall>q u. R (level s q u) (level s' q u))"

lemma preorder_same_levels: "preorder_rel (same_levels level U)"
  by (rule preorder_relI) (auto simp: same_levels_def)

lemma preorder_levels_rel:
  "(\<And>l. R l l) \<Longrightarrow> (\<And>k l m. R k l \<Longrightarrow> R l m \<Longrightarrow> R k m) \<Longrightarrow> preorder_rel (levels_rel level R)"
  unfolding levels_rel_def by (rule preorder_relI) blast+

text \<open>The frame: \<open>level s p u\<close> is what user \<open>u\<close> holds on path \<open>p\<close> in state \<open>s\<close>; reading
  changes nobody's level, and setting a user's permission changes nobody else's.  Both hold
  whether or not the operation succeeds.\<close>

locale acl_frame =
  fixes st :: "('s, 'm) permission_store_scheme"
    and level :: "'s \<Rightarrow> string \<Rightarrow> string \<Rightarrow> permission"
  assumes ACL_frame: "ps_ACL st p s = (r, s') \<Longrightarrow> level s' = level s"
    and ACLs_frame: "ps_ACLs st ps s = (r', s') \<Longrightarrow> level s' = level s"
    and Inherits_frame: "ps_Inherits st p s = (b, s') \<Longrightarrow> level s' = level s"
    and Children_frame: "ps_Children st p s = (cs, s') \<Longrightarrow> level s' = level s"
    and SetPermission_frame:
      "ps_SetPermission st p u l rec s = (x, s') \<Longrightarrow> v \<noteq> u \<Longrightarrow> level s' q v = level s q v"
begin

lemma keeps_same_ACL: "keeps (same_levels level U) (ps_ACL st p)"
  by (rule keepsI) (auto simp: same_levels_def dest: ACL_frame)

lemma keeps_same_ACLs: "keeps (same_levels level U) (ps_ACLs st ps)"
  by (rule keepsI) (auto simp: same_levels_def dest: ACLs_frame)

lemma keeps_same_Inherits: "keeps (same_levels level U) (ps_Inherits st p)"
  by (rule keepsI) (auto simp: same_levels_def dest: Inherits_frame)

lemma keeps_same_Children: "keeps (same_levels level U) (ps_Children st p)"
  by (rule keepsI) (auto simp: same_levels_def dest: Children_frame)

lemma keeps_same_SetPermission:
  "\<not> U u \<Longrightarrow> keeps (same_levels level U) (ps_SetPermission st p u l rec)"
proof (rule keepsI)
  fix s r s'
  assume "\<not> U u" "ps_SetPermission st p u l rec s = (r, s')"
  then show "same_levels level U s s'"
    unfolding same_levels_def by (metis SetPermission_frame)
qed

lemmas keeps_same_levels =
  preorder_same_levels keeps_same_ACL keeps_same_ACLs keeps_same_Inherits keeps_same_Children
  keeps_same_SetPermission

end

text \<open>The full contract.  A store may remember what it read: \<open>fresh s p\<close> says that \<open>p\<close> is a path
  it can answer for and that what it remembers of its access list, if anything, is still true.  A fresh access list reports
  the levels and names a user once; a successful change sets the level it names and leaves
  every fresh list fresh but those strictly under the path of a recursive change; whatever the
  outcome, a change sets the level or leaves it, and reaches only the path, or with \<open>rec\<close> the
  paths under it; a path's spelling does not matter.\<close>

locale acl_store = acl_frame st level
  for st :: "('s, 'm) permission_store_scheme"
    and level :: "'s \<Rightarrow> string \<Rightarrow> string \<Rightarrow> permission" +
  fixes fresh :: "'s \<Rightarrow> string \<Rightarrow> bool"
  assumes ACL_level: "ps_ACL st p s = (Inr es, s') \<Longrightarrow> fresh s p \<Longrightarrow> level_of es u = level s p u"
    and ACL_distinct: "ps_ACL st p s = (Inr es, s') \<Longrightarrow> fresh s p \<Longrightarrow> distinct (map acl_user es)"
    and ACL_fresh: "ps_ACL st p s = (r, s') \<Longrightarrow> fresh s q \<Longrightarrow> fresh s' q"
    and ACLs_fresh: "ps_ACLs st ps s = (r', s') \<Longrightarrow> fresh s q \<Longrightarrow> fresh s' q"
    and Inherits_fresh: "ps_Inherits st p s = (b, s') \<Longrightarrow> fresh s q \<Longrightarrow> fresh s' q"
    and Children_fresh: "ps_Children st p s = (cs, s') \<Longrightarrow> fresh s q \<Longrightarrow> fresh s' q"
    and SetPermission_level: "ps_SetPermission st p u l rec s = (Inr (), s') \<Longrightarrow> level s' p u = l"
    and SetPermission_or_not:
      "ps_SetPermission st p u l rec s = (x, s') \<Longrightarrow> level s' q u = level s q u \<or> level s' q u = l"
    and SetPermission_outside:
      "ps_SetPermission st p u l rec s = (x, s') \<Longrightarrow> \<not> IsWithin q p \<Longrightarrow> level s' q v = level s q v"
    and SetPermission_flat:
      "ps_SetPermission st p u l False s = (x, s') \<Longrightarrow> normalizePath q \<noteq> normalizePath p \<Longrightarrow>
       level s' q v = level s q v"
    and SetPermission_fresh:
      "ps_SetPermission st p u l rec s = (Inr (), s') \<Longrightarrow>
       fresh s q \<Longrightarrow> normalizePath q = normalizePath p \<or> (rec \<longrightarrow> \<not> IsWithin q p) \<Longrightarrow> fresh s' q"
    and level_normal: "normalizePath p = normalizePath q \<Longrightarrow> level s p u = level s q u"
begin

text \<open>\<open>kept R D s0\<close>: since \<open>s0\<close> every level changed only as \<open>R\<close> allows, and the lists of the
  paths in \<open>D\<close> are fresh.\<close>

definition kept :: "(permission \<Rightarrow> permission \<Rightarrow> bool) \<Rightarrow> (string \<Rightarrow> bool) \<Rightarrow> 's \<Rightarrow> 's \<Rightarrow> bool" where
  "kept R D s0 s \<longleftrightarrow> levels_rel level R s0 s \<and> (\<forall>q. D q \<longrightarrow> fresh s q)"

lemma hoare_ACL:
  assumes "D p"
  shows "hoare (kept R D s0) (ps_ACL st p)
    (\<lambda>es s. kept R D s0 s \<and> (\<forall>u. level_of es u = level s p u) \<and> distinct (map acl_user es))
    (levels_rel level R s0)"
  using assms
  by (intro hoareI) (auto simp: kept_def levels_rel_def ACL_level ACL_frame
        dest: ACL_fresh ACL_distinct)

lemma hoare_reads:
  "hoare (kept R D s0) (ps_ACLs st ps) (\<lambda>_. kept R D s0) (levels_rel level R s0)"
  "hoare (kept R D s0) (ps_Inherits st p) (\<lambda>_. kept R D s0) (levels_rel level R s0)"
  "hoare (kept R D s0) (ps_Children st p) (\<lambda>_. kept R D s0) (levels_rel level R s0)"
  by (intro hoareI; auto simp: kept_def levels_rel_def ACLs_frame Inherits_frame Children_frame
        dest: ACLs_fresh Inherits_fresh Children_fresh)+

text \<open>A change of one path that \<open>R\<close> allows at the level held there.\<close>

lemma levels_rel_flat_set:
  assumes set: "ps_SetPermission st p u l False s = (x, s')"
    and "levels_rel level R s0 s" and R: "R (level s0 p u) l"
  shows "levels_rel level R s0 s'"
  unfolding levels_rel_def
proof (intro allI)
  fix q v
  show "R (level s0 q v) (level s' q v)"
  proof (cases "v = u \<and> normalizePath q = normalizePath p")
    case True
    then have "level s0 q v = level s0 p u"
      using level_normal [of q p s0 u] by simp
    moreover have "level s' q v = level s q v \<or> level s' q v = l"
      using True SetPermission_or_not [OF set] by blast
    ultimately show ?thesis
      using assms(2) R unfolding levels_rel_def by metis
  next
    case False
    then have "level s' q v = level s q v"
      using SetPermission_frame [OF set] SetPermission_flat [OF set] by blast
    with assms(2) show ?thesis by (simp add: levels_rel_def)
  qed
qed

lemma hoare_any_set:
  assumes "\<And>q. D q \<Longrightarrow> normalizePath q = normalizePath p \<or> \<not> IsWithin q p"
  shows "hoare (\<lambda>s. kept (\<lambda>_ _. True) D s0 s) (ps_SetPermission st p u l rec)
    (\<lambda>_ s. kept (\<lambda>_ _. True) D s0 s \<and> level s p u = l) (\<lambda>_. True)"
  using assms
  by (intro hoareI) (auto simp: kept_def levels_rel_def SetPermission_level intro: SetPermission_fresh)

lemma hoare_flat_set:
  assumes "R (level s0 p u) l"
  shows "hoare (kept R D s0) (ps_SetPermission st p u l False)
    (\<lambda>_ s. kept R D s0 s \<and> level s p u = l) (levels_rel level R s0)"
  using assms
  by (intro hoareI)
    (auto simp: kept_def SetPermission_level intro: levels_rel_flat_set SetPermission_fresh)

end

end
