(* ===== verification/IrodsClient.thy ===== *)
theory IrodsClient
  imports Stores
begin

text \<open>
  Package \<open>internal/irodsclient\<close> above its pool: the translation of go-irodsclient's errors
  (\<open>errors.go\<close>), what a call does to its session (\<open>session.go\<close>), and one definition per
  operation (\<open>ops.go\<close>, \<open>write.go\<close>, \<open>tickets.go\<close>, \<open>groups.go\<close>).  The library's
  \<open>FileSystem\<close> is not part of the repository: the record \<open>filesystem\<close> has one operation per
  library call, taking the client user the file system is bound to.
\<close>

section \<open>errors.go\<close>

fun lib_kind_of :: "gerror \<Rightarrow> lib_kind option" where
  "lib_kind_of (LibError k t) = Some k"
| "lib_kind_of _ = None"

definition is_lib :: "lib_kind \<Rightarrow> gerror \<Rightarrow> bool" where
  "is_lib k err \<longleftrightarrow> errors_find (\<lambda>e. lib_kind_of e = Some k) err \<noteq> None"

fun is_server_error :: "gerror \<Rightarrow> bool" where
  "is_server_error (LibError (ServerCode c) t) = True"
| "is_server_error _ = False"

definition withPath :: "string \<Rightarrow> api_error \<Rightarrow> api_error" where
  "withPath path e = (if path = [] then e else With ''path'' (JStr path) e)"

definition withUser :: "string \<Rightarrow> api_error \<Rightarrow> api_error" where
  "withUser user e = (if user = [] then e else With ''user'' (JStr user) e)"

definition translateIRODSCode :: "server_code \<Rightarrow> string \<Rightarrow> gerror \<Rightarrow> string \<Rightarrow> string \<Rightarrow> api_error" where
  "translateIRODSCode code text cause path user =
     (if code \<in> {CAT_UNKNOWN_FILE, CAT_UNKNOWN_COLLECTION} then
        WithCause cause (withPath path (New ErrDoesNotExist))
      else if code \<in> {CAT_NAME_EXISTS_AS_DATAOBJ, CAT_NAME_EXISTS_AS_COLLECTION} then
        WithCause cause (withPath path (New ErrExists))
      else if code \<in> {CAT_NO_ACCESS_PERMISSION, CAT_INSUFFICIENT_PRIVILEGE_LEVEL, SYS_NO_API_PRIV} then
        WithCause cause (withUser user (withPath path (New ErrNotReadable)))
      else if code \<in> {CAT_INVALID_USER, CAT_INVALID_GROUP} then
        WithCause cause (withUser user (New ErrNotAUser))
      else WithCause cause (With ''reason'' (JStr text) (withPath path (New ErrRequestFailed))))"

definition Translate :: "gerror \<Rightarrow> string \<Rightarrow> string \<Rightarrow> gerror" where
  "Translate err path user =
     (case errors_find is_api_error err of
        Some apiErr \<Rightarrow> apiErr
      | None \<Rightarrow> to_gerror (
          if is_lib FileNotFound err then WithCause err (withPath path (New ErrDoesNotExist))
          else if is_lib FileAlreadyExist err then WithCause err (withPath path (New ErrExists))
          else if is_lib UserNotFound err then WithCause err (withUser user (New ErrNotAUser))
          else if is_lib TicketNotFound err then WithCause err (New ErrTicketDoesNotExist)
          else if is_lib CollectionNotEmpty err then
            WithCause err (With ''reason'' (JStr (error_text err)) (withPath path (New ErrRequestFailed)))
          else if is_lib ConnectionFailure err then
            WithCause err (With ''reason'' (JStr (''iRODS is unavailable: '' @ error_text err))
              (New ErrUnavailable))
          else case errors_find is_server_error err of
            Some (LibError (ServerCode code) text) \<Rightarrow> translateIRODSCode code text err path user
          | _ \<Rightarrow> WithCause err (With ''reason'' (JStr (error_text err)) (New ErrRequestFailed))))"

definition hasCode :: "gerror \<Rightarrow> code \<Rightarrow> bool" where
  "hasCode err code \<longleftrightarrow>
     (case errors_find is_api_error err of Some e \<Rightarrow> ecode e = code | None \<Rightarrow> False)"

definition IsNotFound :: "gerror \<Rightarrow> bool" where
  "IsNotFound err \<longleftrightarrow> hasCode err ErrDoesNotExist"

definition IsNotAUser :: "gerror \<Rightarrow> bool" where
  "IsNotAUser err \<longleftrightarrow> hasCode err ErrNotAUser"

definition IsUnavailable :: "gerror \<Rightarrow> bool" where
  "IsUnavailable err \<longleftrightarrow> hasCode err ErrUnavailable"

section \<open>session.go\<close>

text \<open>A session is the client user it acts as, empty for the proxy account, and whether its
  connection may only be thrown away.  The state of a call is the data store and the session.\<close>

record session =
  sess_user :: string
  sess_poisoned :: bool

definition IsProxied :: "session \<Rightarrow> bool" where
  "IsProxied sess \<longleftrightarrow> sess_user sess \<noteq> []"

fun is_panic :: "gerror \<Rightarrow> bool" where
  "is_panic (Panicked t) = True"
| "is_panic _ = False"

text \<open>\<open>run\<close>: the call either answers, panics, or loses the race against the context, whose
  error (\<open>Canceled\<close> or \<open>DeadlineExceeded\<close>) is then the outcome.\<close>

definition run :: "string \<Rightarrow> (string \<Rightarrow> ('w, 'a) op) \<Rightarrow> ('w \<times> session, 'a) op" where
  "run path fn = (\<lambda>(w, sess).
     case fn (sess_user sess) w of
       (Inr v, w') \<Rightarrow> (Inr v, (w', sess))
     | (Inl e, w') \<Rightarrow>
         if errors_find is_panic e \<noteq> None \<or> e = Canceled \<or> e = DeadlineExceeded then
           (Inl e, (w', sess\<lparr>sess_poisoned := True\<rparr>))
         else
           (let err = Translate e path (sess_user sess)
            in (Inl err, (w', if IsUnavailable err then sess\<lparr>sess_poisoned := True\<rparr> else sess))))"

definition DoPath :: "string \<Rightarrow> (string \<Rightarrow> ('w, 'a) op) \<Rightarrow> ('w \<times> session, 'a) op" where
  "DoPath path fn = run path fn"

section \<open>The library's file system\<close>

record fs_entry =
  fe_id :: int
  fe_is_dir :: bool
  fe_path :: string
  fe_size :: int

record 'w filesystem =
  fs_stat :: "string \<Rightarrow> string \<Rightarrow> ('w, fs_entry) op"
  fs_stat_file_fresh :: "string \<Rightarrow> string \<Rightarrow> ('w, fs_entry) op"
  fs_list :: "string \<Rightarrow> string \<Rightarrow> ('w, fs_entry list) op"
  fs_change_acls ::
    "string \<Rightarrow> string \<Rightarrow> permission \<Rightarrow> string \<Rightarrow> string \<Rightarrow> bool \<Rightarrow> bool \<Rightarrow> ('w, unit) op"
  fs_change_inheritance :: "string \<Rightarrow> string \<Rightarrow> bool \<Rightarrow> bool \<Rightarrow> bool \<Rightarrow> ('w, unit) op"
  fs_get_inheritance :: "string \<Rightarrow> string \<Rightarrow> ('w, bool option) op"
  fs_list_metadata :: "string \<Rightarrow> string \<Rightarrow> ('w, avu list) op"
  fs_add_metadata :: "string \<Rightarrow> string \<Rightarrow> avu \<Rightarrow> ('w, unit) op"
  fs_delete_metadata :: "string \<Rightarrow> string \<Rightarrow> avu \<Rightarrow> ('w, unit) op"
  fs_make_dir :: "string \<Rightarrow> string \<Rightarrow> bool \<Rightarrow> ('w, unit) op"
  fs_rename_file :: "string \<Rightarrow> string \<Rightarrow> string \<Rightarrow> ('w, unit) op"
  fs_rename_dir :: "string \<Rightarrow> string \<Rightarrow> string \<Rightarrow> ('w, unit) op"
  fs_remove_dir :: "string \<Rightarrow> string \<Rightarrow> bool \<Rightarrow> bool \<Rightarrow> ('w, unit) op"
  fs_remove_file :: "string \<Rightarrow> string \<Rightarrow> bool \<Rightarrow> ('w, unit) op"
  fs_checksum :: "string \<Rightarrow> string \<Rightarrow> string \<Rightarrow> ('w, string) op"
  fs_list_tickets :: "string \<Rightarrow> ('w, ticket list) op"
  fs_delete_ticket :: "string \<Rightarrow> string \<Rightarrow> ('w, unit) op"
  fs_create_ticket :: "string \<Rightarrow> string \<Rightarrow> string \<Rightarrow> string \<Rightarrow> ('w, unit) op"
  fs_ticket_use_limit :: "string \<Rightarrow> string \<Rightarrow> int \<Rightarrow> ('w, unit) op"
  fs_ticket_write_limit :: "string \<Rightarrow> string \<Rightarrow> int \<Rightarrow> ('w, unit) op"
  fs_ticket_add_group :: "string \<Rightarrow> string \<Rightarrow> string \<Rightarrow> ('w, unit) op"
  fs_get_user :: "string \<Rightarrow> string \<Rightarrow> string \<Rightarrow> ('w, user_kind option) op"
  fs_create_group :: "string \<Rightarrow> string \<Rightarrow> string \<Rightarrow> ('w, unit) op"
  fs_remove_group :: "string \<Rightarrow> string \<Rightarrow> string \<Rightarrow> ('w, unit) op"
  fs_add_group_member :: "string \<Rightarrow> string \<Rightarrow> string \<Rightarrow> string \<Rightarrow> ('w, unit) op"
  fs_remove_group_member :: "string \<Rightarrow> string \<Rightarrow> string \<Rightarrow> string \<Rightarrow> ('w, unit) op"
  fs_list_group_members :: "string \<Rightarrow> string \<Rightarrow> string \<Rightarrow> ('w, string list) op"

section \<open>ops.go, write.go, tickets.go, groups.go\<close>

definition ops_List :: "('w, 'm) filesystem_scheme \<Rightarrow> string \<Rightarrow> ('w \<times> session, fs_entry list) op" where
  "ops_List fs path = DoPath path (\<lambda>user. fs_list fs user path)"

definition SetACL :: "('w, 'm) filesystem_scheme \<Rightarrow> string \<Rightarrow> permission \<Rightarrow> string \<Rightarrow> string \<Rightarrow> bool \<Rightarrow> bool
    \<Rightarrow> ('w \<times> session, unit) op" where
  "SetACL fs path perm who zone recurse adminMode =
     DoPath path (\<lambda>user. fs_change_acls fs user path perm who zone recurse adminMode)"

definition ops_SetInherit ::
    "('w, 'm) filesystem_scheme \<Rightarrow> string \<Rightarrow> bool \<Rightarrow> bool \<Rightarrow> bool \<Rightarrow> ('w \<times> session, unit) op" where
  "ops_SetInherit fs path inherit recurse adminMode =
     DoPath path (\<lambda>user. fs_change_inheritance fs user path inherit recurse adminMode)"

definition ops_Inherits :: "('w, 'm) filesystem_scheme \<Rightarrow> string \<Rightarrow> ('w \<times> session, bool) op" where
  "ops_Inherits fs path =
     bindM (DoPath path (\<lambda>user. fs_get_inheritance fs user path)) (\<lambda>inh. returnM (inh = Some True))"

definition ListAVUs :: "('w, 'm) filesystem_scheme \<Rightarrow> string \<Rightarrow> ('w \<times> session, avu list) op" where
  "ListAVUs fs path = DoPath path (\<lambda>user. fs_list_metadata fs user path)"

definition AddAVU :: "('w, 'm) filesystem_scheme \<Rightarrow> string \<Rightarrow> avu \<Rightarrow> ('w \<times> session, unit) op" where
  "AddAVU fs path a = DoPath path (\<lambda>user. fs_add_metadata fs user path a)"

definition ops_DeleteAVU :: "('w, 'm) filesystem_scheme \<Rightarrow> string \<Rightarrow> avu \<Rightarrow> ('w \<times> session, unit) op" where
  "ops_DeleteAVU fs path a = DoPath path (\<lambda>user. fs_delete_metadata fs user path a)"

definition ops_MakeDir :: "('w, 'm) filesystem_scheme \<Rightarrow> string \<Rightarrow> bool \<Rightarrow> ('w \<times> session, unit) op" where
  "ops_MakeDir fs path recurse = DoPath path (\<lambda>user. fs_make_dir fs user path recurse)"

definition RenameFile :: "('w, 'm) filesystem_scheme \<Rightarrow> string \<Rightarrow> string \<Rightarrow> ('w \<times> session, unit) op" where
  "RenameFile fs from to = DoPath from (\<lambda>user. fs_rename_file fs user from to)"

definition ops_Move :: "('w, 'm) filesystem_scheme \<Rightarrow> string \<Rightarrow> string \<Rightarrow> ('w \<times> session, unit) op" where
  "ops_Move fs from to = DoPath from (\<lambda>user.
     bindM (fs_stat fs user from) (\<lambda>entry.
       if fe_is_dir entry then fs_rename_dir fs user from to else fs_rename_file fs user from to))"

definition RemoveDir :: "('w, 'm) filesystem_scheme \<Rightarrow> string \<Rightarrow> bool \<Rightarrow> bool \<Rightarrow> ('w \<times> session, unit) op" where
  "RemoveDir fs path recurse force = DoPath path (\<lambda>user. fs_remove_dir fs user path recurse force)"

definition RemoveFile :: "('w, 'm) filesystem_scheme \<Rightarrow> string \<Rightarrow> bool \<Rightarrow> ('w \<times> session, unit) op" where
  "RemoveFile fs path force = DoPath path (\<lambda>user. fs_remove_file fs user path force)"

definition ops_Checksum :: "('w, 'm) filesystem_scheme \<Rightarrow> string \<Rightarrow> string \<Rightarrow> ('w \<times> session, string) op" where
  "ops_Checksum fs path resource = DoPath path (\<lambda>user. fs_checksum fs user path resource)"

text \<open>\<open>ExistsFile\<close>: only a not-found answer means absent.\<close>

definition ExistsFile :: "('w, 'm) filesystem_scheme \<Rightarrow> string \<Rightarrow> ('w \<times> session, bool) op" where
  "ExistsFile fs path =
     wrapM ''checking for a data object'' (DoPath path (\<lambda>user w.
       case fs_stat_file_fresh fs user path w of
         (Inl err, w') \<Rightarrow> if is_lib FileNotFound err then (Inr False, w') else (Inl err, w')
       | (Inr entry, w') \<Rightarrow> (Inr (0 < fe_id entry), w')))"

definition ListTickets :: "('w, 'm) filesystem_scheme \<Rightarrow> ('w \<times> session, ticket list) op" where
  "ListTickets fs = DoPath [] (\<lambda>user. fs_list_tickets fs user)"

definition ops_DeleteTicket :: "('w, 'm) filesystem_scheme \<Rightarrow> string \<Rightarrow> ('w \<times> session, unit) op" where
  "ops_DeleteTicket fs name = DoPath [] (\<lambda>user. fs_delete_ticket fs user name)"

definition ops_CreateTicket ::
    "('w, 'm) filesystem_scheme \<Rightarrow> string \<Rightarrow> string \<Rightarrow> string \<Rightarrow> ('w \<times> session, unit) op" where
  "ops_CreateTicket fs name type path = DoPath path (\<lambda>user. fs_create_ticket fs user name type path)"

definition ops_SetTicketLimits ::
    "('w, 'm) filesystem_scheme \<Rightarrow> string \<Rightarrow> int option \<Rightarrow> int option \<Rightarrow> ('w \<times> session, unit) op" where
  "ops_SetTicketLimits fs name uses fileWrite = DoPath [] (\<lambda>user.
     thenM (case uses of None \<Rightarrow> returnM () | Some n \<Rightarrow> fs_ticket_use_limit fs user name n)
       (case fileWrite of None \<Rightarrow> returnM () | Some n \<Rightarrow> fs_ticket_write_limit fs user name n))"

definition AddTicketGroup :: "('w, 'm) filesystem_scheme \<Rightarrow> string \<Rightarrow> string \<Rightarrow> ('w \<times> session, unit) op" where
  "AddTicketGroup fs name grp = DoPath [] (\<lambda>user. fs_ticket_add_group fs user name grp)"

text \<open>\<open>GroupExists\<close>: an account of another kind under the name is no group.\<close>

definition ops_GroupExists :: "('w, 'm) filesystem_scheme \<Rightarrow> string \<Rightarrow> string \<Rightarrow> ('w \<times> session, bool) op" where
  "ops_GroupExists fs grp zone = (\<lambda>s.
     case DoPath [] (\<lambda>user. fs_get_user fs user grp zone) s of
       (Inl err, s') \<Rightarrow> if IsNotAUser err then (Inr False, s') else (Inl err, s')
     | (Inr found, s') \<Rightarrow> (Inr (found = Some UserKindGroup), s'))"

definition ops_CreateGroup :: "('w, 'm) filesystem_scheme \<Rightarrow> string \<Rightarrow> string \<Rightarrow> ('w \<times> session, unit) op" where
  "ops_CreateGroup fs name zone = DoPath [] (\<lambda>user. fs_create_group fs user name zone)"

definition ops_DeleteGroup :: "('w, 'm) filesystem_scheme \<Rightarrow> string \<Rightarrow> string \<Rightarrow> ('w \<times> session, unit) op" where
  "ops_DeleteGroup fs name zone = DoPath [] (\<lambda>user. fs_remove_group fs user name zone)"

definition ops_AddGroupMember ::
    "('w, 'm) filesystem_scheme \<Rightarrow> string \<Rightarrow> string \<Rightarrow> string \<Rightarrow> ('w \<times> session, unit) op" where
  "ops_AddGroupMember fs grp who zone = DoPath [] (\<lambda>user. fs_add_group_member fs user grp who zone)"

definition ops_RemoveGroupMember ::
    "('w, 'm) filesystem_scheme \<Rightarrow> string \<Rightarrow> string \<Rightarrow> string \<Rightarrow> ('w \<times> session, unit) op" where
  "ops_RemoveGroupMember fs grp who zone =
     DoPath [] (\<lambda>user. fs_remove_group_member fs user grp who zone)"

definition ListGroupMembers :: "('w, 'm) filesystem_scheme \<Rightarrow> string \<Rightarrow> string \<Rightarrow> ('w \<times> session, string list) op" where
  "ListGroupMembers fs grp zone = DoPath [] (\<lambda>user. fs_list_group_members fs user zone grp)"

section \<open>Properties\<close>

lemma run_success:
  "run path fn (w, sess) = (Inr v, y) \<longleftrightarrow> (\<exists>w'. fn (sess_user sess) w = (Inr v, w') \<and> y = (w', sess))"
  by (auto simp: run_def Let_def split: prod.splits sum.splits)

lemma errors_find_sub:
  assumes "errors_find P e = Some e'" "errors_find Q e = None"
  shows "errors_find Q e' = None"
  using assms
proof (induction P e rule: errors_find.induct)
  case (1 P e)
  show ?case
  proof (cases "P e")
    case True
    with "1.prems" show ?thesis
      by (simp add: errors_find.simps [of P e])
  next
    case False
    then obtain f where f: "unwrap_error e = Some f" "errors_find P f = Some e'"
      using "1.prems"(1) by (auto simp: errors_find.simps [of P e] split: option.splits)
    moreover have "errors_find Q f = None"
      using "1.prems"(2) f(1) by (auto simp: errors_find.simps [of Q e] split: if_splits)
    ultimately show ?thesis
      using "1.IH" False by blast
  qed
qed

lemma errors_find_self: "P e \<Longrightarrow> errors_find P e = Some e"
  by (simp add: errors_find.simps)

lemma is_api_error_to_gerror [simp]: "is_api_error (to_gerror e)"
  by (simp add: to_gerror_def)

text \<open>A translated error is one of the service's own, with the library's as its cause.\<close>

lemma Translate_api:
  obtains a where "Translate err path user = to_gerror a" "Cause a = Some err"
  | "errors_find is_api_error err = Some (Translate err path user)"
proof (cases "errors_find is_api_error err")
  case None
  have code: "Cause (translateIRODSCode c t err path user) = Some err" for c t
    unfolding translateIRODSCode_def by (simp add: WithCause_def)
  have "\<exists>a. Translate err path user = to_gerror a \<and> Cause a = Some err"
    unfolding Translate_def None option.case
    by (rule exI, rule conjI, rule refl)
      (simp add: WithCause_def code split: option.split gerror.split lib_kind.split)
  with that show ?thesis by blast
next
  case (Some e)
  with that(2) show ?thesis by (simp add: Translate_def)
qed

lemma Translate_is_api: "is_api_error (Translate err path user)"
  by (rule Translate_api [of err path user]) (auto dest: errors_find_sat)

lemma Translate_no_panic:
  assumes "errors_find is_panic err = None"
  shows "errors_find is_panic (Translate err path user) = None"
proof (rule Translate_api [of err path user])
  fix a
  assume "Translate err path user = to_gerror a" "Cause a = Some err"
  with assms show ?thesis
    by (subst errors_find.simps) (simp add: to_gerror_def)
next
  assume "errors_find is_api_error err = Some (Translate err path user)"
  then show ?thesis
    using assms by (rule errors_find_sub)
qed

text \<open>A failed call on the data store ends in exactly one of three ways: a recovered panic,
  the context's own error, or an error of the service's vocabulary.  Its session keeps its user,
  and is marked to be discarded after a panic, after losing to the context and when iRODS could
  not be reached, and in no other case.\<close>

theorem run_failure:
  assumes "run path fn (w, sess) = (Inl err, (w', sess'))"
  shows "(errors_find is_panic err \<noteq> None \<or> err = Canceled \<or> err = DeadlineExceeded \<or> is_api_error err)
    \<and> sess_user sess' = sess_user sess
    \<and> (sess_poisoned sess' \<longleftrightarrow> sess_poisoned sess \<or> errors_find is_panic err \<noteq> None \<or>
         err = Canceled \<or> err = DeadlineExceeded \<or> IsUnavailable err)"
proof -
  obtain e where e: "fn (sess_user sess) w = (Inl e, w')"
    using assms by (auto simp: run_def Let_def split: prod.splits sum.splits if_splits)
  show ?thesis
  proof (cases "errors_find is_panic e \<noteq> None \<or> e = Canceled \<or> e = DeadlineExceeded")
    case True
    with assms e show ?thesis
      by (auto simp: run_def)
  next
    case False
    then have "err = Translate e path (sess_user sess)"
      and sess: "sess' = (if IsUnavailable err then sess\<lparr>sess_poisoned := True\<rparr> else sess)"
      using assms e by (auto simp: run_def Let_def)
    then have "is_api_error err" "errors_find is_panic err = None"
      using False Translate_is_api Translate_no_panic by auto
    then show ?thesis
      using sess by auto
  qed
qed

definition sample_session :: session where
  "sample_session = \<lparr>sess_user = ''ann'', sess_poisoned = False\<rparr>"

text \<open>A refused connection, and a file that is not there.\<close>

theorem run_failure_witness:
  "sess_poisoned (snd (snd (run ''/z/f'' (\<lambda>_. failM (LibError ConnectionFailure ''refused'')) ((), sample_session)))) \<and>
   \<not> sess_poisoned (snd (snd (run ''/z/f'' (\<lambda>_. failM (LibError FileNotFound ''gone'')) ((), sample_session))))"
proof -
  define err1 where "err1 = Translate (LibError ConnectionFailure ''refused'') ''/z/f'' ''ann''"
  define err2 where "err2 = Translate (LibError FileNotFound ''gone'') ''/z/f'' ''ann''"
  note eval = run_def Let_def sample_session_def errors_find.simps IsUnavailable_def hasCode_def Translate_def
    is_lib_def to_gerror_def WithCause_def With_def New_def withPath_def ErrUnavailable_def ErrDoesNotExist_def
  have "\<exists>w s. run ''/z/f'' (\<lambda>_. failM (LibError ConnectionFailure ''refused'')) ((), sample_session) = (Inl err1, (w, s))"
    by (simp add: eval err1_def)
  then have one: "sess_poisoned (snd (snd (run ''/z/f'' (\<lambda>_. failM (LibError ConnectionFailure ''refused'')) ((), sample_session))))"
    using run_failure [of "''/z/f''" "\<lambda>_. failM (LibError ConnectionFailure ''refused'')" "()" sample_session err1]
    by (auto simp: err1_def eval)
  have "\<exists>w s. run ''/z/f'' (\<lambda>_. failM (LibError FileNotFound ''gone'')) ((), sample_session) = (Inl err2, (w, s))"
    by (simp add: eval err2_def)
  then have "\<not> sess_poisoned (snd (snd (run ''/z/f'' (\<lambda>_. failM (LibError FileNotFound ''gone'')) ((), sample_session))))"
    using run_failure [of "''/z/f''" "\<lambda>_. failM (LibError FileNotFound ''gone'')" "()" sample_session err2]
    by (auto simp: err2_def eval)
  with one show ?thesis ..
qed

end
