(* ===== verification/Permissions.thy ===== *)
theory Permissions
  imports Stores
begin

text \<open>
  \<open>internal/service/permissions.go\<close>: repairing access lists after a move, over any
  \<open>PermissionStore\<close>.  The lemmas are proved once in the contracts of theory \<open>Stores\<close>.
\<close>

section \<open>permissions.go\<close>

record move_context =
  mc_source :: string
  mc_destination :: string
  mc_user :: string
  mc_admins :: "string list"
  mc_proxy :: string
  mc_layout :: layout

definition ignores :: "move_context \<Rightarrow> string \<Rightarrow> bool" where
  "ignores m user \<longleftrightarrow> user = mc_user m \<or> user = mc_proxy m \<or> List.member (mc_admins m) user"

text \<open>\<open>ancestorsOf\<close>: the loop climbs from \<open>current\<close>, nearest first.\<close>

function climb :: "(string \<Rightarrow> bool) \<Rightarrow> string \<Rightarrow> string list" where
  "climb stop current =
     (if current = [] \<or> current = ''/'' \<or> current = ''.'' \<or> stop current then []
      else if length (filter (\<lambda>c. c = slash) current) < 2 then []
      else if Dir current = current then [current]
      else current # climb stop (Dir current))"
  by pat_completeness auto
termination
  by (relation "measure (\<lambda>(stop, current). climb_measure current)") (auto simp: climb_measure_Dir)

declare climb.simps [simp del]

definition ancestorsOf :: "string \<Rightarrow> (string \<Rightarrow> bool) \<Rightarrow> string list" where
  "ancestorsOf path stop = climb stop (Dir path)"

definition permissionOf ::
    "('s, 'm) permission_store_scheme \<Rightarrow> string \<Rightarrow> string \<Rightarrow> ('s, permission) op" where
  "permissionOf store path user =
     bindM (wrapM ''reading the access list'' (ps_ACL store path))
       (\<lambda>entries. returnM (level_of entries user))"

definition holdsAnythingReadableBy ::
    "('s, 'm) permission_store_scheme \<Rightarrow> string \<Rightarrow> string \<Rightarrow> ('s, bool) op" where
  "holdsAnythingReadableBy store path user =
     bindM (wrapM ''listing'' (ps_Children store path))
       (\<lambda>children. if children = [] then returnM False
         else bindM (wrapM ''reading the access lists'' (ps_ACLs store children))
           (\<lambda>acls. returnM (list_ex (\<lambda>(p, entries).
              list_ex (\<lambda>e. acl_user e = user \<and> acl_permission e \<noteq> PermissionNone) entries) acls)))"

definition shareesOf ::
    "('s, 'm) permission_store_scheme \<Rightarrow> string \<Rightarrow> move_context \<Rightarrow> ('s, string list) op" where
  "shareesOf store path move =
     bindM (wrapM ''reading the access list'' (ps_ACL store path))
       (\<lambda>entries. returnM (filter (\<lambda>u. \<not> ignores move u) (map acl_user entries)))"

definition clearAccess ::
    "('s, 'm) permission_store_scheme \<Rightarrow> move_context \<Rightarrow> ('s, unit) op" where
  "clearAccess store move =
     bindM (shareesOf store (mc_destination move) move)
       (\<lambda>sharees. forM (\<lambda>sharee. wrapM ''removing access''
          (ps_SetPermission store (mc_destination move) sharee PermissionNone True)) sharees)"

definition grantParentAccess ::
    "('s, 'm) permission_store_scheme \<Rightarrow> move_context \<Rightarrow> ('s, unit) op" where
  "grantParentAccess store move =
     bindM (wrapM ''reading the access list'' (ps_ACL store (Dir (mc_destination move))))
       (\<lambda>entries. forM (\<lambda>e.
          if ignores move (acl_user e) then returnM ()
          else wrapM ''granting'' (ps_SetPermission store (mc_destination move) (acl_user e)
                 (acl_permission e) True)) entries)"

text \<open>The body of \<open>grantAncestorAccess\<close>'s inner loop.\<close>

definition grant_read_on ::
    "('s, 'm) permission_store_scheme \<Rightarrow> string \<Rightarrow> string \<Rightarrow> ('s, unit) op" where
  "grant_read_on store sharee ancestor =
     bindM (permissionOf store ancestor sharee)
       (\<lambda>held. if held = PermissionWrite \<or> held = PermissionOwn then returnM ()
         else wrapM ''granting read'' (ps_SetPermission store ancestor sharee PermissionRead False))"

definition grantAncestorAccess ::
    "('s, 'm) permission_store_scheme \<Rightarrow> move_context \<Rightarrow> ('s, unit) op" where
  "grantAncestorAccess store move =
     bindM (shareesOf store (mc_destination move) move)
       (\<lambda>sharees.
          let l = mc_layout move;
              ancestors = ancestorsOf (mc_destination move) (\<lambda>p. IsSharing l p \<or> IsTrashBase l p)
          in forM (\<lambda>sharee. forM (grant_read_on store sharee) ancestors) sharees)"

text \<open>The inner loop of \<open>removeObsoleteAccess\<close> (and of \<open>Unshare\<close>): it goes on past a
  collection where the user holds more or less than read, and stops at the first where read
  still reaches something.\<close>

primrec take_back_read ::
    "('s, 'm) permission_store_scheme \<Rightarrow> string \<Rightarrow> string list \<Rightarrow> ('s, unit) op" where
  "take_back_read store user [] = returnM ()"
| "take_back_read store user (ancestor # rest) =
     bindM (permissionOf store ancestor user)
       (\<lambda>held. if held \<noteq> PermissionRead then take_back_read store user rest
         else bindM (holdsAnythingReadableBy store ancestor user)
           (\<lambda>reachable. if reachable then returnM ()
             else thenM (wrapM ''removing access''
                    (ps_SetPermission store ancestor user PermissionNone False))
                  (take_back_read store user rest)))"

definition removeObsoleteAccess ::
    "('s, 'm) permission_store_scheme \<Rightarrow> move_context \<Rightarrow> ('s, unit) op" where
  "removeObsoleteAccess store move =
     bindM (wrapM ''reading the access list'' (ps_ACL store (Dir (mc_source move))))
       (\<lambda>entries.
          let l = mc_layout move;
              ancestors = ancestorsOf (mc_source move)
                (\<lambda>p. IsSharing l p \<or> IsTrashBase l p \<or> p = UserHome l (mc_user move))
          in forM (\<lambda>e. if ignores move (acl_user e) then returnM ()
                       else take_back_read store (acl_user e) ancestors) entries)"

definition RepairPermissions ::
    "('s, 'm) permission_store_scheme \<Rightarrow> move_context \<Rightarrow> ('s, unit) op" where
  "RepairPermissions store move =
     (let sourceParent = Dir (mc_source move); destinationParent = Dir (mc_destination move)
      in if sourceParent = destinationParent then returnM ()
         else bindM (wrapM ''reading the inheritance'' (ps_Inherits store sourceParent))
           (\<lambda>sourceInherits.
          bindM (wrapM ''reading the inheritance'' (ps_Inherits store destinationParent))
           (\<lambda>destinationInherits.
          thenM (if \<not> sourceInherits then removeObsoleteAccess store move else returnM ())
            (if destinationInherits then
               thenM (clearAccess store move) (grantParentAccess store move)
             else if sourceInherits then clearAccess store move
             else grantAncestorAccess store move))))"

section \<open>The walk up\<close>

text \<open>On a canonical path the walk visits proper ancestors of at least two components, and
  none that \<open>stop\<close> accepts.\<close>

lemma climb_not_stop: "a \<in> set (climb stop c) \<Longrightarrow> \<not> stop a"
proof (induction stop c rule: climb.induct)
  case (1 stop c)
  then show ?case
    by (subst (asm) (2) climb.simps) (auto split: if_splits)
qed

lemma climb_root: "climb stop ''/'' = []"
  by (simp add: climb.simps)

lemma climb_dir_path: "climb stop (dir_path []) = []"
  by (simp add: dir_path_def climb_root)

lemma climb_abs:
  assumes "good_comps cs"
  shows "a \<in> set (climb stop (dir_path cs)) \<Longrightarrow> \<exists>k. 2 \<le> k \<and> k \<le> length cs \<and> a = abs_path (take k cs)"
  using assms
proof (induction cs rule: rev_induct)
  case Nil
  then show ?case
    by (simp add: climb_dir_path)
next
  case (snoc c cs)
  have good: "good_comps cs" "good_comp c"
    using snoc.prems(2) by auto
  have dir: "Dir (abs_path (cs @ [c])) = dir_path cs"
    using good by (rule Dir_snoc)
  have count: "length (filter (\<lambda>x. x = slash) (abs_path ds)) = length ds" if "good_comps ds" for ds
    using that by (induction ds) (auto simp: good_comp_def filter_empty_conv)
  have "a = abs_path (cs @ [c]) \<and> 2 \<le> length (cs @ [c]) \<or> a \<in> set (climb stop (dir_path cs))"
    using snoc.prems(1) count [OF snoc.prems(2)] dir
    by (subst (asm) climb.simps) (auto simp: dir_path_def Suc_le_eq split: if_splits simp del: abs_path_append)
  then show ?case
  proof
    assume "a = abs_path (cs @ [c]) \<and> 2 \<le> length (cs @ [c])"
    then show ?thesis
      by (intro exI [of _ "length (cs @ [c])"]) simp
  next
    assume "a \<in> set (climb stop (dir_path cs))"
    then obtain k where "2 \<le> k" "k \<le> length cs" "a = abs_path (take k cs)"
      using snoc.IH good(1) by blast
    then show ?thesis
      by (intro exI [of _ k]) simp
  qed
qed

lemma ancestorsOf_abs:
  assumes "good_comps cs" "good_comp c" "a \<in> set (ancestorsOf (abs_path (cs @ [c])) stop)"
  shows "\<exists>k. 2 \<le> k \<and> k \<le> length cs \<and> a = abs_path (take k cs)"
  using assms climb_abs [of cs a stop] Dir_snoc [of cs c]
  by (simp add: ancestorsOf_def del: abs_path_append)

lemma Dir_not_within:
  assumes "good_comps cs" "good_comp c"
  shows "\<not> IsWithin (Dir (abs_path (cs @ [c]))) (abs_path (cs @ [c]))"
proof -
  have "IsWithin (dir_path cs) q = IsWithin (abs_path cs) q" for q
    using assms(1) by (auto simp: IsWithin_def trim_right_abs dir_path_def)
  with assms show ?thesis
    using Dir_snoc [OF assms] IsWithin_comps [of cs "cs @ [c]"] by (simp del: abs_path_append)
qed

section \<open>What a repair leaves alone\<close>

context acl_frame
begin

lemma keeps_permissionOf: "keeps (same_levels level U) (permissionOf st p u)"
  unfolding permissionOf_def by (intro keeps_intros keeps_same_levels preorder_same_levels)

lemma keeps_holdsAnything: "keeps (same_levels level U) (holdsAnythingReadableBy st p u)"
  unfolding holdsAnythingReadableBy_def
  by (intro keeps_intros keeps_same_levels preorder_same_levels)

lemma keeps_take_back_read: "\<not> U u \<Longrightarrow> keeps (same_levels level U) (take_back_read st u as)"
proof (induction as)
  case Nil
  show ?case
    by (simp only: take_back_read.simps) (rule keeps_returnM [OF preorder_same_levels])
next
  case (Cons a as)
  then have rest: "keeps (same_levels level U) (take_back_read st u as)"
    by blast
  show ?case
    unfolding take_back_read.simps
    by (intro keeps_intros preorder_same_levels keeps_permissionOf keeps_holdsAnything rest
        keeps_same_SetPermission Cons.prems)
qed

lemma keeps_grant_read_on: "\<not> U u \<Longrightarrow> keeps (same_levels level U) (grant_read_on st u p)"
  unfolding grant_read_on_def
  by (intro keeps_intros keeps_same_levels preorder_same_levels keeps_permissionOf)

text \<open>A loop over the sharees only changes users the move does not ignore.\<close>

lemma keeps_over_sharees:
  assumes "\<And>u. U u \<Longrightarrow> ignores mv u" and "\<And>u. \<not> U u \<Longrightarrow> keeps (same_levels level U) (f u)"
  shows "keeps (same_levels level U) (bindM (shareesOf st p mv) (\<lambda>us. forM f us))"
proof (rule keepsI)
  fix s r s'
  assume run: "bindM (shareesOf st p mv) (\<lambda>us. forM f us) s = (r, s')"
  have read: "keeps (same_levels level U) (shareesOf st p mv)"
    unfolding shareesOf_def by (intro keeps_intros keeps_same_levels preorder_same_levels)
  show "same_levels level U s s'"
  proof (cases "shareesOf st p mv s")
    case (Pair q t)
    with read have st: "same_levels level U s t"
      by (rule keepsD)
    show ?thesis
    proof (cases q)
      case (Inl e)
      with run Pair st show ?thesis by simp
    next
      case (Inr us)
      then have "\<forall>u \<in> set us. \<not> ignores mv u"
        using Pair by (auto simp: shareesOf_def bindM_eq_Inr)
      then have "keeps (same_levels level U) (forM f us)"
        using assms by (intro keeps_forM preorder_same_levels) blast
      moreover have "forM f us t = (r, s')"
        using run Pair Inr by simp
      ultimately have "same_levels level U t s'"
        by (rule keepsD)
      then show ?thesis
        by (rule preorder_rel_trans [OF preorder_same_levels st])
    qed
  qed
qed

lemma repair_keeps:
  assumes "\<And>u. U u \<Longrightarrow> ignores mv u"
  shows "keeps (same_levels level U) (RepairPermissions st mv)"
proof -
  note pre = preorder_same_levels
  have notU: "\<not> U u" if "\<not> ignores mv u" for u
    using that assms by blast
  have obsolete: "keeps (same_levels level U) (removeObsoleteAccess st mv)"
    unfolding removeObsoleteAccess_def Let_def
    by (intro keeps_bindM keeps_wrapM keeps_forM keeps_if keeps_returnM keeps_same_ACL pre
        keeps_take_back_read notU)
  have clear: "keeps (same_levels level U) (clearAccess st mv)"
    unfolding clearAccess_def
    by (rule keeps_over_sharees, erule assms) (intro keeps_wrapM keeps_same_SetPermission)
  have parent: "keeps (same_levels level U) (grantParentAccess st mv)"
    unfolding grantParentAccess_def
    by (intro keeps_bindM keeps_wrapM keeps_forM keeps_if keeps_returnM keeps_same_ACL pre
        keeps_same_SetPermission notU)
  have ancestors: "keeps (same_levels level U) (grantAncestorAccess st mv)"
    unfolding grantAncestorAccess_def Let_def
    by (rule keeps_over_sharees, erule assms) (intro keeps_forM pre keeps_grant_read_on)
  show ?thesis
    unfolding RepairPermissions_def Let_def
    by (intro keeps_bindM keeps_thenM keeps_wrapM keeps_if keeps_returnM keeps_same_Inherits pre
        obsolete clear parent ancestors)
qed

end

section \<open>What a repair achieves\<close>

text \<open>What the two walks may do to a level: write and own stay, and nothing else becomes more
  than read.\<close>

definition walk_step :: "permission \<Rightarrow> permission \<Rightarrow> bool" where
  "walk_step k l \<longleftrightarrow> (if PermissionWrite \<le> k then l = k else l \<le> PermissionRead)"

lemma walk_step_simps:
  "walk_step k k" "walk_step k PermissionRead \<longleftrightarrow> k \<le> PermissionRead"
  "walk_step k PermissionNone \<longleftrightarrow> k \<le> PermissionRead"
  by (cases k; simp add: walk_step_def less_eq_permission_def)+

lemma walk_step_weak: "walk_step k l \<Longrightarrow> l \<le> PermissionRead \<Longrightarrow> k \<le> PermissionRead"
  by (cases k; cases l; simp add: walk_step_def less_eq_permission_def)

lemma permission_weak: "l \<le> PermissionRead \<longleftrightarrow> l \<noteq> PermissionWrite \<and> l \<noteq> PermissionOwn"
  by (cases l) (simp_all add: less_eq_permission_def)

definition only_read_goes :: "permission \<Rightarrow> permission \<Rightarrow> bool" where
  "only_read_goes k l \<longleftrightarrow> l = k \<or> k = PermissionRead \<and> l = PermissionNone"

text \<open>A path is strictly inside another.\<close>

definition strictly_inside :: "string \<Rightarrow> string \<Rightarrow> bool" where
  "strictly_inside q p \<longleftrightarrow> IsWithin q p \<and> normalizePath q \<noteq> normalizePath p"

context acl_store
begin

lemma hoare_permissionOf:
  assumes "D p"
  shows "hoare (kept R D s0) (permissionOf st p u)
    (\<lambda>held s. kept R D s0 s \<and> held = level s p u) (levels_rel level R s0)"
  unfolding permissionOf_def
  by (rule hoare_bindM, rule hoare_wrapM, rule hoare_ACL [of D, OF assms], rule hoare_returnM) simp

lemma hoare_holdsAnything:
  "hoare (kept R D s0) (holdsAnythingReadableBy st p u) (\<lambda>_. kept R D s0) (levels_rel level R s0)"
  unfolding holdsAnythingReadableBy_def
  by (intro hoare_intros hoare_reads)

lemma hoare_grant_read_on:
  assumes "D p"
  shows "hoare (kept walk_step D s0) (grant_read_on st u p)
    (\<lambda>_ s. kept walk_step D s0 s \<and> PermissionRead \<le> level s p u) (levels_rel level walk_step s0)"
  unfolding grant_read_on_def
proof (rule hoare_bindM [OF hoare_permissionOf [of D, OF assms]], rule hoare_if)
  fix held
  assume "held = PermissionWrite \<or> held = PermissionOwn"
  then show "hoare (\<lambda>s. kept walk_step D s0 s \<and> held = level s p u) (returnM ())
      (\<lambda>_ s. kept walk_step D s0 s \<and> PermissionRead \<le> level s p u) (levels_rel level walk_step s0)"
    by (intro hoare_returnM) (auto simp: less_eq_permission_def)
next
  fix held
  assume weak: "\<not> (held = PermissionWrite \<or> held = PermissionOwn)"
  show "hoare (\<lambda>s. kept walk_step D s0 s \<and> held = level s p u)
      (wrapM ''granting read'' (ps_SetPermission st p u PermissionRead False))
      (\<lambda>_ s. kept walk_step D s0 s \<and> PermissionRead \<le> level s p u) (levels_rel level walk_step s0)"
  proof (cases "walk_step (level s0 p u) PermissionRead")
    case True
    show ?thesis
      by (rule hoare_wrapM, rule hoare_conseq, rule hoare_flat_set [where R = walk_step, OF True]) (auto simp: less_eq_permission_def)
  next
    case False
    have "\<not> (kept walk_step D s0 s \<and> held = level s p u)" for s
    proof
      assume "kept walk_step D s0 s \<and> held = level s p u"
      then have "walk_step (level s0 p u) held"
        by (simp add: kept_def levels_rel_def)
      with weak False show False
        using walk_step_weak permission_weak walk_step_simps(2) by blast
    qed
    then show ?thesis
      by (intro hoareI) blast+
  qed
qed

lemma hoare_shareesOf:
  assumes "D p"
  shows "hoare (kept R D s0) (shareesOf st p mv)
    (\<lambda>us s. kept R D s0 s \<and> distinct us \<and> (\<forall>u. u \<in> set us \<longrightarrow> \<not> ignores mv u) \<and>
       (\<forall>u. \<not> ignores mv u \<longrightarrow> u \<notin> set us \<longrightarrow> level s p u = PermissionNone))
    (levels_rel level R s0)"
proof -
  have users: "\<forall>u. \<not> ignores mv u \<longrightarrow> u \<notin> set (filter (\<lambda>u. \<not> ignores mv u) (map acl_user es)) \<longrightarrow>
      level_of es u = PermissionNone" for es
    by (auto intro: level_of_absent)
  show ?thesis
    unfolding shareesOf_def
  proof (rule hoare_bindM [OF hoare_wrapM [OF hoare_ACL [of D, OF assms]]], rule hoare_returnM)
    fix es s
    assume "kept R D s0 s \<and> (\<forall>u. level_of es u = level s p u) \<and> distinct (map acl_user es)"
    then show "kept R D s0 s \<and> distinct (filter (\<lambda>u. \<not> ignores mv u) (map acl_user es)) \<and>
        (\<forall>u. u \<in> set (filter (\<lambda>u. \<not> ignores mv u) (map acl_user es)) \<longrightarrow> \<not> ignores mv u) \<and>
        (\<forall>u. \<not> ignores mv u \<longrightarrow> u \<notin> set (filter (\<lambda>u. \<not> ignores mv u) (map acl_user es)) \<longrightarrow>
          level s p u = PermissionNone)"
      using users [of es] by auto
  qed
qed

text \<open>Taking read back, for any relation on levels under which read may go.\<close>

lemma hoare_take_back_read:
  assumes "\<And>a. a \<in> set as \<Longrightarrow> D a" and "\<And>k. R k PermissionRead \<Longrightarrow> R k PermissionNone"
  shows "hoare (kept R D s0) (take_back_read st u as) (\<lambda>_. kept R D s0) (levels_rel level R s0)"
  using assms(1)
proof (induction as)
  case Nil
  show ?case
    by (simp only: take_back_read.simps) (rule hoare_returnM)
next
  case (Cons a as)
  have rest: "hoare (kept R D s0) (take_back_read st u as) (\<lambda>_. kept R D s0) (levels_rel level R s0)"
    by (rule Cons.IH) (simp add: Cons.prems)
  have remove: "hoare (kept R D s0) (ps_SetPermission st a u PermissionNone False)
      (\<lambda>_. kept R D s0) (levels_rel level R s0)" if "R (level s0 a u) PermissionNone"
    by (rule hoare_conseq [OF hoare_flat_set [where R = R, OF that]]) auto
  have read: "hoare (\<lambda>s. kept R D s0 s \<and> PermissionRead = level s a u)
      (bindM (holdsAnythingReadableBy st a u) (\<lambda>reachable. if reachable then returnM ()
         else thenM (wrapM ''removing access'' (ps_SetPermission st a u PermissionNone False))
                (take_back_read st u as)))
      (\<lambda>_. kept R D s0) (levels_rel level R s0)"
  proof (cases "R (level s0 a u) PermissionNone")
    case True
    show ?thesis
      by (rule hoare_pre [where P = "kept R D s0"])
        (intro hoare_intros hoare_holdsAnything remove rest True, simp_all)
  next
    case False
    then have "\<not> (kept R D s0 s \<and> PermissionRead = level s a u)" for s
      using assms(2) by (auto simp: kept_def levels_rel_def) metis
    then show ?thesis
      by (intro hoareI) blast+
  qed
  have "hoare (\<lambda>s. kept R D s0 s \<and> held = level s a u)
      (if held \<noteq> PermissionRead then take_back_read st u as
       else bindM (holdsAnythingReadableBy st a u) (\<lambda>reachable. if reachable then returnM ()
         else thenM (wrapM ''removing access'' (ps_SetPermission st a u PermissionNone False))
                (take_back_read st u as)))
      (\<lambda>_. kept R D s0) (levels_rel level R s0)" for held
    by (rule hoare_if, rule hoare_pre [OF rest]) (use read in auto)
  note body = this
  have "D a"
    by (simp add: Cons.prems)
  then show ?case
    unfolding take_back_read.simps by (rule hoare_bindM [OF hoare_permissionOf [of D] body])
qed

text \<open>The paths a repair reads the access lists of.\<close>

definition read_by :: "move_context \<Rightarrow> string \<Rightarrow> bool" where
  "read_by mv p \<longleftrightarrow> p \<in> {mc_destination mv, Dir (mc_destination mv), Dir (mc_source mv)} \<or>
     (\<exists>stop. p \<in> set (ancestorsOf (mc_source mv) stop) \<union> set (ancestorsOf (mc_destination mv) stop))"

lemma hoare_removeObsolete:
  assumes "\<And>k. R k PermissionRead \<Longrightarrow> R k PermissionNone"
  shows "hoare (kept R (read_by mv) s0) (removeObsoleteAccess st mv) (\<lambda>_. kept R (read_by mv) s0)
    (levels_rel level R s0)"
proof -
  have "read_by mv (Dir (mc_source mv))"
    by (simp add: read_by_def)
  then have read: "hoare (kept R (read_by mv) s0) (ps_ACL st (Dir (mc_source mv)))
      (\<lambda>_. kept R (read_by mv) s0) (levels_rel level R s0)"
    by (intro hoare_conseq [OF hoare_ACL [of "read_by mv"]]) auto
  have "hoare (kept R (read_by mv) s0) (take_back_read st u (ancestorsOf (mc_source mv) stop))
      (\<lambda>_. kept R (read_by mv) s0) (levels_rel level R s0)" for u stop
    by (rule hoare_take_back_read) (auto simp: read_by_def intro: assms)
  with read show ?thesis
    unfolding removeObsoleteAccess_def Let_def by (intro hoare_intros)
qed

text \<open>Moving into an inheriting collection: \<open>dest\<close> and everything not strictly inside it stay
  fresh while access to \<open>dest\<close> is cleared and granted anew.\<close>

abbreviation any :: "permission \<Rightarrow> permission \<Rightarrow> bool" where
  "any \<equiv> (\<lambda>_ _. True)"

definition settled :: "string \<Rightarrow> 's \<Rightarrow> bool" where
  "settled dest s \<longleftrightarrow> kept any (\<lambda>q. q \<in> {dest, Dir dest} \<and> \<not> strictly_inside q dest) s s"

lemma settled_kept: "kept any (\<lambda>q. q \<in> {dest, Dir dest} \<and> \<not> strictly_inside q dest) s0 s \<longleftrightarrow> settled dest s"
  by (simp add: settled_def kept_def levels_rel_def)

lemma hoare_settled_set:
  "hoare (settled dest) (ps_SetPermission st dest u l rec)
     (\<lambda>_ s. settled dest s \<and> level s dest u = l) (\<lambda>_. True)"
  using hoare_any_set [of "\<lambda>q. q \<in> {dest, Dir dest} \<and> \<not> strictly_inside q dest" dest undefined u l rec]
  unfolding settled_kept by (simp add: strictly_inside_def) blast

lemma hoare_clearAccess:
  "hoare (settled (mc_destination mv)) (clearAccess st mv)
     (\<lambda>_ s. settled (mc_destination mv) s \<and>
        (\<forall>u. \<not> ignores mv u \<longrightarrow> level s (mc_destination mv) u = PermissionNone)) (\<lambda>_. True)"
proof -
  let ?d = "mc_destination mv"
  define rest where "rest us s \<longleftrightarrow> (\<forall>u. \<not> ignores mv u \<longrightarrow> u \<notin> set us \<longrightarrow> level s ?d u = PermissionNone)"
    for us :: "string list" and s
  have read: "hoare (settled ?d) (shareesOf st ?d mv) (\<lambda>us s. settled ?d s \<and> rest us s) (\<lambda>_. True)"
    by (rule hoare_conseq [OF hoare_shareesOf [of "\<lambda>q. q \<in> {?d, Dir ?d} \<and> \<not> strictly_inside q ?d" ?d any undefined mv]])
      (unfold settled_kept, auto simp: rest_def strictly_inside_def)
  have one: "hoare (\<lambda>s. settled ?d s \<and> rest us s) (ps_SetPermission st ?d u PermissionNone True)
      (\<lambda>_ s. (settled ?d s \<and> rest us s) \<and> level s ?d u = PermissionNone) (\<lambda>_. True)"
    if "u \<in> set us" for us u
    using that hoareD [OF hoare_settled_set [of ?d u PermissionNone True]]
    by (intro hoareI) (auto simp: rest_def dest: SetPermission_frame, metis SetPermission_frame)
  have keep: "hoare (\<lambda>s. (settled ?d s \<and> rest us s) \<and> level s ?d x = PermissionNone)
      (ps_SetPermission st ?d y PermissionNone True) (\<lambda>_ s. level s ?d x = PermissionNone) (\<lambda>_. True)"
    for us x y
    by (intro hoareI) (auto, metis SetPermission_frame SetPermission_level)
  show ?thesis
    unfolding clearAccess_def
  proof (rule hoare_bindM [OF read])
    fix us
    have "hoare (\<lambda>s. settled ?d s \<and> rest us s)
        (forM (\<lambda>sharee. wrapM ''removing access'' (ps_SetPermission st ?d sharee PermissionNone True)) us)
        (\<lambda>_ s. (settled ?d s \<and> rest us s) \<and> (\<forall>u \<in> set us. level s ?d u = PermissionNone)) (\<lambda>_. True)"
      by (rule hoare_forM_each) (intro hoare_wrapM one keep, assumption?)+
    then show "hoare (\<lambda>s. settled ?d s \<and> rest us s)
        (forM (\<lambda>sharee. wrapM ''removing access'' (ps_SetPermission st ?d sharee PermissionNone True)) us)
        (\<lambda>_ s. settled ?d s \<and> (\<forall>u. \<not> ignores mv u \<longrightarrow> level s ?d u = PermissionNone)) (\<lambda>_. True)"
      by (rule hoare_conseq) (auto simp: rest_def)
  qed
qed

text \<open>The parent's list is read once; its levels do not change while \<open>dest\<close> gets them.\<close>

lemma hoare_grantParentAccess:
  assumes "\<not> IsWithin (Dir (mc_destination mv)) (mc_destination mv)"
  shows "hoare (\<lambda>s. settled (mc_destination mv) s \<and>
        (\<forall>u. \<not> ignores mv u \<longrightarrow> level s (mc_destination mv) u = PermissionNone))
     (grantParentAccess st mv)
     (\<lambda>_ s. \<forall>u. \<not> ignores mv u \<longrightarrow>
        level s (mc_destination mv) u = level s (Dir (mc_destination mv)) u) (\<lambda>_. True)"
proof -
  let ?d = "mc_destination mv" and ?p = "Dir (mc_destination mv)"
  define I where "I es s \<longleftrightarrow> settled ?d s \<and> distinct (map acl_user es) \<and> (\<forall>u. level_of es u = level s ?p u) \<and>
      (\<forall>u. \<not> ignores mv u \<longrightarrow> u \<notin> acl_user ` set es \<longrightarrow> level s ?d u = PermissionNone)" for es s
  define A where "A e s \<longleftrightarrow> ignores mv (acl_user e) \<or> level s ?d (acl_user e) = acl_permission e"
    for e :: acl_entry and s
  have read: "hoare (\<lambda>s. settled ?d s \<and> (\<forall>u. \<not> ignores mv u \<longrightarrow> level s ?d u = PermissionNone))
      (ps_ACL st ?p) I (\<lambda>_. True)"
  proof (intro hoareI)
    fix s es s'
    assume pre: "settled ?d s \<and> (\<forall>u. \<not> ignores mv u \<longrightarrow> level s ?d u = PermissionNone)"
      and run: "ps_ACL st ?p s = (Inr es, s')"
    have "fresh s ?p"
      using pre assms by (simp add: settled_def kept_def strictly_inside_def)
    then show "I es s'"
      using pre ACL_level [OF run] ACL_distinct [OF run] ACL_frame [OF run] ACL_fresh [OF run]
      by (auto simp: I_def settled_def kept_def levels_rel_def)
  qed simp
  have set: "I es s'" "A e s'" if "I es s" "e \<in> set es"
    "ps_SetPermission st ?d (acl_user e) (acl_permission e) True s = (Inr r, s')" for es e s r s'
    using that hoareD [OF hoare_settled_set _ that(3)] SetPermission_outside [OF that(3) assms]
      SetPermission_frame [OF that(3)] by (auto simp: I_def A_def) (metis imageI)
  have one: "hoare (I es) (if ignores mv (acl_user e) then returnM ()
      else wrapM ''granting'' (ps_SetPermission st ?d (acl_user e) (acl_permission e) True))
      (\<lambda>_ s. I es s \<and> A e s) (\<lambda>_. True)" if "e \<in> set es" for es e
    by (intro hoare_if hoare_returnM hoare_wrapM) (auto simp: A_def intro!: hoareI intro: set that SetPermission_level)
  have keep: "hoare (\<lambda>s. I es s \<and> A x s) (if ignores mv (acl_user y) then returnM ()
      else wrapM ''granting'' (ps_SetPermission st ?d (acl_user y) (acl_permission y) True))
      (\<lambda>_ s. A x s) (\<lambda>_. True)" if "x \<in> set es" "y \<in> set es" for es x y
  proof (intro hoare_if hoare_returnM hoare_wrapM hoareI)
    fix s r s'
    assume pre: "I es s \<and> A x s"
      and run: "ps_SetPermission st ?d (acl_user y) (acl_permission y) True s = (Inr r, s')"
    have "acl_permission x = acl_permission y" if "acl_user x = acl_user y"
      using pre \<open>x \<in> set es\<close> \<open>y \<in> set es\<close> that level_of_entry by (metis I_def)
    then show "A x s'"
      using pre SetPermission_frame [OF run, of "acl_user x" ?d] set(2) [OF _ that(2) run]
      by (cases "acl_user x = acl_user y") (auto simp: A_def)
  qed auto
  have final: "level s ?d u = level s ?p u"
    if "I es s" "\<forall>e \<in> set es. A e s" "\<not> ignores mv u" for es s u
  proof (cases "u \<in> acl_user ` set es")
    case True
    then obtain e where "e \<in> set es" "u = acl_user e" by blast
    with that show ?thesis
      using level_of_entry by (fastforce simp: I_def A_def)
  next
    case False
    with that show ?thesis
      using level_of_absent [OF False] by (simp add: I_def)
  qed
  show ?thesis
    unfolding grantParentAccess_def
    by (rule hoare_bindM [OF hoare_wrapM [OF read]], rule hoare_conseq,
        rule hoare_forM_each [where A = A], erule one, erule (1) keep) (use final in blast)+
qed

text \<open>Moving between collections that do not inherit: the two walks, and what the second
  establishes.\<close>

lemma hoare_grant_keeps:
  "hoare (\<lambda>s. PermissionRead \<le> level s q v) (grant_read_on st u p)
     (\<lambda>_ s. PermissionRead \<le> level s q v) (\<lambda>_. True)"
proof -
  have "hoare (\<lambda>s. PermissionRead \<le> level s q v) (ps_ACL st p) (\<lambda>_ s. PermissionRead \<le> level s q v) (\<lambda>_. True)"
    by (intro hoareI) (auto dest: ACL_frame)
  moreover have "hoare (\<lambda>s. PermissionRead \<le> level s q v) (ps_SetPermission st p u PermissionRead False)
      (\<lambda>_ s. PermissionRead \<le> level s q v) (\<lambda>_. True)"
    by (intro hoareI) (auto, metis SetPermission_frame SetPermission_or_not order_refl)
  ultimately show ?thesis
    unfolding grant_read_on_def permissionOf_def by (intro hoare_intros)
qed

lemma grant_keeps_none:
  assumes "v \<noteq> u"
  shows "hoare (\<lambda>s. level s q v = l) (grant_read_on st u p) (\<lambda>_ s. level s q v = l) (\<lambda>_. True)"
proof -
  have "keeps (same_levels level (\<lambda>w. w = v)) (grant_read_on st u p)"
    using assms by (intro keeps_grant_read_on) simp
  then show ?thesis
    by (intro hoareI) (auto dest: keepsD simp: same_levels_def)
qed

lemma hoare_grantAncestorAccess:
  fixes mv :: move_context
  defines "stop \<equiv> (\<lambda>p. IsSharing (mc_layout mv) p \<or> IsTrashBase (mc_layout mv) p)"
  shows "hoare (kept walk_step (read_by mv) s0) (grantAncestorAccess st mv)
     (\<lambda>_ s. levels_rel level walk_step s0 s \<and>
        (\<forall>u a. \<not> ignores mv u \<longrightarrow> level s (mc_destination mv) u \<noteq> PermissionNone \<longrightarrow>
           a \<in> set (ancestorsOf (mc_destination mv) stop) \<longrightarrow> PermissionRead \<le> level s a u))
     (levels_rel level walk_step s0)"
proof -
  let ?d = "mc_destination mv" and ?as = "ancestorsOf (mc_destination mv) stop"
  let ?K = "kept walk_step (read_by mv) s0"
  define rest where "rest us s \<longleftrightarrow> (\<forall>u. \<not> ignores mv u \<longrightarrow> u \<notin> set us \<longrightarrow> level s ?d u = PermissionNone)"
    for us :: "string list" and s
  have rb: "read_by mv a" if "a \<in> set ?as" for a
    using that by (auto simp: read_by_def)
  have step: "hoare (\<lambda>s. ?K s \<and> rest us s) (grant_read_on st u a)
      (\<lambda>_ s. (?K s \<and> rest us s) \<and> PermissionRead \<le> level s a u) (levels_rel level walk_step s0)"
    if "u \<in> set us" "a \<in> set ?as" for us u a
  proof (rule hoareI)
    fix s r s'
    assume pre: "?K s \<and> rest us s" and run: "grant_read_on st u a s = (Inr r, s')"
    have "rest us s'"
      using pre that(1) hoareD [OF grant_keeps_none _ run] by (auto simp: rest_def) metis
    then show "(?K s' \<and> rest us s') \<and> PermissionRead \<le> level s' a u"
      using hoareD [OF hoare_grant_read_on [of "read_by mv" a s0 u] _ run] pre rb [OF that(2)] by blast
  next
    fix s e s'
    assume "?K s \<and> rest us s" "grant_read_on st u a s = (Inl e, s')"
    then show "levels_rel level walk_step s0 s'"
      using hoareD_err [OF hoare_grant_read_on [of "read_by mv" a s0 u]] rb [OF that(2)] by blast
  qed
  have keep: "hoare (\<lambda>s. (?K s \<and> rest us s) \<and> PermissionRead \<le> level s b v) (grant_read_on st u a)
      (\<lambda>_ s. PermissionRead \<le> level s b v) (levels_rel level walk_step s0)" if "u \<in> set us" "a \<in> set ?as" for us u v a b
    by (intro hoareI) (use hoareD [OF hoare_grant_keeps] hoareD_err [OF step [OF that]] in blast)+
  have inner: "hoare (\<lambda>s. ?K s \<and> rest us s) (forM (grant_read_on st u) ?as)
      (\<lambda>_ s. (?K s \<and> rest us s) \<and> (\<forall>a \<in> set ?as. PermissionRead \<le> level s a u))
      (levels_rel level walk_step s0)" if "u \<in> set us" for us u
    by (rule hoare_forM_each) (use step keep that in auto)
  have inner_keep: "hoare (\<lambda>s. (?K s \<and> rest us s) \<and> (\<forall>a \<in> set ?as. PermissionRead \<le> level s a v))
      (forM (grant_read_on st u) ?as) (\<lambda>_ s. \<forall>a \<in> set ?as. PermissionRead \<le> level s a v)
      (levels_rel level walk_step s0)" if "u \<in> set us" for us u v
  proof -
    have "hoare (\<lambda>s. (?K s \<and> rest us s) \<and> (\<forall>a \<in> set ?as. PermissionRead \<le> level s a v)) (grant_read_on st u b)
      (\<lambda>_ s. (?K s \<and> rest us s) \<and> (\<forall>a \<in> set ?as. PermissionRead \<le> level s a v)) (levels_rel level walk_step s0)" if "b \<in> set ?as" for b
      by (intro hoareI) (use hoareD [OF keep [OF \<open>u \<in> set us\<close> that]] hoareD [OF step [OF \<open>u \<in> set us\<close> that]]
        hoareD_err [OF step [OF \<open>u \<in> set us\<close> that]] in blast)+
    note step = this
    show ?thesis
      by (rule hoare_conseq, rule hoare_forM, erule step) auto
  qed
  have outer: "hoare (\<lambda>s. ?K s \<and> rest us s) (forM (\<lambda>u. forM (grant_read_on st u) ?as) us)
      (\<lambda>_ s. (?K s \<and> rest us s) \<and> (\<forall>u \<in> set us. \<forall>a \<in> set ?as. PermissionRead \<le> level s a u))
      (levels_rel level walk_step s0)" for us
    by (rule hoare_forM_each) (use inner inner_keep in auto)
  have read: "hoare ?K (shareesOf st ?d mv) (\<lambda>us s. ?K s \<and> rest us s) (levels_rel level walk_step s0)"
    by (rule hoare_conseq [OF hoare_shareesOf [of "read_by mv"]]) (auto simp: rest_def read_by_def)
  show ?thesis
    unfolding grantAncestorAccess_def Let_def stop_def [symmetric]
    by (rule hoare_bindM [OF read], rule hoare_conseq [OF outer]) (auto simp: rest_def kept_def)
qed

text \<open>The whole repair, by what the two collections' inheritance flags are read as.\<close>

lemma kept_start: "(\<And>k. R k k) \<Longrightarrow> (\<And>q. D q \<Longrightarrow> fresh s q) \<Longrightarrow> kept R D s s"
  by (simp add: kept_def levels_rel_def)

lemma settledI: "kept R (read_by mv) s0 s \<Longrightarrow> settled (mc_destination mv) s"
  by (auto simp: settled_def kept_def levels_rel_def read_by_def)

lemma repair_reads:
  assumes "ps_Inherits st (Dir (mc_source mv)) s = (Inr a, t)"
    and "ps_Inherits st (Dir (mc_destination mv)) t = (Inr b, t')"
    and moved: "Dir (mc_source mv) \<noteq> Dir (mc_destination mv)"
    and start: "\<And>q. read_by mv q \<Longrightarrow> fresh s q" and "\<And>k. R k k"
  shows "RepairPermissions st mv s =
      thenM (if \<not> a then removeObsoleteAccess st mv else returnM ())
        (if b then thenM (clearAccess st mv) (grantParentAccess st mv)
         else if a then clearAccess st mv else grantAncestorAccess st mv) t'"
    and "kept R (read_by mv) s t'"
proof -
  show "RepairPermissions st mv s =
      thenM (if \<not> a then removeObsoleteAccess st mv else returnM ())
        (if b then thenM (clearAccess st mv) (grantParentAccess st mv)
         else if a then clearAccess st mv else grantAncestorAccess st mv) t'"
    using assms(1,2) moved by (simp add: RepairPermissions_def Let_def)
  have "kept R (read_by mv) s t"
    using hoareD [OF hoare_reads(2) kept_start assms(1)] assms by blast
  from hoareD [OF hoare_reads(2) this assms(2)] show "kept R (read_by mv) s t'" .
qed

lemma repair_into_inheriting:
  assumes "ps_Inherits st (Dir (mc_source mv)) s = (Inr a, t)"
    and "ps_Inherits st (Dir (mc_destination mv)) t = (Inr True, t')"
    and "Dir (mc_source mv) \<noteq> Dir (mc_destination mv)"
    and "\<And>q. read_by mv q \<Longrightarrow> fresh s q"
    and run: "RepairPermissions st mv s = (Inr (), s')"
    and outside: "\<not> IsWithin (Dir (mc_destination mv)) (mc_destination mv)"
    and "\<not> ignores mv u"
  shows "level s' (mc_destination mv) u = level s' (Dir (mc_destination mv)) u"
proof -
  note reads = repair_reads [OF assms(1-4), of any]
  let ?K = "kept any (read_by mv) s"
  have obsolete: "hoare ?K (if \<not> a then removeObsoleteAccess st mv else returnM ()) (\<lambda>_. ?K) (\<lambda>_. True)"
    by (rule hoare_if, rule hoare_conseq [OF hoare_removeObsolete]) (auto intro: hoare_returnM)
  have grant: "hoare ?K (thenM (clearAccess st mv) (grantParentAccess st mv))
      (\<lambda>_ s. \<forall>u. \<not> ignores mv u \<longrightarrow>
        level s (mc_destination mv) u = level s (Dir (mc_destination mv)) u) (\<lambda>_. True)"
    by (rule hoare_pre, rule hoare_thenM, rule hoare_clearAccess, rule hoare_grantParentAccess [OF outside])
      (rule settledI)
  from hoareD [OF hoare_thenM_inv [OF obsolete grant] reads(2)] reads(1) run assms(7) show ?thesis
    by simp
qed

lemma repair_between_plain:
  fixes mv :: move_context
  defines "stop \<equiv> (\<lambda>p. IsSharing (mc_layout mv) p \<or> IsTrashBase (mc_layout mv) p)"
  assumes "ps_Inherits st (Dir (mc_source mv)) s = (Inr False, t)"
    and "ps_Inherits st (Dir (mc_destination mv)) t = (Inr False, t')"
    and "Dir (mc_source mv) \<noteq> Dir (mc_destination mv)"
    and "\<And>q. read_by mv q \<Longrightarrow> fresh s q"
    and run: "RepairPermissions st mv s = (r, s')"
  shows "levels_rel level walk_step s s'"
    and "r = Inr () \<Longrightarrow> \<not> ignores mv u \<Longrightarrow> level s' (mc_destination mv) u \<noteq> PermissionNone \<Longrightarrow>
      x \<in> set (ancestorsOf (mc_destination mv) stop) \<Longrightarrow> PermissionRead \<le> level s' x u"
proof -
  have reads: "RepairPermissions st mv s =
      thenM (removeObsoleteAccess st mv) (grantAncestorAccess st mv) t'" "kept walk_step (read_by mv) s t'"
    using repair_reads [OF assms(2-4), of walk_step] assms(5) walk_step_simps(1) by simp_all
  have obsolete: "hoare (kept walk_step (read_by mv) s) (removeObsoleteAccess st mv)
      (\<lambda>_. kept walk_step (read_by mv) s) (levels_rel level walk_step s)"
    by (rule hoare_removeObsolete) (simp add: walk_step_simps)
  note triple = hoare_thenM_inv [OF obsolete hoare_grantAncestorAccess]
  have rest: "thenM (removeObsoleteAccess st mv) (grantAncestorAccess st mv) t' = (r, s')"
    using reads(1) run by simp
  show "levels_rel level walk_step s s'"
    using hoareD [OF triple reads(2)] hoareD_err [OF triple reads(2)] rest by (cases r) fastforce+
  show "r = Inr () \<Longrightarrow> \<not> ignores mv u \<Longrightarrow> level s' (mc_destination mv) u \<noteq> PermissionNone \<Longrightarrow>
      x \<in> set (ancestorsOf (mc_destination mv) stop) \<Longrightarrow> PermissionRead \<le> level s' x u"
    using hoareD [OF triple reads(2)] rest by (auto simp: stop_def)
qed

end

end
