(* ===== verification/RodsScope.thy ===== *)
theory RodsScope
  imports IrodsClient Permissions
begin

text \<open>
  Package \<open>internal/rods\<close>: one request's view of the data store (\<open>scope.go\<close>, \<open>view*.go\<close>,
  \<open>write*.go\<close>, \<open>tickets.go\<close>, \<open>groups.go\<close>, \<open>read.go\<close>), which remembers what it looked up and
  forgets a path it wrote to.  A lookup is dispatched and awaited in one step, so a remembered
  value is its result; several scopes over one data store are several entries of \<open>env_scopes\<close>.

  The locale \<open>irods_backend\<close> says what is relied on of the catalog and of go-irodsclient for
  access control; the scope then satisfies the contracts of theory \<open>Stores\<close>, and the repair of
  permissions has its effect on the data store itself.
\<close>

section \<open>view.go\<close>

definition statOf :: "row \<Rightarrow> stat" where
  "statOf r =
     \<lparr>st_path = row_full_path r,
      st_type = (if IsCollection r then ObjectTypeDir else ObjectTypeFile),
      st_uuid = null_string (row_uuid r), st_info_type = null_string (row_info_type r),
      st_size = row_data_size r, st_created = CreatedMillis r, st_modified = ModifiedMillis r,
      st_permission = row_permission r, st_checksum = row_data_checksum r, st_exists = True\<rparr>"

definition absent_stat :: "string \<Rightarrow> stat" where
  "absent_stat path =
     \<lparr>st_path = path, st_type = ObjectTypeNone, st_uuid = [], st_info_type = [], st_size = 0,
      st_created = 0, st_modified = 0, st_permission = PermissionNone, st_checksum = None,
      st_exists = False\<rparr>"

definition aclOf :: "perm list \<Rightarrow> acl_entry list" where
  "aclOf perms = map (\<lambda>p. \<lparr>acl_user = perm_user_name p, acl_zone = perm_zone p,
     acl_permission = perm_permission p\<rparr>) perms"

section \<open>scope.go\<close>

text \<open>\<open>Deps\<close>; \<open>dep_connect\<close> is the pool opening or reusing the connections of a client user.\<close>

record 'w deps =
  dep_db :: "'w database"
  dep_fs :: "'w filesystem"
  dep_connect :: "string \<Rightarrow> ('w, unit) op"
  dep_proxy :: string
  dep_zone :: string
  dep_attribute :: string

text \<open>\<open>Scope\<close>: the map \<open>memo\<close> is one map per kind of lookup.\<close>

record scope =
  sc_user :: string
  sc_closed :: bool
  sc_sess :: "session option"
  sc_group :: "(gerror + int list) option"
  sc_rows :: "string \<rightharpoonup> row"
  sc_items :: "string \<rightharpoonup> (gerror + row)"
  sc_acls :: "string \<rightharpoonup> (gerror + acl_entry list)"
  sc_avus :: "string \<rightharpoonup> (gerror + avu list)"
  sc_user_exists :: "string \<rightharpoonup> (gerror + bool)"
  sc_user_kinds :: "string \<rightharpoonup> (gerror + user_kind)"
  sc_user_groups :: "string \<rightharpoonup> (gerror + string list)"
  sc_counts :: "string \<rightharpoonup> (gerror + child_counts)"

record 'w env =
  env_world :: 'w
  env_scopes :: "nat \<Rightarrow> scope"

definition upd_scope :: "nat \<Rightarrow> (scope \<Rightarrow> scope) \<Rightarrow> 'w env \<Rightarrow> 'w env" where
  "upd_scope h f s = s\<lparr>env_scopes := (env_scopes s)(h := f (env_scopes s h))\<rparr>"

definition on_world :: "('w, 'a) op \<Rightarrow> ('w env, 'a) op" where
  "on_world m = (\<lambda>s. case m (env_world s) of (r, w) \<Rightarrow> (r, s\<lparr>env_world := w\<rparr>))"

text \<open>\<open>Open\<close>: a user, a catalog and a zone are required; it performs no I/O.\<close>

definition empty_scope :: "string \<Rightarrow> scope" where
  "empty_scope user =
     \<lparr>sc_user = user, sc_closed = False, sc_sess = None, sc_group = None, sc_rows = Map.empty,
      sc_items = Map.empty, sc_acls = Map.empty, sc_avus = Map.empty, sc_user_exists = Map.empty,
      sc_user_kinds = Map.empty, sc_user_groups = Map.empty, sc_counts = Map.empty\<rparr>"

definition Open :: "'w deps \<Rightarrow> nat \<Rightarrow> string \<Rightarrow> ('w env, unit) op" where
  "Open deps h user =
     (if user = [] then failM (Plain ''rods: a user is required'')
      else if dep_zone deps = [] then failM (Plain ''rods: a zone is required'')
      else modifyM (upd_scope h (\<lambda>_. empty_scope user)))"

definition Close :: "nat \<Rightarrow> ('w env, unit) op" where
  "Close h = modifyM (upd_scope h (\<lambda>sc.
     if sc_closed sc then sc else sc\<lparr>sc_closed := True, sc_sess := None\<rparr>))"

text \<open>\<open>Pool.ForUser\<close> as a scope sees it: acting as the proxy account is the administrator's
  session, which has no client user.\<close>

definition ForUser :: "'w deps \<Rightarrow> string \<Rightarrow> ('w, session) op" where
  "ForUser deps user =
     (if user = [] then failM (Plain ''a client user is required; use Admin for the proxy account'')
      else let client = (if user = dep_proxy deps then [] else user)
        in thenM (dep_connect deps client) (returnM \<lparr>sess_user = client, sess_poisoned = False\<rparr>))"

definition scope_session :: "'w deps \<Rightarrow> nat \<Rightarrow> ('w env, session) op" where
  "scope_session deps h = (\<lambda>s.
     let sc = env_scopes s h
     in if sc_closed sc then (Inl ScopeClosed, s)
        else case sc_sess sc of
          Some sess \<Rightarrow> (Inr sess, s)
        | None \<Rightarrow>
            (case on_world (ForUser deps (sc_user sc)) s of
               (Inl err, s') \<Rightarrow> (Inl err, s')
             | (Inr sess, s') \<Rightarrow> (Inr sess, upd_scope h (\<lambda>sc. sc\<lparr>sc_sess := Some sess\<rparr>) s')))"

text \<open>A call of package \<open>irodsclient\<close> on the session the scope holds.\<close>

definition on_session :: "nat \<Rightarrow> session \<Rightarrow> ('w \<times> session, 'a) op \<Rightarrow> ('w env, 'a) op" where
  "on_session h sess m = (\<lambda>s.
     case m (env_world s, sess) of
       (r, (w, sess')) \<Rightarrow> (r, upd_scope h (\<lambda>sc. sc\<lparr>sc_sess := Some sess'\<rparr>) (s\<lparr>env_world := w\<rparr>)))"

definition with_session :: "'w deps \<Rightarrow> nat \<Rightarrow> ('w \<times> session, 'a) op \<Rightarrow> ('w env, 'a) op" where
  "with_session deps h m = bindM (scope_session deps h) (\<lambda>sess. on_session h sess m)"

text \<open>\<open>memoize\<close>: the remembered result, whatever it is, or the one just computed; a closed scope
  starts nothing new.\<close>

definition memoize ::
    "nat \<Rightarrow> (scope \<Rightarrow> string \<Rightarrow> (gerror + 'a) option) \<Rightarrow> (string \<Rightarrow> (gerror + 'a) \<Rightarrow> scope \<Rightarrow> scope) \<Rightarrow>
     string \<Rightarrow> ('w env, 'a) op \<Rightarrow> ('w env, 'a) op" where
  "memoize h get put key build = (\<lambda>s.
     case get (env_scopes s h) key of
       Some r \<Rightarrow> (r, s)
     | None \<Rightarrow>
         if sc_closed (env_scopes s h) then (Inl ScopeClosed, s)
         else case build s of (r, s') \<Rightarrow> (r, upd_scope h (put key r) s'))"

text \<open>\<open>lazy.Go\<close> on the catalog semaphore: a closed scope's context is done.\<close>

definition in_go :: "nat \<Rightarrow> ('w env, 'a) op \<Rightarrow> ('w env, 'a) op" where
  "in_go h m = (\<lambda>s. if sc_closed (env_scopes s h) then (Inl Canceled, s) else m s)"

definition publishRows :: "nat \<Rightarrow> row list \<Rightarrow> ('w env, unit) op" where
  "publishRows h rows = modifyM (upd_scope h (\<lambda>sc.
     sc\<lparr>sc_rows := foldl (\<lambda>m r. m(row_full_path r \<mapsto> r)) (sc_rows sc) rows\<rparr>))"

definition groupIDs :: "'w deps \<Rightarrow> nat \<Rightarrow> ('w env, int list) op" where
  "groupIDs deps h = (\<lambda>s.
     case sc_group (env_scopes s h) of
       Some r \<Rightarrow> (r, s)
     | None \<Rightarrow>
         (case on_world (userGroupIDs (dep_db deps) (sc_user (env_scopes s h)) (dep_zone deps)) s of
            (r, s') \<Rightarrow> (r, upd_scope h (\<lambda>sc. sc\<lparr>sc_group := Some r\<rparr>) s')))"

definition normalizePaths :: "string list \<Rightarrow> string list" where
  "normalizePaths paths = map normalizePath paths"

text \<open>A batch's answers seed the per-path entries that are not there yet.\<close>

definition seed_with :: "(string \<rightharpoonup> 'a) \<Rightarrow> (string \<Rightarrow> 'a option) \<Rightarrow> string list \<Rightarrow> (string \<rightharpoonup> 'a)" where
  "seed_with m f keys = foldl (\<lambda>m k. if m k = None then m(k := f k) else m) m keys"

definition recordAbsent :: "nat \<Rightarrow> string list \<Rightarrow> (string \<times> stat) list \<Rightarrow> ('w env, unit) op" where
  "recordAbsent h requested found = modifyM (upd_scope h (\<lambda>sc. sc\<lparr>sc_items :=
     seed_with (sc_items sc) (\<lambda>p. if map_of found p = None then Some (Inl NoSuchItem) else None) requested\<rparr>))"

definition seedChildCounts :: "nat \<Rightarrow> string list \<Rightarrow> (string \<times> child_counts) list \<Rightarrow> ('w env, unit) op" where
  "seedChildCounts h requested found = modifyM (upd_scope h (\<lambda>sc. sc\<lparr>sc_counts :=
     seed_with (sc_counts sc)
       (\<lambda>p. Some (Inr (case map_of found p of None \<Rightarrow> (0, 0) | Some c \<Rightarrow> c))) requested\<rparr>))"

definition seedACLs :: "nat \<Rightarrow> string list \<Rightarrow> (string \<times> acl_entry list) list \<Rightarrow> ('w env, unit) op" where
  "seedACLs h requested found = modifyM (upd_scope h (\<lambda>sc. sc\<lparr>sc_acls :=
     seed_with (sc_acls sc)
       (\<lambda>p. Some (Inr (case map_of found p of None \<Rightarrow> [] | Some es \<Rightarrow> es))) requested\<rparr>))"

section \<open>viewitem.go\<close>

definition scope_query :: "'w deps \<Rightarrow> nat \<Rightarrow> string list \<Rightarrow> int list \<Rightarrow> 'w env \<Rightarrow> item_query" where
  "scope_query deps h paths ids s =
     \<lparr>iq_paths = paths, iq_user = sc_user (env_scopes s h), iq_zone = dep_zone deps,
      iq_groups = ids, iq_attribute = dep_attribute deps\<rparr>"

definition item :: "'w deps \<Rightarrow> nat \<Rightarrow> string \<Rightarrow> ('w env, row) op" where
  "item deps h path =
     memoize h sc_items (\<lambda>k r sc. sc\<lparr>sc_items := (sc_items sc)(k \<mapsto> r)\<rparr>) (normalizePath path)
       (\<lambda>s. case sc_rows (env_scopes s h) (normalizePath path) of
          Some row \<Rightarrow> (Inr row, s)
        | None \<Rightarrow>
            bindM (groupIDs deps h) (\<lambda>ids s.
              bindM (on_world (GetItem (dep_db deps) (scope_query deps h [normalizePath path] ids s)))
                (\<lambda>row. thenM (publishRows h [row]) (returnM row)) s) s)"

definition Stat :: "'w deps \<Rightarrow> nat \<Rightarrow> string \<Rightarrow> ('w env, stat) op" where
  "Stat deps h path = (\<lambda>s.
     case item deps h (normalizePath path) s of
       (Inl err, s') \<Rightarrow>
         if errors_is NoSuchItem err then (Inr (absent_stat (normalizePath path)), s') else (Inl err, s')
     | (Inr row, s') \<Rightarrow> (Inr (statOf row), s'))"

definition Stats :: "'w deps \<Rightarrow> nat \<Rightarrow> string list \<Rightarrow> ('w env, (string \<times> stat) list) op" where
  "Stats deps h paths0 =
     (let paths = normalizePaths paths0
      in in_go h (if paths = [] then returnM []
         else bindM (groupIDs deps h) (\<lambda>ids s.
           bindM (on_world (getItems (dep_db deps) (scope_query deps h paths ids s))) (\<lambda>rows.
             thenM (publishRows h rows)
               (let out = map (\<lambda>r. (row_full_path r, statOf r)) (rev rows)
                in thenM (recordAbsent h paths out) (returnM out))) s)))"

definition ObjectType :: "'w deps \<Rightarrow> nat \<Rightarrow> string \<Rightarrow> ('w env, object_type) op" where
  "ObjectType deps h path = bindM (Stat deps h path) (\<lambda>st. returnM (st_type st))"

definition scope_Permission :: "'w deps \<Rightarrow> nat \<Rightarrow> string \<Rightarrow> ('w env, permission) op" where
  "scope_Permission deps h path = bindM (Stat deps h path) (\<lambda>st. returnM (st_permission st))"

definition UUID :: "'w deps \<Rightarrow> nat \<Rightarrow> string \<Rightarrow> ('w env, string) op" where
  "UUID deps h path = bindM (Stat deps h path) (\<lambda>st. returnM (st_uuid st))"

section \<open>viewaccess.go\<close>

definition ACL :: "'w deps \<Rightarrow> nat \<Rightarrow> string \<Rightarrow> ('w env, acl_entry list) op" where
  "ACL deps h path =
     memoize h sc_acls (\<lambda>k r sc. sc\<lparr>sc_acls := (sc_acls sc)(k \<mapsto> r)\<rparr>) (normalizePath path)
       (bindM (on_world (permsForItems (dep_db deps) [normalizePath path]))
          (\<lambda>perms. returnM (aclOf perms)))"

text \<open>The rows grouped by their path; \<open>remdups\<close> lists each path once.\<close>

definition group_perms :: "perm list \<Rightarrow> (string \<times> acl_entry list) list" where
  "group_perms perms =
     map (\<lambda>p. (p, aclOf (filter (\<lambda>x. perm_full_path x = p) perms))) (remdups (map perm_full_path perms))"

definition ACLs :: "'w deps \<Rightarrow> nat \<Rightarrow> string list \<Rightarrow> ('w env, (string \<times> acl_entry list) list) op" where
  "ACLs deps h paths0 =
     (let paths = normalizePaths paths0
      in in_go h (if paths = [] then returnM []
         else bindM (on_world (permsForItems (dep_db deps) paths)) (\<lambda>perms.
           thenM (seedACLs h paths (group_perms perms)) (returnM (group_perms perms)))))"

definition AVUs :: "'w deps \<Rightarrow> nat \<Rightarrow> string \<Rightarrow> ('w env, avu list) op" where
  "AVUs deps h path =
     memoize h sc_avus (\<lambda>k r sc. sc\<lparr>sc_avus := (sc_avus sc)(k \<mapsto> r)\<rparr>) (normalizePath path)
       (with_session deps h (ListAVUs (dep_fs deps) (normalizePath path)))"

definition UserExists :: "'w deps \<Rightarrow> nat \<Rightarrow> string \<Rightarrow> ('w env, bool) op" where
  "UserExists deps h user =
     memoize h sc_user_exists (\<lambda>k r sc. sc\<lparr>sc_user_exists := (sc_user_exists sc)(k \<mapsto> r)\<rparr>) user
       (bindM (on_world (lookupUser (dep_db deps) user (dep_zone deps)))
          (\<lambda>kind. returnM (kind \<noteq> UserKindNone \<and> kind \<noteq> UserKindGroup)))"

definition UserKind :: "'w deps \<Rightarrow> nat \<Rightarrow> string \<Rightarrow> ('w env, user_kind) op" where
  "UserKind deps h user =
     memoize h sc_user_kinds (\<lambda>k r sc. sc\<lparr>sc_user_kinds := (sc_user_kinds sc)(k \<mapsto> r)\<rparr>) user
       (on_world (lookupUser (dep_db deps) user (dep_zone deps)))"

definition UserGroups :: "'w deps \<Rightarrow> nat \<Rightarrow> string \<Rightarrow> ('w env, string list) op" where
  "UserGroups deps h user =
     memoize h sc_user_groups (\<lambda>k r sc. sc\<lparr>sc_user_groups := (sc_user_groups sc)(k \<mapsto> r)\<rparr>) user
       (on_world (userGroupNames (dep_db deps) user (dep_zone deps)))"

section \<open>viewlisting.go\<close>

definition ChildCounts :: "'w deps \<Rightarrow> nat \<Rightarrow> string \<Rightarrow> ('w env, child_counts) op" where
  "ChildCounts deps h path =
     memoize h sc_counts (\<lambda>k r sc. sc\<lparr>sc_counts := (sc_counts sc)(k \<mapsto> r)\<rparr>) (normalizePath path)
       (bindM (groupIDs deps h) (\<lambda>ids s.
          on_world (countChildren (dep_db deps) (normalizePath path) (sc_user (env_scopes s h))
            (dep_zone deps) ids) s))"

definition PathsForUUIDs :: "'w deps \<Rightarrow> nat \<Rightarrow> string list \<Rightarrow> ('w env, (string \<times> string) list) op" where
  "PathsForUUIDs deps h uuids =
     in_go h (if uuids = [] then returnM []
       else bindM (on_world (pathsForUUIDs (dep_db deps) uuids)) (\<lambda>found. returnM (rev found)))"

definition ChildCountsFor :: "'w deps \<Rightarrow> nat \<Rightarrow> string list \<Rightarrow> ('w env, (string \<times> child_counts) list) op" where
  "ChildCountsFor deps h paths0 =
     (let paths = normalizePaths paths0
      in in_go h (if paths = [] then returnM []
         else bindM (groupIDs deps h) (\<lambda>ids s.
           bindM (on_world (countChildrenBatch (dep_db deps) paths (sc_user (env_scopes s h))
               (dep_zone deps) ids))
             (\<lambda>rows. thenM (seedChildCounts h paths (rev rows)) (returnM (rev rows))) s)))"

definition scoped_listing :: "'w deps \<Rightarrow> nat \<Rightarrow> listing_query \<Rightarrow> int list \<Rightarrow> 'w env \<Rightarrow> listing_query" where
  "scoped_listing deps h q ids s =
     q\<lparr>lq_path := normalizePath (lq_path q), lq_user := sc_user (env_scopes s h),
       lq_zone := dep_zone deps, lq_groups := ids,
       lq_attribute := (if lq_attribute q = [] then dep_attribute deps else lq_attribute q)\<rparr>"

definition Listing :: "'w deps \<Rightarrow> nat \<Rightarrow> listing_query \<Rightarrow> ('w env, row list) op" where
  "Listing deps h q =
     in_go h (bindM (groupIDs deps h) (\<lambda>ids s.
       bindM (on_world (pagedFolder (dep_db deps) (scoped_listing deps h q ids s)))
         (\<lambda>rows. thenM (publishRows h rows) (returnM rows)) s))"

definition Subfolders :: "'w deps \<Rightarrow> nat \<Rightarrow> string \<Rightarrow> ('w env, row list) op" where
  "Subfolders deps h path =
     in_go h (bindM (groupIDs deps h) (\<lambda>ids s.
       bindM (on_world (foldersInFolder (dep_db deps)
           \<lparr>lq_path = normalizePath path, lq_user = sc_user (env_scopes s h), lq_zone = dep_zone deps,
            lq_groups = ids, lq_info_types = [], lq_include_unknown = False, lq_entity = None,
            lq_attribute = [], lq_column = [], lq_direction = SortUnset, lq_limit = 0, lq_offset = 0\<rparr>))
         (\<lambda>rows. thenM (publishRows h rows) (returnM rows)) s))"

definition scoped_uuids :: "'w deps \<Rightarrow> nat \<Rightarrow> uuid_listing_query \<Rightarrow> int list \<Rightarrow> 'w env \<Rightarrow> uuid_listing_query" where
  "scoped_uuids deps h q ids s =
     q\<lparr>uq_user := sc_user (env_scopes s h), uq_zone := dep_zone deps, uq_groups := ids,
       uq_attribute := (if uq_attribute q = [] then dep_attribute deps else uq_attribute q)\<rparr>"

definition UUIDListing :: "'w deps \<Rightarrow> nat \<Rightarrow> uuid_listing_query \<Rightarrow> ('w env, row list) op" where
  "UUIDListing deps h q =
     in_go h (bindM (groupIDs deps h) (\<lambda>ids s.
       bindM (on_world (pagedUUIDs (dep_db deps) (scoped_uuids deps h q ids s)))
         (\<lambda>rows. thenM (publishRows h rows) (returnM rows)) s))"

definition UUIDCount :: "'w deps \<Rightarrow> nat \<Rightarrow> uuid_listing_query \<Rightarrow> ('w env, int) op" where
  "UUIDCount deps h q =
     in_go h (bindM (groupIDs deps h) (\<lambda>ids s.
       on_world (countUUIDs (dep_db deps) (scoped_uuids deps h q ids s)) s))"

section \<open>write.go and writemeta.go\<close>

definition invalidate :: "nat \<Rightarrow> string \<Rightarrow> ('w env, unit) op" where
  "invalidate h path = modifyM (upd_scope h (\<lambda>sc. sc\<lparr>
     sc_rows := (sc_rows sc)(path := None), sc_items := (sc_items sc)(path := None),
     sc_acls := (sc_acls sc)(path := None), sc_avus := (sc_avus sc)(path := None),
     sc_counts := (sc_counts sc)(path := None)\<rparr>))"

definition Invalidate :: "nat \<Rightarrow> string \<Rightarrow> ('w env, unit) op" where
  "Invalidate h path = invalidate h (normalizePath path)"

definition recurseIfCollection :: "'w deps \<Rightarrow> nat \<Rightarrow> string \<Rightarrow> bool \<Rightarrow> ('w env, bool) op" where
  "recurseIfCollection deps h path recurse =
     (if \<not> recurse then returnM False
      else bindM (Stat deps h path) (\<lambda>st. returnM (st_type st = ObjectTypeDir)))"

definition MakeDir :: "'w deps \<Rightarrow> nat \<Rightarrow> string \<Rightarrow> bool \<Rightarrow> ('w env, unit) op" where
  "MakeDir deps h path recurse =
     thenM (with_session deps h (ops_MakeDir (dep_fs deps) (normalizePath path) recurse))
       (invalidate h (normalizePath path))"

definition SetPermission ::
    "'w deps \<Rightarrow> nat \<Rightarrow> string \<Rightarrow> string \<Rightarrow> permission \<Rightarrow> bool \<Rightarrow> ('w env, unit) op" where
  "SetPermission deps h path user lvl recurse =
     bindM (scope_session deps h) (\<lambda>sess.
     bindM (recurseIfCollection deps h (normalizePath path) recurse) (\<lambda>recurse'.
     thenM (on_session h sess (SetACL (dep_fs deps) (normalizePath path) lvl user (dep_zone deps)
              recurse' (\<not> IsProxied sess)))
       (invalidate h (normalizePath path))))"

definition SetOwner :: "'w deps \<Rightarrow> nat \<Rightarrow> string \<Rightarrow> string \<Rightarrow> bool \<Rightarrow> ('w env, unit) op" where
  "SetOwner deps h path user recurse =
     bindM (scope_session deps h) (\<lambda>sess.
     bindM (recurseIfCollection deps h (normalizePath path) recurse) (\<lambda>recurse'.
     thenM (on_session h sess (SetACL (dep_fs deps) (normalizePath path) PermissionOwn user
              (dep_zone deps) recurse' (\<not> IsProxied sess)))
       (invalidate h (normalizePath path))))"

definition Rename :: "'w deps \<Rightarrow> nat \<Rightarrow> string \<Rightarrow> string \<Rightarrow> ('w env, unit) op" where
  "Rename deps h from to =
     thenM (with_session deps h (RenameFile (dep_fs deps) (normalizePath from) (normalizePath to)))
       (thenM (invalidate h (normalizePath from)) (invalidate h (normalizePath to)))"

definition DeleteFile :: "'w deps \<Rightarrow> nat \<Rightarrow> string \<Rightarrow> bool \<Rightarrow> ('w env, unit) op" where
  "DeleteFile deps h path force =
     thenM (with_session deps h (RemoveFile (dep_fs deps) (normalizePath path) force))
       (invalidate h (normalizePath path))"

definition FileExists :: "'w deps \<Rightarrow> nat \<Rightarrow> string \<Rightarrow> ('w env, bool) op" where
  "FileExists deps h path = with_session deps h (ExistsFile (dep_fs deps) (normalizePath path))"

definition Checksum :: "'w deps \<Rightarrow> nat \<Rightarrow> string \<Rightarrow> ('w env, string) op" where
  "Checksum deps h path =
     bindM (with_session deps h (ops_Checksum (dep_fs deps) (normalizePath path) []))
       (\<lambda>sum. thenM (invalidate h (normalizePath path)) (returnM sum))"

definition Move :: "'w deps \<Rightarrow> nat \<Rightarrow> string \<Rightarrow> string \<Rightarrow> ('w env, unit) op" where
  "Move deps h from to =
     thenM (with_session deps h (ops_Move (dep_fs deps) (normalizePath from) (normalizePath to)))
       (thenM (invalidate h (normalizePath from)) (invalidate h (normalizePath to)))"

definition Delete :: "'w deps \<Rightarrow> nat \<Rightarrow> string \<Rightarrow> bool \<Rightarrow> ('w env, unit) op" where
  "Delete deps h path force =
     bindM (scope_session deps h) (\<lambda>sess.
     bindM (Stat deps h (normalizePath path)) (\<lambda>st.
     thenM (on_session h sess
         (if st_type st = ObjectTypeDir then RemoveDir (dep_fs deps) (normalizePath path) True force
          else RemoveFile (dep_fs deps) (normalizePath path) force))
       (invalidate h (normalizePath path))))"

definition SetInherit :: "'w deps \<Rightarrow> nat \<Rightarrow> string \<Rightarrow> bool \<Rightarrow> bool \<Rightarrow> ('w env, unit) op" where
  "SetInherit deps h path inherit recurse =
     bindM (scope_session deps h) (\<lambda>sess.
     bindM (Stat deps h (normalizePath path)) (\<lambda>st.
       if st_type st \<noteq> ObjectTypeDir then returnM ()
       else thenM (on_session h sess
              (ops_SetInherit (dep_fs deps) (normalizePath path) inherit recurse False))
            (invalidate h (normalizePath path))))"

definition Inherits :: "'w deps \<Rightarrow> nat \<Rightarrow> string \<Rightarrow> ('w env, bool) op" where
  "Inherits deps h path = with_session deps h (ops_Inherits (dep_fs deps) (normalizePath path))"

definition Children :: "'w deps \<Rightarrow> nat \<Rightarrow> string \<Rightarrow> ('w env, string list) op" where
  "Children deps h path =
     bindM (with_session deps h (ops_List (dep_fs deps) (normalizePath path)))
       (\<lambda>entries. returnM (map fe_path entries))"

text \<open>\<open>ChildEntries\<close> of \<open>read.go\<close>: the members with whether each is a collection.\<close>

definition ChildEntries :: "'w deps \<Rightarrow> nat \<Rightarrow> string \<Rightarrow> ('w env, (string \<times> bool) list) op" where
  "ChildEntries deps h path =
     bindM (with_session deps h (ops_List (dep_fs deps) (normalizePath path)))
       (\<lambda>entries. returnM (map (\<lambda>e. (fe_path e, fe_is_dir e)) entries))"

text \<open>\<open>SetAVU\<close>, \<open>AddAVUIfAbsent\<close> and \<open>DeleteAVU\<close> list the metadata afresh and change it on one
  session.\<close>

definition SetAVU :: "'w deps \<Rightarrow> nat \<Rightarrow> string \<Rightarrow> avu \<Rightarrow> ('w env, unit) op" where
  "SetAVU deps h path a =
     thenM (with_session deps h
       (bindM (ListAVUs (dep_fs deps) (normalizePath path)) (\<lambda>existing.
          thenM (forM (\<lambda>current.
              if avu_attribute current \<noteq> avu_attribute a then returnM ()
              else ops_DeleteAVU (dep_fs deps) (normalizePath path) current) existing)
            (AddAVU (dep_fs deps) (normalizePath path) a))))
       (invalidate h (normalizePath path))"

definition AddAVUIfAbsent :: "'w deps \<Rightarrow> nat \<Rightarrow> string \<Rightarrow> avu \<Rightarrow> ('w env, unit) op" where
  "AddAVUIfAbsent deps h path a =
     bindM (with_session deps h
       (bindM (ListAVUs (dep_fs deps) (normalizePath path)) (\<lambda>existing.
          if list_ex (\<lambda>c. avu_attribute c = avu_attribute a \<and> avu_value c = avu_value a) existing
          then returnM False
          else thenM (AddAVU (dep_fs deps) (normalizePath path) a) (returnM True))))
       (\<lambda>added. if added then invalidate h (normalizePath path) else returnM ())"

definition DeleteAVU :: "'w deps \<Rightarrow> nat \<Rightarrow> string \<Rightarrow> avu \<Rightarrow> ('w env, unit) op" where
  "DeleteAVU deps h path a =
     thenM (with_session deps h
       (bindM (ListAVUs (dep_fs deps) (normalizePath path)) (\<lambda>existing.
          forM (\<lambda>current.
            if avu_attribute current \<noteq> avu_attribute a \<or> avu_value current \<noteq> avu_value a then returnM ()
            else ops_DeleteAVU (dep_fs deps) (normalizePath path) current) existing)))
       (invalidate h (normalizePath path))"

section \<open>tickets.go and groups.go\<close>

definition Tickets :: "'w deps \<Rightarrow> nat \<Rightarrow> ('w env, ticket list) op" where
  "Tickets deps h = with_session deps h (ListTickets (dep_fs deps))"

definition ticketsMatching :: "'w deps \<Rightarrow> nat \<Rightarrow> string \<Rightarrow> bool \<Rightarrow> ('w env, ticket list) op" where
  "ticketsMatching deps h path includeDescendants =
     bindM (Tickets deps h) (\<lambda>all. returnM (matchTickets all path includeDescendants))"

definition TicketsForPath :: "'w deps \<Rightarrow> nat \<Rightarrow> string \<Rightarrow> ('w env, ticket list) op" where
  "TicketsForPath deps h path = ticketsMatching deps h path False"

definition GetTicket :: "'w deps \<Rightarrow> nat \<Rightarrow> string \<Rightarrow> ('w env, ticket option) op" where
  "GetTicket deps h name =
     bindM (Tickets deps h) (\<lambda>all. returnM (find (\<lambda>t. ticket_name t = name) all))"

definition CreateTicket :: "'w deps \<Rightarrow> nat \<Rightarrow> string \<Rightarrow> string \<Rightarrow> string \<Rightarrow> ('w env, unit) op" where
  "CreateTicket deps h name type path =
     with_session deps h (ops_CreateTicket (dep_fs deps) name type (normalizePath path))"

definition SetTicketLimits :: "'w deps \<Rightarrow> nat \<Rightarrow> string \<Rightarrow> int option \<Rightarrow> int option \<Rightarrow> ('w env, unit) op" where
  "SetTicketLimits deps h name uses fileWrite =
     with_session deps h (ops_SetTicketLimits (dep_fs deps) name uses fileWrite)"

definition PublicGroup :: string where "PublicGroup = ''public''"

definition PublicizeTicket :: "'w deps \<Rightarrow> nat \<Rightarrow> string \<Rightarrow> ('w env, unit) op" where
  "PublicizeTicket deps h name = with_session deps h (AddTicketGroup (dep_fs deps) name PublicGroup)"

definition DeleteTicket :: "'w deps \<Rightarrow> nat \<Rightarrow> string \<Rightarrow> ('w env, unit) op" where
  "DeleteTicket deps h name = with_session deps h (ops_DeleteTicket (dep_fs deps) name)"

definition CreateGroup :: "'w deps \<Rightarrow> nat \<Rightarrow> string \<Rightarrow> ('w env, unit) op" where
  "CreateGroup deps h name = with_session deps h (ops_CreateGroup (dep_fs deps) name (dep_zone deps))"

definition DeleteGroup :: "'w deps \<Rightarrow> nat \<Rightarrow> string \<Rightarrow> ('w env, unit) op" where
  "DeleteGroup deps h name = with_session deps h (ops_DeleteGroup (dep_fs deps) name (dep_zone deps))"

definition AddGroupMemberIn :: "'w deps \<Rightarrow> nat \<Rightarrow> string \<Rightarrow> string \<Rightarrow> string \<Rightarrow> ('w env, unit) op" where
  "AddGroupMemberIn deps h grp user zone =
     with_session deps h (ops_AddGroupMember (dep_fs deps) grp user zone)"

definition AddGroupMember :: "'w deps \<Rightarrow> nat \<Rightarrow> string \<Rightarrow> string \<Rightarrow> ('w env, unit) op" where
  "AddGroupMember deps h grp user = AddGroupMemberIn deps h grp user (dep_zone deps)"

definition RemoveGroupMemberIn :: "'w deps \<Rightarrow> nat \<Rightarrow> string \<Rightarrow> string \<Rightarrow> string \<Rightarrow> ('w env, unit) op" where
  "RemoveGroupMemberIn deps h grp user zone =
     with_session deps h (ops_RemoveGroupMember (dep_fs deps) grp user zone)"

definition RemoveGroupMember :: "'w deps \<Rightarrow> nat \<Rightarrow> string \<Rightarrow> string \<Rightarrow> ('w env, unit) op" where
  "RemoveGroupMember deps h grp user = RemoveGroupMemberIn deps h grp user (dep_zone deps)"

definition GroupMembers :: "'w deps \<Rightarrow> nat \<Rightarrow> string \<Rightarrow> ('w env, string list) op" where
  "GroupMembers deps h grp = with_session deps h (ListGroupMembers (dep_fs deps) grp (dep_zone deps))"

definition GroupExists :: "'w deps \<Rightarrow> nat \<Rightarrow> string \<Rightarrow> ('w env, bool) op" where
  "GroupExists deps h grp = with_session deps h (ops_GroupExists (dep_fs deps) grp (dep_zone deps))"

section \<open>The scope as a store\<close>

text \<open>A \<open>*rods.Scope\<close> passed where the packages above ask for an interface.\<close>

definition scope_store :: "'w deps \<Rightarrow> nat \<Rightarrow> 'w env job_store" where
  "scope_store deps h =
     \<lparr>ps_ACL = ACL deps h, ps_ACLs = ACLs deps h, ps_Inherits = Inherits deps h,
      ps_Children = Children deps h, ps_SetPermission = SetPermission deps h,
      ss_Stat = Stat deps h, ss_SetInherit = SetInherit deps h,
      js_AVUs = AVUs deps h, js_SetAVU = SetAVU deps h, js_Move = Move deps h,
      js_Delete = Delete deps h, js_MakeDir = MakeDir deps h, js_SetOwner = SetOwner deps h,
      js_Tickets = Tickets deps h, js_DeleteTicket = DeleteTicket deps h\<rparr>"

lemma scope_store_simps [simp]:
  "ps_ACL (scope_store deps h) = ACL deps h" "ps_ACLs (scope_store deps h) = ACLs deps h"
  "ps_Inherits (scope_store deps h) = Inherits deps h" "ps_Children (scope_store deps h) = Children deps h"
  "ps_SetPermission (scope_store deps h) = SetPermission deps h"
  "ss_Stat (scope_store deps h) = Stat deps h" "ss_SetInherit (scope_store deps h) = SetInherit deps h"
  "js_AVUs (scope_store deps h) = AVUs deps h" "js_SetAVU (scope_store deps h) = SetAVU deps h"
  "js_Move (scope_store deps h) = Move deps h" "js_Delete (scope_store deps h) = Delete deps h"
  "js_MakeDir (scope_store deps h) = MakeDir deps h" "js_SetOwner (scope_store deps h) = SetOwner deps h"
  "js_Tickets (scope_store deps h) = Tickets deps h" "js_DeleteTicket (scope_store deps h) = DeleteTicket deps h"
  by (simp_all add: scope_store_def)

end
