(* ===== verification/ScopeAccess.thy ===== *)
theory ScopeAccess
  imports RodsScope
begin

text \<open>
  Access control through the request scope.  The locale \<open>irods_backend\<close> states what is relied on
  of the catalog and of go-irodsclient; under it the scope satisfies the contracts \<open>acl_frame\<close>
  and \<open>acl_store\<close>, so what theory \<open>Permissions\<close> proves of any store holds of the data store
  behind a scope.  \<open>mem_deps\<close> is a data store in memory that satisfies the laws; it is the
  instance the witnesses run on.
\<close>

text \<open>Which access lists a scope may be believed on: a remembered one reports what users hold,
  each once.\<close>

definition remembers_truly ::
    "('w \<Rightarrow> string \<Rightarrow> string \<Rightarrow> permission) \<Rightarrow> nat \<Rightarrow> 'w env \<Rightarrow> string \<Rightarrow> bool" where
  "remembers_truly level h s p \<longleftrightarrow>
     (case sc_acls (env_scopes s h) p of
        Some (Inr es) \<Rightarrow> (\<forall>u. level_of es u = level (env_world s) p u) \<and> distinct (map acl_user es)
      | _ \<Rightarrow> True)"

section \<open>What the data store promises\<close>

locale irods_backend =
  fixes deps :: "'w deps" and level :: "'w \<Rightarrow> string \<Rightarrow> string \<Rightarrow> permission"
  assumes group_ids_frame: "db_user_group_ids (dep_db deps) user z w = (r1, w') \<Longrightarrow> level w' = level w"
    and get_items_frame: "db_get_items (dep_db deps) ds bs user z gs a w = (r2, w') \<Longrightarrow> level w' = level w"
    and perms_frame: "db_perms_for_items (dep_db deps) ds bs w = (r3, w') \<Longrightarrow> level w' = level w"
    and list_frame: "fs_list (dep_fs deps) c p w = (r4, w') \<Longrightarrow> level w' = level w"
    and inheritance_frame: "fs_get_inheritance (dep_fs deps) c p w = (r5, w') \<Longrightarrow> level w' = level w"
    and set_inheritance_frame:
      "fs_change_inheritance (dep_fs deps) c p on rec adm w = (r8, w') \<Longrightarrow> level w' = level w"
    and connect_frame: "dep_connect deps c w = (r6, w') \<Longrightarrow> level w' = level w"
    and perms_level:
      "db_perms_for_items (dep_db deps) ds bs w = (Inr rows, w') \<Longrightarrow> splitPaths ps = Inr (ds, bs) \<Longrightarrow>
       p \<in> set ps \<Longrightarrow> canonical p \<Longrightarrow>
       level_of (aclOf (filter (\<lambda>x. perm_full_path x = p) rows)) u = level w p u"
    and perms_distinct:
      "db_perms_for_items (dep_db deps) ds bs w = (Inr rows, w') \<Longrightarrow> splitPaths ps = Inr (ds, bs) \<Longrightarrow>
       p \<in> set ps \<Longrightarrow> canonical p \<Longrightarrow>
       distinct (map perm_user_name (filter (\<lambda>x. perm_full_path x = p) rows))"
    and perms_only:
      "db_perms_for_items (dep_db deps) ds bs w = (Inr rows, w') \<Longrightarrow> splitPaths [p] = Inr (ds, bs) \<Longrightarrow>
       canonical p \<Longrightarrow> x \<in> set rows \<Longrightarrow> perm_full_path x = p"
    and change_level:
      "fs_change_acls (dep_fs deps) c p l u (dep_zone deps) rec adm w = (Inr (), w') \<Longrightarrow> level w' p u = l"
    and change_or_not:
      "fs_change_acls (dep_fs deps) c p l u z rec adm w = (r7, w') \<Longrightarrow>
       level w' q u = level w q u \<or> level w' q u = l"
    and change_other:
      "fs_change_acls (dep_fs deps) c p l u z rec adm w = (r7, w') \<Longrightarrow> v \<noteq> u \<Longrightarrow> level w' q v = level w q v"
    and change_outside:
      "fs_change_acls (dep_fs deps) c p l u z rec adm w = (r7, w') \<Longrightarrow> \<not> IsWithin q p \<Longrightarrow>
       level w' q v = level w q v"
    and change_flat:
      "fs_change_acls (dep_fs deps) c p l u z False adm w = (r7, w') \<Longrightarrow> q \<noteq> p \<Longrightarrow>
       level w' q v = level w q v"
begin

text \<open>Reading: the levels of the data store and the scope's access lists stay as they are.\<close>

definition undisturbed :: "nat \<Rightarrow> 'w env \<Rightarrow> 'w env \<Rightarrow> bool" where
  "undisturbed h s s' \<longleftrightarrow> level (env_world s') = level (env_world s) \<and>
     sc_acls (env_scopes s' h) = sc_acls (env_scopes s h)"

lemma preorder_undisturbed: "preorder_rel (undisturbed h)"
  by (rule preorder_relI) (auto simp: undisturbed_def)

lemma undisturbed_on_world:
  "(\<And>w r w'. m w = (r, w') \<Longrightarrow> level w' = level w) \<Longrightarrow> keeps (undisturbed h) (on_world m)"
  by (rule keepsI) (auto simp: undisturbed_def on_world_def split: prod.splits)

lemma undisturbed_upd_scope:
  "(\<And>sc. sc_acls (f sc) = sc_acls sc) \<Longrightarrow> undisturbed h s t \<Longrightarrow> undisturbed h s (upd_scope k f t)"
  by (auto simp: undisturbed_def upd_scope_def)

lemma queryM_frame:
  "queryM t m w = (r, w') \<Longrightarrow> (\<And>r w'. m w = (r, w') \<Longrightarrow> level w' = level w) \<Longrightarrow> level w' = level w"
  by (auto simp: queryM_def split: prod.splits sum.splits)

lemma getItems_frame: "getItems (dep_db deps) q w = (r, w') \<Longrightarrow> level w' = level w"
  by (auto simp: getItems_def split: if_splits sum.splits elim!: queryM_frame dest: get_items_frame)

lemma GetItem_frame: "GetItem (dep_db deps) q w = (r, w') \<Longrightarrow> level w' = level w"
  by (auto simp: GetItem_def bindM_def split: if_splits sum.splits prod.splits list.splits
      dest: getItems_frame)

lemma userGroupIDs_frame: "userGroupIDs (dep_db deps) user z w = (r, w') \<Longrightarrow> level w' = level w"
  by (auto simp: userGroupIDs_def split: if_splits elim!: queryM_frame dest: group_ids_frame)

lemma permsForItems_frame: "permsForItems (dep_db deps) ps w = (r, w') \<Longrightarrow> level w' = level w"
  by (auto simp: permsForItems_def split: if_splits sum.splits elim!: queryM_frame dest: perms_frame)

lemma ForUser_frame: "ForUser deps user w = (r, w') \<Longrightarrow> level w' = level w"
  by (auto simp: ForUser_def Let_def thenM_def bindM_def split: if_splits prod.splits sum.splits
      dest: connect_frame)

lemma undisturbed_world_ops:
  "keeps (undisturbed h) (on_world (userGroupIDs (dep_db deps) user z))"
  "keeps (undisturbed h) (on_world (GetItem (dep_db deps) q))"
  "keeps (undisturbed h) (on_world (permsForItems (dep_db deps) ps))"
  "keeps (undisturbed h) (on_world (ForUser deps user))"
  by (rule undisturbed_on_world, erule userGroupIDs_frame GetItem_frame permsForItems_frame ForUser_frame)+

lemma undisturbed_groupIDs: "keeps (undisturbed h) (groupIDs deps k)"
proof (rule keepsI)
  fix s r s'
  assume run: "groupIDs deps k s = (r, s')"
  show "undisturbed h s s'"
  proof (cases "sc_group (env_scopes s k)")
    case None
    then obtain t where "on_world (userGroupIDs (dep_db deps) (sc_user (env_scopes s k)) (dep_zone deps)) s = (r, t)"
      and s': "s' = upd_scope k (\<lambda>sc. sc\<lparr>sc_group := Some r\<rparr>) t"
      using run by (auto simp: groupIDs_def split: prod.splits)
    then have "undisturbed h s t"
      using keepsD [OF undisturbed_world_ops(1)] by blast
    then show ?thesis
      unfolding s' by (rule undisturbed_upd_scope [rotated]) simp
  qed (use run in \<open>auto simp: groupIDs_def undisturbed_def\<close>)
qed

lemma undisturbed_publish: "keeps (undisturbed h) (publishRows k rows)"
  by (rule keepsI) (auto simp: publishRows_def undisturbed_def upd_scope_def)

lemma undisturbed_item: "keeps (undisturbed h) (item deps k path)"
proof -
  have rows: "keeps (undisturbed h) (bindM (groupIDs deps k) (\<lambda>ids s.
      bindM (on_world (GetItem (dep_db deps) (scope_query deps k ps ids s)))
        (\<lambda>row. thenM (publishRows k [row]) (returnM row)) s))" for ps
  proof (rule keeps_bindM [OF preorder_undisturbed undisturbed_groupIDs])
    fix ids
    have "keeps (undisturbed h) (bindM (on_world (GetItem (dep_db deps) q))
        (\<lambda>row. thenM (publishRows k [row]) (returnM row)))" for q
      by (intro keeps_intros preorder_undisturbed undisturbed_publish undisturbed_world_ops)
    then show "keeps (undisturbed h) (\<lambda>s. bindM (on_world (GetItem (dep_db deps)
        (scope_query deps k ps ids s))) (\<lambda>row. thenM (publishRows k [row]) (returnM row)) s)"
      by (auto simp: keeps_def)
  qed
  show ?thesis
  proof (rule keepsI)
    fix s r s'
    assume "item deps k path s = (r, s')"
    then show "undisturbed h s s'"
      unfolding item_def memoize_def
      by (auto split: option.splits if_splits prod.splits intro!: undisturbed_upd_scope
          dest: keepsD [OF rows] simp: preorder_rel_refl [OF preorder_undisturbed])
  qed
qed

lemma undisturbed_Stat: "keeps (undisturbed h) (Stat deps k path)"
proof (rule keepsI)
  fix s r s'
  assume run: "Stat deps k path s = (r, s')"
  then have "\<exists>r. item deps k (normalizePath path) s = (r, s')"
    by (auto simp: Stat_def split: prod.splits sum.splits if_splits)
  then show "undisturbed h s s'"
    by (auto dest: keepsD [OF undisturbed_item])
qed

lemma undisturbed_session: "keeps (undisturbed h) (scope_session deps k)"
proof (rule keepsI)
  fix s r s'
  assume run: "scope_session deps k s = (r, s')"
  have "undisturbed h s t" if "on_world (ForUser deps user) s = (q, t)" for user q t
    using undisturbed_world_ops(4) that by (rule keepsD)
  then show "undisturbed h s s'"
    using run by (auto simp: scope_session_def Let_def preorder_rel_refl [OF preorder_undisturbed]
        split: if_splits option.splits prod.splits sum.splits intro!: undisturbed_upd_scope)
qed

lemma DoPath_frame:
  "DoPath p fn (w, sess) = (r, (w', sess')) \<Longrightarrow> (\<And>c r w'. fn c w = (r, w') \<Longrightarrow> level w' = level w) \<Longrightarrow>
   level w' = level w"
  by (auto simp: DoPath_def run_def Let_def split: prod.splits sum.splits if_splits)

lemma undisturbed_on_session:
  "(\<And>w r w' sess'. m (w, sess) = (r, (w', sess')) \<Longrightarrow> level w' = level w) \<Longrightarrow>
   keeps (undisturbed h) (on_session k sess m)"
  by (rule keepsI) (auto simp: on_session_def undisturbed_def upd_scope_def split: prod.splits)

lemma undisturbed_Inherits: "keeps (undisturbed h) (Inherits deps k p)"
  unfolding Inherits_def with_session_def ops_Inherits_def
  by (intro keeps_bindM preorder_undisturbed undisturbed_session undisturbed_on_session)
    (auto simp: bindM_def split: prod.splits sum.splits elim!: DoPath_frame dest: inheritance_frame)

lemma undisturbed_Children: "keeps (undisturbed h) (Children deps k p)"
  unfolding Children_def with_session_def ops_List_def
  by (intro keeps_bindM keeps_returnM preorder_undisturbed undisturbed_session undisturbed_on_session)
    (auto elim!: DoPath_frame dest: list_frame)

lemma undisturbed_recurse: "keeps (undisturbed h) (recurseIfCollection deps k p rec)"
  unfolding recurseIfCollection_def
  by (intro keeps_bindM keeps_if keeps_returnM preorder_undisturbed undisturbed_Stat)

text \<open>What a user holds, through the data store, and the access lists that can be relied on.\<close>

definition env_level :: "'w env \<Rightarrow> string \<Rightarrow> string \<Rightarrow> permission" where
  "env_level s p u = level (env_world s) (normalizePath p) u"

definition fresh :: "nat \<Rightarrow> 'w env \<Rightarrow> string \<Rightarrow> bool" where
  "fresh h s p \<longleftrightarrow> canonical p \<and> remembers_truly level h s p"

lemma fresh_iff:
  "fresh h s p \<longleftrightarrow> canonical p \<and>
     (\<forall>es. sc_acls (env_scopes s h) p = Some (Inr es) \<longrightarrow>
        (\<forall>u. level_of es u = level (env_world s) p u) \<and> distinct (map acl_user es))"
  by (auto simp: fresh_def remembers_truly_def split: option.splits sum.splits)

lemma canonical_normal: "canonical p \<Longrightarrow> normalizePath p = p"
  by (simp add: normalizePath_def canonical_trim)

lemma env_level_undisturbed: "undisturbed h s s' \<Longrightarrow> env_level s' = env_level s"
  by (auto simp: undisturbed_def env_level_def fun_eq_iff)

lemma fresh_undisturbed: "undisturbed h s s' \<Longrightarrow> fresh h s p \<Longrightarrow> fresh h s' p"
  by (simp add: undisturbed_def fresh_iff)

text \<open>A catalog read answers truly for the canonical paths it was asked about.\<close>

lemma permsForItems_true:
  assumes "permsForItems (dep_db deps) ps w = (Inr rows, w')" "p \<in> set ps" "canonical p"
  shows "level_of (aclOf (filter (\<lambda>x. perm_full_path x = p) rows)) u = level w p u"
    and "distinct (map acl_user (aclOf (filter (\<lambda>x. perm_full_path x = p) rows)))"
proof -
  obtain ds bs where split: "splitPaths ps = Inr (ds, bs)"
    and read: "db_perms_for_items (dep_db deps) ds bs w = (Inr rows, w')"
    using assms(1,2) by (auto simp: permsForItems_def queryM_def split: sum.splits prod.splits if_splits)
  show "level_of (aclOf (filter (\<lambda>x. perm_full_path x = p) rows)) u = level w p u"
    using perms_level [OF read split assms(2,3)] .
  show "distinct (map acl_user (aclOf (filter (\<lambda>x. perm_full_path x = p) rows)))"
    using perms_distinct [OF read split assms(2,3)] by (simp add: aclOf_def comp_def)
qed

lemma permsForItems_one:
  assumes "permsForItems (dep_db deps) [p] w = (Inr rows, w')" "canonical p"
  shows "filter (\<lambda>x. perm_full_path x = p) rows = rows"
proof -
  obtain ds bs where "splitPaths [p] = Inr (ds, bs)"
    and "db_perms_for_items (dep_db deps) ds bs w = (Inr rows, w')"
    using assms(1) by (auto simp: permsForItems_def queryM_def split: sum.splits prod.splits if_splits)
  with assms(2) show ?thesis
    using perms_only by (auto simp: filter_id_conv)
qed

lemma permsForItems_one_true:
  assumes "permsForItems (dep_db deps) [p] w = (Inr rows, w')" "canonical p"
  shows "level_of (aclOf rows) u = level w p u" and "distinct (map acl_user (aclOf rows))"
proof -
  have mem: "p \<in> set [p]" by simp
  show "level_of (aclOf rows) u = level w p u"
    using permsForItems_true(1) [OF assms(1) mem assms(2)] by (simp only: permsForItems_one [OF assms])
  show "distinct (map acl_user (aclOf rows))"
    using permsForItems_true(2) [OF assms(1) mem assms(2)] by (simp only: permsForItems_one [OF assms])
qed

lemma ACL_cases:
  assumes "ACL deps h p s = (r, s')"
  obtains (known) "sc_acls (env_scopes s h) (normalizePath p) = Some r" "s' = s"
  | (closed) "r = Inl ScopeClosed" "s' = s"
  | (read) perms t where "undisturbed h s t" "s' = upd_scope h (\<lambda>sc. sc\<lparr>sc_acls := (sc_acls sc)(normalizePath p \<mapsto> r)\<rparr>) t"
      "r = Inr (aclOf perms)" "permsForItems (dep_db deps) [normalizePath p] (env_world s) = (Inr perms, env_world t)"
  | (failed) err t where "undisturbed h s t" "s' = upd_scope h (\<lambda>sc. sc\<lparr>sc_acls := (sc_acls sc)(normalizePath p \<mapsto> r)\<rparr>) t" "r = Inl err"
proof (cases "sc_acls (env_scopes s h) (normalizePath p)")
  case (Some x)
  with assms show ?thesis by (intro known) (simp_all add: ACL_def memoize_def)
next
  case None
  show ?thesis
  proof (cases "sc_closed (env_scopes s h)")
    case True
    with assms None show ?thesis by (intro closed) (simp_all add: ACL_def memoize_def)
  next
    case False
    obtain q t where q: "on_world (permsForItems (dep_db deps) [normalizePath p]) s = (q, t)"
      by (cases "on_world (permsForItems (dep_db deps) [normalizePath p]) s")
    have t: "undisturbed h s t"
      using undisturbed_world_ops(3) q by (rule keepsD)
    show ?thesis
    proof (cases q)
      case (Inl e)
      with assms None False q t show ?thesis
        by (intro failed [of t e]) (auto simp: ACL_def memoize_def)
    next
      case (Inr perms)
      with assms None False q t show ?thesis
        by (intro read [of t perms]) (auto simp: ACL_def memoize_def on_world_def split: prod.splits)
    qed
  qed
qed

lemma scope_ACL_frame: "ACL deps h p s = (r, s') \<Longrightarrow> env_level s' = env_level s"
  by (erule ACL_cases)
    (auto dest!: env_level_undisturbed simp: fun_eq_iff env_level_def upd_scope_def)

lemma scope_ACL_true:
  assumes run: "ACL deps h p s = (Inr es, s')" and "fresh h s p"
  shows "level_of es u = env_level s p u" and "distinct (map acl_user es)"
proof -
  have p: "canonical p" "normalizePath p = p"
    using assms(2) canonical_normal by (auto simp: fresh_iff)
  have "(\<forall>u. level_of es u = level (env_world s) p u) \<and> distinct (map acl_user es)"
    using run
  proof (cases rule: ACL_cases)
    case known
    with assms(2) p show ?thesis by (simp add: fresh_iff)
  next
    case (read perms t)
    then have "permsForItems (dep_db deps) [p] (env_world s) = (Inr perms, env_world t)"
      by (simp add: p)
    from permsForItems_one_true [OF this p(1)] read(3) show ?thesis
      by simp
  qed simp_all
  then show "level_of es u = env_level s p u" "distinct (map acl_user es)"
    by (simp_all add: env_level_def p)
qed

lemma scope_ACL_fresh:
  assumes run: "ACL deps h p s = (r, s')" and fresh: "fresh h s q"
  shows "fresh h s' q"
  using run
proof (cases rule: ACL_cases)
  case (read perms t)
  have t: "fresh h t q"
    using read(1) fresh by (rule fresh_undisturbed)
  show ?thesis
  proof (cases "q = normalizePath p")
    case True
    then have "canonical q" using fresh by (simp add: fresh_iff)
    moreover from this have "permsForItems (dep_db deps) [q] (env_world s) = (Inr perms, env_world t)"
      using read(4) True by simp
    ultimately show ?thesis
      using read(1-3) True permsForItems_one_true by (auto simp: fresh_iff upd_scope_def undisturbed_def)
  next
    case False
    with t read(2) show ?thesis by (simp add: fresh_iff upd_scope_def)
  qed
next
  case (failed err t)
  have "fresh h t q"
    using failed(1) fresh by (rule fresh_undisturbed)
  with failed show ?thesis by (auto simp: fresh_iff upd_scope_def)
qed (use fresh in auto)

text \<open>The batch read.\<close>

lemma seed_with_lookup: "seed_with m f keys k = (if m k = None \<and> k \<in> set keys then f k else m k)"
proof -
  have "seed_with m f (keys @ [x]) k = (if seed_with m f keys x = None then (seed_with m f keys)(x := f x) else seed_with m f keys) k"
    for keys x
    by (simp add: seed_with_def)
  then show ?thesis
    by (induction keys rule: rev_induct) (auto simp: seed_with_def)
qed

lemma map_of_group_perms:
  "(case map_of (group_perms rows) q of None \<Rightarrow> [] | Some es \<Rightarrow> es) = aclOf (filter (\<lambda>x. perm_full_path x = q) rows)"
proof (cases "q \<in> perm_full_path ` set rows")
  case True
  then have "map_of (group_perms rows) q = Some (aclOf (filter (\<lambda>x. perm_full_path x = q) rows))"
    unfolding group_perms_def by (intro map_of_is_SomeI) (auto simp: comp_def)
  then show ?thesis by simp
next
  case False
  then have "map_of (group_perms rows) q = None"
    unfolding group_perms_def by (auto simp: map_of_eq_None_iff)
  moreover have "filter (\<lambda>x. perm_full_path x = q) rows = []"
    using False by (auto simp: filter_empty_conv)
  ultimately show ?thesis by (simp add: aclOf_def)
qed

lemma ACLs_cases:
  assumes "ACLs deps h ps s = (r, s')"
  obtains (unread) "undisturbed h s s'"
  | (read) rows t where "undisturbed h s t" "env_world s' = env_world t"
      "permsForItems (dep_db deps) (normalizePaths ps) (env_world s) = (Inr rows, env_world t)"
      "sc_acls (env_scopes s' h) = seed_with (sc_acls (env_scopes s h))
         (\<lambda>p. Some (Inr (aclOf (filter (\<lambda>x. perm_full_path x = p) rows)))) (normalizePaths ps)"
proof -
  obtain q t where q: "on_world (permsForItems (dep_db deps) (normalizePaths ps)) s = (q, t)"
    by (cases "on_world (permsForItems (dep_db deps) (normalizePaths ps)) s")
  have t: "undisturbed h s t"
    using undisturbed_world_ops(3) q by (rule keepsD)
  consider "sc_closed (env_scopes s h) \<or> normalizePaths ps = []"
    | "\<not> sc_closed (env_scopes s h)" "normalizePaths ps \<noteq> []" by blast
  then show ?thesis
  proof cases
    case 1
    with assms show ?thesis
      by (intro unread) (auto simp: ACLs_def in_go_def Let_def undisturbed_def split: if_splits)
  next
    case 2
    show ?thesis
    proof (cases q)
      case (Inl e)
      with assms 2 q t show ?thesis
        by (intro unread) (auto simp: ACLs_def in_go_def Let_def)
    next
      case (Inr rows)
      with assms 2 q t show ?thesis
        by (intro read [of t rows])
          (auto simp: ACLs_def in_go_def Let_def thenM_def seedACLs_def upd_scope_def map_of_group_perms
            undisturbed_def on_world_def split: prod.splits)
    qed
  qed
qed

lemma scope_ACLs_frame: "ACLs deps h ps s = (r, s') \<Longrightarrow> env_level s' = env_level s"
  by (erule ACLs_cases) (auto dest!: env_level_undisturbed simp: fun_eq_iff env_level_def)

lemma scope_ACLs_fresh:
  assumes run: "ACLs deps h ps s = (r, s')" and "fresh h s q"
  shows "fresh h s' q"
  using run
proof (cases rule: ACLs_cases)
  case unread
  then show ?thesis using assms(2) by (rule fresh_undisturbed)
next
  case (read rows t)
  have "canonical q" using assms(2) by (simp add: fresh_iff)
  moreover have "level (env_world s') q = level (env_world s) q"
    using read(1,2) by (simp add: undisturbed_def)
  ultimately show ?thesis
    using assms(2) read(4) permsForItems_true [OF read(3), of q] by (auto simp: fresh_iff seed_with_lookup)
qed

text \<open>A change of permission reaches the data store at most once, with the recursion dropped or
  kept, and the scope forgets the path when it succeeded.\<close>

lemma SetPermission_cases:
  assumes "SetPermission deps h p u l rec s = (x, s')"
  obtains (refused) err where "undisturbed h s s'" "x = Inl err"
  | (changed) t c rec' adm where "undisturbed h s t" "rec' \<longrightarrow> rec" "x = Inr ()"
      "fs_change_acls (dep_fs deps) c (normalizePath p) l u (dep_zone deps) rec' adm (env_world t) = (Inr (), env_world s')"
      "sc_acls (env_scopes s' h) = (sc_acls (env_scopes s h))(normalizePath p := None)"
  | (broken) t c rec' adm e err where "undisturbed h s t" "rec' \<longrightarrow> rec" "x = Inl err"
      "fs_change_acls (dep_fs deps) c (normalizePath p) l u (dep_zone deps) rec' adm (env_world t) = (Inl e, env_world s')"
proof -
  obtain q1 s1 where 1: "scope_session deps h s = (q1, s1)"
    by (cases "scope_session deps h s")
  have s1: "undisturbed h s s1"
    using undisturbed_session 1 by (rule keepsD)
  show ?thesis
  proof (cases q1)
    case (Inl e)
    with assms 1 s1 show ?thesis
      by (intro refused [of e]) (auto simp: SetPermission_def)
  next
    case sess: (Inr sess)
    obtain q2 s2 where 2: "recurseIfCollection deps h (normalizePath p) rec s1 = (q2, s2)"
      by (cases "recurseIfCollection deps h (normalizePath p) rec s1")
    have "undisturbed h s1 s2"
      using undisturbed_recurse 2 by (rule keepsD)
    then have s2: "undisturbed h s s2"
      using s1 preorder_rel_trans [OF preorder_undisturbed] by blast
    show ?thesis
    proof (cases q2)
      case (Inl e)
      with assms 1 2 s2 sess show ?thesis
        by (intro refused [of e]) (auto simp: SetPermission_def)
    next
      case (Inr rec')
      have rec': "rec' \<longrightarrow> rec"
        using 2 Inr by (auto simp: recurseIfCollection_def split: if_splits)
      let ?w = "fs_change_acls (dep_fs deps) (sess_user sess) (normalizePath p) l u (dep_zone deps) rec'
        (\<not> IsProxied sess) (env_world s2)"
      obtain q3 w where 3: "?w = (q3, w)" by (cases ?w)
      show ?thesis
      proof (cases q3)
        case (Inr z)
        with assms 1 2 3 sess \<open>q2 = Inr rec'\<close> s2 show ?thesis
          by (intro changed [OF s2 rec', of "sess_user sess" "\<not> IsProxied sess"])
            (auto simp: SetPermission_def on_session_def SetACL_def DoPath_def run_def thenM_def
              invalidate_def upd_scope_def undisturbed_def)
      next
        case (Inl e)
        then have "\<exists>err. x = Inl err" "env_world s' = w"
          using assms 1 2 3 sess \<open>q2 = Inr rec'\<close>
          by (auto simp: SetPermission_def on_session_def SetACL_def DoPath_def run_def thenM_def bindM_def
              invalidate_def upd_scope_def Let_def split: prod.splits sum.splits if_splits)
        then show ?thesis
          using broken [OF s2 rec', of _ "sess_user sess" "\<not> IsProxied sess" e] 3 Inl by auto
      qed
    qed
  qed
qed

lemma SetPermission_change:
  assumes "SetPermission deps h p u l rec s = (x, s')"
  obtains "undisturbed h s s'"
  | t c rec' adm r where "undisturbed h s t" "rec' \<longrightarrow> rec"
      "fs_change_acls (dep_fs deps) c (normalizePath p) l u (dep_zone deps) rec' adm (env_world t) = (r, env_world s')"
  using assms by (cases rule: SetPermission_cases) (use that in blast)+

lemma trim_normal: "trim_right (normalizePath p) = trim_right p"
  by (simp add: normalizePath_def)

lemma IsWithin_normal: "IsWithin (normalizePath q) (normalizePath p) \<longleftrightarrow> IsWithin q p"
  by (simp add: IsWithin_def trim_normal)

lemma scope_Set_frame:
  "SetPermission deps h p u l rec s = (x, s') \<Longrightarrow> v \<noteq> u \<Longrightarrow> env_level s' q v = env_level s q v"
  by (erule SetPermission_change)
    (auto simp: env_level_def undisturbed_def dest: change_other)

lemma scope_Set_or_not:
  "SetPermission deps h p u l rec s = (x, s') \<Longrightarrow> env_level s' q u = env_level s q u \<or> env_level s' q u = l"
  by (erule SetPermission_change)
    (auto simp: env_level_def undisturbed_def dest: change_or_not [where q = "normalizePath q"])

lemma scope_Set_outside:
  "SetPermission deps h p u l rec s = (x, s') \<Longrightarrow> \<not> IsWithin q p \<Longrightarrow> env_level s' q v = env_level s q v"
  by (erule SetPermission_change)
    (auto simp: env_level_def undisturbed_def IsWithin_normal dest: change_outside [where q = "normalizePath q"])

lemma scope_Set_flat:
  "SetPermission deps h p u l False s = (x, s') \<Longrightarrow> normalizePath q \<noteq> normalizePath p \<Longrightarrow>
   env_level s' q v = env_level s q v"
  by (erule SetPermission_change)
    (auto simp: env_level_def undisturbed_def dest: change_flat [where q = "normalizePath q"])

lemma scope_Set_level:
  "SetPermission deps h p u l rec s = (Inr (), s') \<Longrightarrow> env_level s' p u = l"
  by (erule SetPermission_cases) (auto simp: env_level_def dest: change_level)

lemma scope_Set_fresh:
  assumes run: "SetPermission deps h p u l rec s = (Inr (), s')" and fresh: "fresh h s q"
    and here: "normalizePath q = normalizePath p \<or> (rec \<longrightarrow> \<not> IsWithin q p)"
  shows "fresh h s' q"
  using run
proof (cases rule: SetPermission_cases)
  case (changed t c rec' adm)
  have q: "canonical q" "normalizePath q = q"
    using fresh canonical_normal by (auto simp: fresh_iff)
  have t: "fresh h t q"
    using changed(1) fresh by (rule fresh_undisturbed)
  show ?thesis
  proof (cases "q = normalizePath p")
    case True
    with changed(5) q show ?thesis by (simp add: fresh_iff)
  next
    case False
    have "level (env_world s') q v = level (env_world t) q v" for v
    proof (cases rec')
      case True
      then have "\<not> IsWithin q (normalizePath p)"
        using here False changed(2) q IsWithin_normal [of q p] by auto
      with changed(4) show ?thesis by (rule change_outside)
    next
      case flat: False
      with changed(4) have "fs_change_acls (dep_fs deps) c (normalizePath p) l u (dep_zone deps) False adm
          (env_world t) = (Inr (), env_world s')" by simp
      then show ?thesis using False by (rule change_flat)
    qed
    with t changed(1,5) False show ?thesis
      by (auto simp: fresh_iff undisturbed_def)
  qed
qed simp_all

end

text \<open>A scope over such a data store satisfies both contracts.\<close>

locale scope_backend = irods_backend deps level
  for deps :: "'w deps" and level :: "'w \<Rightarrow> string \<Rightarrow> string \<Rightarrow> permission" +
  fixes h :: nat

sublocale scope_backend \<subseteq> store: acl_frame "scope_store deps h" env_level
proof (unfold_locales, simp_all only: scope_store_simps)
  fix p ps u l rec v q s s'
  show "\<And>r. ACL deps h p s = (r, s') \<Longrightarrow> env_level s' = env_level s"
    by (rule scope_ACL_frame)
  show "\<And>r. ACLs deps h ps s = (r, s') \<Longrightarrow> env_level s' = env_level s"
    by (rule scope_ACLs_frame)
  show "\<And>r. Inherits deps h p s = (r, s') \<Longrightarrow> env_level s' = env_level s"
    by (rule env_level_undisturbed [OF keepsD [OF undisturbed_Inherits]])
  show "\<And>r. Children deps h p s = (r, s') \<Longrightarrow> env_level s' = env_level s"
    by (rule env_level_undisturbed [OF keepsD [OF undisturbed_Children]])
  show "\<And>x. SetPermission deps h p u l rec s = (x, s') \<Longrightarrow> v \<noteq> u \<Longrightarrow> env_level s' q v = env_level s q v"
    by (rule scope_Set_frame)
qed

sublocale scope_backend \<subseteq> store: acl_store "scope_store deps h" env_level "fresh h"
proof (unfold_locales, simp_all only: scope_store_simps)
  fix p ps u l rec q v s s' es
  show "ACL deps h p s = (Inr es, s') \<Longrightarrow> fresh h s p \<Longrightarrow> level_of es u = env_level s p u"
    by (rule scope_ACL_true)
  show "ACL deps h p s = (Inr es, s') \<Longrightarrow> fresh h s p \<Longrightarrow> distinct (map acl_user es)"
    by (rule scope_ACL_true)
  show "\<And>r. ACL deps h p s = (r, s') \<Longrightarrow> fresh h s q \<Longrightarrow> fresh h s' q"
    by (rule scope_ACL_fresh)
  show "\<And>r. ACLs deps h ps s = (r, s') \<Longrightarrow> fresh h s q \<Longrightarrow> fresh h s' q"
    by (rule scope_ACLs_fresh)
  show "\<And>r. Inherits deps h p s = (r, s') \<Longrightarrow> fresh h s q \<Longrightarrow> fresh h s' q"
    by (rule fresh_undisturbed [OF keepsD [OF undisturbed_Inherits]])
  show "\<And>r. Children deps h p s = (r, s') \<Longrightarrow> fresh h s q \<Longrightarrow> fresh h s' q"
    by (rule fresh_undisturbed [OF keepsD [OF undisturbed_Children]])
  show "SetPermission deps h p u l rec s = (Inr (), s') \<Longrightarrow> env_level s' p u = l"
    by (rule scope_Set_level)
  show "\<And>x. SetPermission deps h p u l rec s = (x, s') \<Longrightarrow> env_level s' q u = env_level s q u \<or> env_level s' q u = l"
    by (rule scope_Set_or_not)
  show "\<And>x. SetPermission deps h p u l rec s = (x, s') \<Longrightarrow> \<not> IsWithin q p \<Longrightarrow> env_level s' q v = env_level s q v"
    by (rule scope_Set_outside)
  show "\<And>x. SetPermission deps h p u l False s = (x, s') \<Longrightarrow> normalizePath q \<noteq> normalizePath p \<Longrightarrow>
      env_level s' q v = env_level s q v"
    by (rule scope_Set_flat)
  show "SetPermission deps h p u l rec s = (Inr (), s') \<Longrightarrow> fresh h s q \<Longrightarrow>
      normalizePath q = normalizePath p \<or> (rec \<longrightarrow> \<not> IsWithin q p) \<Longrightarrow> fresh h s' q"
    by (rule scope_Set_fresh)
  show "\<And>s. normalizePath p = normalizePath q \<Longrightarrow> env_level s p u = env_level s q u"
    by (simp add: env_level_def)
qed

section \<open>The repair of permissions on the data store\<close>

lemma canonical_ancestors:
  assumes "canonical p" "a \<in> set (ancestorsOf p stop)"
  shows "canonical a"
proof -
  obtain cs c where "good_comps cs" "good_comp c" "p = abs_path (cs @ [c])"
    using assms(1) by (rule canonicalE)
  then obtain k where "2 \<le> k" "k \<le> length cs" "a = abs_path (take k cs)" "good_comps cs"
    using assms(2) ancestorsOf_abs by blast
  then show ?thesis
    unfolding canonical_iff
    by (intro exI [of _ "take k cs"]) (auto simp: list_all_iff dest: in_set_takeD)
qed

lemma Dir_not_within_canonical: "canonical p \<Longrightarrow> \<not> IsWithin (Dir p) p"
  by (erule canonicalE) (simp only: Dir_not_within not_False_eq_True)

text \<open>A move between places a scope can answer for.\<close>

definition well_placed :: "move_context \<Rightarrow> bool" where
  "well_placed mv \<longleftrightarrow> canonical (mc_source mv) \<and> canonical (Dir (mc_source mv)) \<and>
     canonical (mc_destination mv) \<and> canonical (Dir (mc_destination mv))"

context scope_backend
begin

lemma read_by_fresh:
  assumes "well_placed mv" "\<And>p. remembers_truly level h s p" "store.read_by mv q"
  shows "fresh h s q"
  using assms canonical_ancestors
  by (auto simp: fresh_def store.read_by_def well_placed_def)

text \<open>A change followed by a read, through the scope, is the change of the data store's own map.\<close>

lemma scope_write_read:
  assumes "canonical p" "remembers_truly level h s p"
    and set_run: "SetPermission deps h p u l rec s = (Inr (), t)" and read_run: "ACL deps h p t = (Inr es, s')"
  shows "level_of es = (level (env_world s) p)(u := l)" and "level (env_world s') p = level_of es"
proof -
  have p: "normalizePath p = p"
    using assms(1) by (rule canonical_normal)
  have "fresh h s p"
    using assms(1,2) by (simp add: fresh_def)
  with set_run have t: "fresh h t p"
    by (rule scope_Set_fresh) simp
  have es: "level_of es v = env_level t p v" for v
    by (rule scope_ACL_true [OF read_run t])
  have "env_level t p v = ((level (env_world s) p)(u := l)) v" for v
    using scope_Set_level [OF set_run] scope_Set_frame [OF set_run, of v p] by (simp add: env_level_def p)
  with es show "level_of es = (level (env_world s) p)(u := l)"
    by auto
  have "env_level s' p = env_level t p"
    by (simp add: scope_ACL_frame [OF read_run])
  with es show "level (env_world s') p = level_of es"
    by (simp add: fun_eq_iff env_level_def p)
qed

lemma scope_repair_keeps:
  assumes "RepairPermissions (scope_store deps h) mv s = (r, s')" "ignores mv u" "canonical p"
  shows "level (env_world s') p u = level (env_world s) p u"
proof -
  have "same_levels env_level (ignores mv) s s'"
    using store.repair_keeps assms(1) by (rule keepsD)
  with assms(2,3) show ?thesis
    unfolding same_levels_def env_level_def using canonical_normal by metis
qed

lemma scope_repair_inheriting:
  assumes "Inherits deps h (Dir (mc_source mv)) s = (Inr b, t)"
    and "Inherits deps h (Dir (mc_destination mv)) t = (Inr True, t')"
    and "Dir (mc_source mv) \<noteq> Dir (mc_destination mv)"
    and placed: "well_placed mv" and true: "\<And>p. remembers_truly level h s p"
    and run: "RepairPermissions (scope_store deps h) mv s = (Inr (), s')"
    and "\<not> ignores mv u"
  shows "level (env_world s') (mc_destination mv) u = level (env_world s') (Dir (mc_destination mv)) u"
proof -
  have canon: "normalizePath (mc_destination mv) = mc_destination mv"
    "normalizePath (Dir (mc_destination mv)) = Dir (mc_destination mv)"
    using placed canonical_normal by (auto simp: well_placed_def)
  have outside: "\<not> IsWithin (Dir (mc_destination mv)) (mc_destination mv)"
    using placed Dir_not_within_canonical by (simp add: well_placed_def)
  have "env_level s' (mc_destination mv) u = env_level s' (Dir (mc_destination mv)) u"
    by (rule store.repair_into_inheriting [OF _ _ assms(3) read_by_fresh [OF placed true] run outside])
      (use assms in simp_all)
  then show ?thesis
    by (simp add: env_level_def canon)
qed

lemma scope_repair_plain:
  assumes "Inherits deps h (Dir (mc_source mv)) s = (Inr False, t)"
    and "Inherits deps h (Dir (mc_destination mv)) t = (Inr False, t')"
    and "Dir (mc_source mv) \<noteq> Dir (mc_destination mv)"
    and placed: "well_placed mv" and true: "\<And>p. remembers_truly level h s p"
    and run: "RepairPermissions (scope_store deps h) mv s = (r, s')"
  shows "canonical p \<Longrightarrow> walk_step (level (env_world s) p u) (level (env_world s') p u)"
    and "r = Inr () \<Longrightarrow> \<not> ignores mv u \<Longrightarrow> level (env_world s') (mc_destination mv) u \<noteq> PermissionNone \<Longrightarrow>
      a \<in> set (ancestorsOf (mc_destination mv)
        (\<lambda>p. IsSharing (mc_layout mv) p \<or> IsTrashBase (mc_layout mv) p)) \<Longrightarrow>
      PermissionRead \<le> level (env_world s') a u"
proof -
  have reads: "ps_Inherits (scope_store deps h) (Dir (mc_source mv)) s = (Inr False, t)"
    "ps_Inherits (scope_store deps h) (Dir (mc_destination mv)) t = (Inr False, t')"
    using assms(1,2) by simp_all
  note plain = store.repair_between_plain [OF reads assms(3) read_by_fresh [OF placed true] run]
  show "canonical p \<Longrightarrow> walk_step (level (env_world s) p u) (level (env_world s') p u)"
    using plain(1) by (metis levels_rel_def env_level_def canonical_normal)
  show "PermissionRead \<le> level (env_world s') a u"
    if "r = Inr ()" "\<not> ignores mv u" "level (env_world s') (mc_destination mv) u \<noteq> PermissionNone"
      "a \<in> set (ancestorsOf (mc_destination mv) (\<lambda>p. IsSharing (mc_layout mv) p \<or> IsTrashBase (mc_layout mv) p))"
  proof -
    have "canonical a" "canonical (mc_destination mv)"
      using canonical_ancestors that(4) placed by (auto simp: well_placed_def)
    then show ?thesis
      using plain(2) [of u a] that by (simp add: env_level_def canonical_normal)
  qed
qed

end

end
