(* ===== verification/MemStore.thy ===== *)
theory MemStore
  imports ScopeAccess
begin

text \<open>
  A data store held in memory: a catalog and a file system over one list of collections with
  their access lists, metadata and tickets.  It is a concrete instance of everything the service
  calls outside the repository, it satisfies the laws of \<open>irods_backend\<close>, and witnesses run
  on it.
\<close>

record mem_world =
  mw_acls :: "(string \<times> (string \<times> permission) list) list"
  mw_inherits :: "string list"
  mw_avus :: "(string \<times> avu list) list"
  mw_tickets :: "ticket list"

definition mem_entries :: "mem_world \<Rightarrow> string \<Rightarrow> (string \<times> permission) list" where
  "mem_entries w p = (case map_of (mw_acls w) p of None \<Rightarrow> [] | Some es \<Rightarrow> es)"

definition mem_level :: "mem_world \<Rightarrow> string \<Rightarrow> string \<Rightarrow> permission" where
  "mem_level w p u = (case map_of (mem_entries w p) u of None \<Rightarrow> PermissionNone | Some l \<Rightarrow> l)"

fun mem_access :: "permission \<Rightarrow> int" where
  "mem_access PermissionNone = 0"
| "mem_access PermissionRead = AccessRead"
| "mem_access PermissionWrite = AccessWrite"
| "mem_access PermissionOwn = AccessOwn"

definition mem_perms :: "mem_world \<Rightarrow> string \<Rightarrow> perm list" where
  "mem_perms w p =
     map (\<lambda>u. \<lparr>perm_object_id = 0, perm_full_path = p, perm_user_name = u, perm_zone = ''z'',
               perm_access_type_id = mem_access (mem_level w p u)\<rparr>)
       (remdups (map fst (mem_entries w p)))"

definition join_dirs :: "string list \<Rightarrow> string list \<Rightarrow> string list" where
  "join_dirs ds bs = remdups (map2 (\<lambda>d b. d @ ''/'' @ b) ds bs)"

definition mem_row :: "mem_world \<Rightarrow> string \<Rightarrow> string \<Rightarrow> row" where
  "mem_row w user p =
     \<lparr>row_object_id = 0, row_kind = RowCollection, row_uuid = None, row_full_path = p,
      row_base_name = Base p, row_info_type = None, row_data_size = 0, row_create_ts = ''1'',
      row_modify_ts = ''1'', row_access_type_id = mem_access (mem_level w p user),
      row_data_checksum = None, row_total_count = None\<rparr>"

definition mem_db :: "mem_world database" where
  "mem_db =
     \<lparr>db_user_group_ids = (\<lambda>_ _. returnM [1]),
      db_get_items = (\<lambda>ds bs user _ _ _ w.
        (Inr (map (mem_row w user) (filter (\<lambda>p. p \<in> fst ` set (mw_acls w)) (join_dirs ds bs))), w)),
      db_user_exists = (\<lambda>_ _. returnM [UserKindUser]), db_user_groups = (\<lambda>_ _. returnM []),
      db_paths_for_uuids = (\<lambda>_. returnM []), db_count_children = (\<lambda>_ _ _ _. returnM (0, 0)),
      db_count_children_batch = (\<lambda>_ _ _ _. returnM []),
      db_perms_for_items = (\<lambda>ds bs w. (Inr (concat (map (mem_perms w) (join_dirs ds bs))), w)),
      db_paged_folder = (\<lambda>_. returnM []), db_folders_in_folder = (\<lambda>_ _ _ _. returnM []),
      db_paged_uuids = (\<lambda>_ _. returnM []), db_count_uuids = (\<lambda>_ _ _ _ _ _ _. returnM 0)\<rparr>"

definition set_entry :: "string \<Rightarrow> permission \<Rightarrow> (string \<times> permission) list \<Rightarrow> (string \<times> permission) list" where
  "set_entry u l es = (if l = PermissionNone then [] else [(u, l)]) @ filter (\<lambda>(v, _). v \<noteq> u) es"

definition mem_reached :: "string \<Rightarrow> bool \<Rightarrow> string \<Rightarrow> bool" where
  "mem_reached p rec q \<longleftrightarrow> (if rec then IsWithin q p else q = p)"

definition mem_change_acls ::
    "string \<Rightarrow> permission \<Rightarrow> string \<Rightarrow> bool \<Rightarrow> (mem_world, unit) op" where
  "mem_change_acls p l u rec = (\<lambda>w.
     if p \<notin> fst ` set (mw_acls w) then (Inl (LibError FileNotFound p), w)
     else (Inr (), w\<lparr>mw_acls := map (\<lambda>(q, es). (q, if mem_reached p rec q then set_entry u l es else es)) (mw_acls w)\<rparr>))"

definition mem_under :: "string \<Rightarrow> string \<Rightarrow> string \<Rightarrow> string" where
  "mem_under from to q = (if IsWithin q from then to @ drop (length from) q else q)"

definition mem_rename :: "string \<Rightarrow> string \<Rightarrow> (mem_world, unit) op" where
  "mem_rename from to = (\<lambda>w.
     if from \<notin> fst ` set (mw_acls w) then (Inl (LibError FileNotFound from), w)
     else if to \<in> fst ` set (mw_acls w) then (Inl (LibError FileAlreadyExist to), w)
     else (Inr (), w\<lparr>mw_acls := map (\<lambda>(q, es). (mem_under from to q, es)) (mw_acls w),
                      mw_avus := map (\<lambda>(q, as). (mem_under from to q, as)) (mw_avus w)\<rparr>))"

definition mem_fs :: "mem_world filesystem" where
  "mem_fs =
     \<lparr>fs_stat = (\<lambda>_ p w. if p \<in> fst ` set (mw_acls w)
        then (Inr \<lparr>fe_id = 1, fe_is_dir = True, fe_path = p, fe_size = 0\<rparr>, w)
        else (Inl (LibError FileNotFound p), w)),
      fs_stat_file_fresh = (\<lambda>_ p. failM (LibError FileNotFound p)),
      fs_list = (\<lambda>_ p w. (Inr (map (\<lambda>(q, _). \<lparr>fe_id = 1, fe_is_dir = True, fe_path = q, fe_size = 0\<rparr>)
        (filter (\<lambda>(q, _). Dir q = p \<and> q \<noteq> p) (mw_acls w))), w)),
      fs_change_acls = (\<lambda>_ p l u _ rec _. mem_change_acls p l u rec),
      fs_change_inheritance = (\<lambda>_ p on _ _ w. (Inr (), w\<lparr>mw_inherits :=
        (if on then [p] else []) @ filter (\<lambda>q. q \<noteq> p) (mw_inherits w)\<rparr>)),
      fs_get_inheritance = (\<lambda>_ p w. (Inr (Some (p \<in> set (mw_inherits w))), w)),
      fs_list_metadata = (\<lambda>_ p w. (Inr (case map_of (mw_avus w) p of None \<Rightarrow> [] | Some as \<Rightarrow> as), w)),
      fs_add_metadata = (\<lambda>_ p a w. (Inr (), w\<lparr>mw_avus :=
        (p, a # (case map_of (mw_avus w) p of None \<Rightarrow> [] | Some as \<Rightarrow> as)) #
          filter (\<lambda>(q, _). q \<noteq> p) (mw_avus w)\<rparr>)),
      fs_delete_metadata = (\<lambda>_ p a w. (Inr (), w\<lparr>mw_avus :=
        map (\<lambda>(q, as). (q, if q = p then filter (\<lambda>b. b \<noteq> a) as else as)) (mw_avus w)\<rparr>)),
      fs_make_dir = (\<lambda>c p _ w. (Inr (), w\<lparr>mw_acls := (p, [(c, PermissionOwn)]) # mw_acls w\<rparr>)),
      fs_rename_file = (\<lambda>_. mem_rename), fs_rename_dir = (\<lambda>_. mem_rename),
      fs_remove_dir = (\<lambda>_ p _ _ w. if p \<in> fst ` set (mw_acls w)
        then (Inr (), w\<lparr>mw_acls := filter (\<lambda>(q, _). \<not> IsWithin q p) (mw_acls w)\<rparr>)
        else (Inl (LibError FileNotFound p), w)),
      fs_remove_file = (\<lambda>_ p _. failM (LibError FileNotFound p)),
      fs_checksum = (\<lambda>_ p _. failM (LibError FileNotFound p)),
      fs_list_tickets = (\<lambda>_ w. (Inr (mw_tickets w), w)),
      fs_delete_ticket = (\<lambda>_ n w. (Inr (), w\<lparr>mw_tickets := filter (\<lambda>t. ticket_name t \<noteq> n) (mw_tickets w)\<rparr>)),
      fs_create_ticket = (\<lambda>_ _ _ _. returnM ()), fs_ticket_use_limit = (\<lambda>_ _ _. returnM ()),
      fs_ticket_write_limit = (\<lambda>_ _ _. returnM ()), fs_ticket_add_group = (\<lambda>_ _ _. returnM ()),
      fs_get_user = (\<lambda>_ _ _. returnM (Some UserKindUser)), fs_create_group = (\<lambda>_ _ _. returnM ()),
      fs_remove_group = (\<lambda>_ _ _. returnM ()), fs_add_group_member = (\<lambda>_ _ _ _. returnM ()),
      fs_remove_group_member = (\<lambda>_ _ _ _. returnM ()), fs_list_group_members = (\<lambda>_ _ _. returnM [])\<rparr>"

definition mem_deps :: "mem_world deps" where
  "mem_deps = \<lparr>dep_db = mem_db, dep_fs = mem_fs, dep_connect = (\<lambda>_. returnM ()),
     dep_proxy = ''rods'', dep_zone = ''z'', dep_attribute = ''ipc-filetype''\<rparr>"

section \<open>Its laws\<close>

lemma split_canonical:
  "splitPaths ps = Inr (ds, bs) \<Longrightarrow> canonical p \<Longrightarrow> p \<in> set ps \<Longrightarrow> p \<in> set (join_dirs ds bs)"
  "splitPaths [p] = Inr (ds, bs) \<Longrightarrow> canonical p \<Longrightarrow> join_dirs ds bs = [p]"
proof -
  have join: "trim_right (upto_last_slash (trim_right p)) @ ''/'' @ after_last_slash (trim_right p) = p"
    if "canonical p" for p
    using that
  proof (rule canonicalE)
    fix cs c
    assume c: "good_comps cs" "good_comp c" "p = abs_path (cs @ [c])"
    have "trim_right p = p"
      using that by (rule canonical_trim)
    moreover have "slash \<notin> set c"
      using c(2) by (simp add: good_comp_def)
    ultimately show ?thesis
      using c upto_last_slash_snoc [of c "abs_path cs"] after_last_slash_snoc [of c "abs_path cs"]
      by (simp add: trim_right_abs)
  qed
  show "splitPaths ps = Inr (ds, bs) \<Longrightarrow> canonical p \<Longrightarrow> p \<in> set ps \<Longrightarrow> p \<in> set (join_dirs ds bs)"
  proof (induction ps arbitrary: ds bs)
    case (Cons q ps)
    then show ?case
      using join [of q] by (auto simp: join_dirs_def split: option.splits sum.splits prod.splits)
  qed simp
  show "splitPaths [p] = Inr (ds, bs) \<Longrightarrow> canonical p \<Longrightarrow> join_dirs ds bs = [p]"
    using join [of p] by (auto simp: join_dirs_def split: option.splits)
qed

lemma filter_concat_own:
  assumes "distinct ps" "\<And>q x. x \<in> set (f q) \<Longrightarrow> g x = q"
  shows "filter (\<lambda>x. g x = p) (concat (map f ps)) = (if p \<in> set ps then f p else [])"
proof -
  have "filter (\<lambda>x. g x = p) (f q) = (if q = p then f q else [])" for q
    using assms(2) by (cases "q = p") (auto simp: filter_id_conv filter_empty_conv)
  with assms(1) show ?thesis
    by (induction ps) auto
qed

lemma mem_perms_of:
  "filter (\<lambda>x. perm_full_path x = p) (concat (map (mem_perms w) (join_dirs ds bs)))
     = (if p \<in> set (join_dirs ds bs) then mem_perms w p else [])"
  by (rule filter_concat_own) (auto simp: join_dirs_def mem_perms_def)

lemma mem_perms_level: "level_of (aclOf (mem_perms w p)) u = mem_level w p u"
proof -
  have access: "PermissionOf (mem_access l) = l" for l
    by (cases l) (simp_all add: PermissionOf_def AccessRead_def AccessWrite_def AccessOwn_def)
  have distinct: "distinct (map acl_user (aclOf (mem_perms w p)))"
    by (simp add: aclOf_def mem_perms_def comp_def)
  show ?thesis
  proof (cases "u \<in> fst ` set (mem_entries w p)")
    case True
    then have "\<lparr>acl_user = u, acl_zone = ''z'', acl_permission = mem_level w p u\<rparr> \<in> set (aclOf (mem_perms w p))"
      by (auto simp: aclOf_def mem_perms_def perm_permission_def access image_iff)
    from level_of_entry [OF distinct this] show ?thesis by simp
  next
    case False
    then have "map_of (mem_entries w p) u = None"
      by (simp add: map_of_eq_None_iff)
    moreover have "u \<notin> acl_user ` set (aclOf (mem_perms w p))"
      using False by (auto simp: aclOf_def mem_perms_def image_iff)
    ultimately show ?thesis
      by (simp add: level_of_absent mem_level_def)
  qed
qed

lemma mem_change_level:
  assumes "mem_change_acls p l u rec w = (r, w')"
  shows "mem_level w' q v =
    (if r = Inr () \<and> v = u \<and> mem_reached p rec q \<and> q \<in> fst ` set (mw_acls w) then l else mem_level w q v)"
proof -
  have look: "map_of (map (\<lambda>(q, es). (q, f q es)) xs) q = map_option (f q) (map_of xs q)" for f :: "string \<Rightarrow> 'a \<Rightarrow> 'b" and xs
    by (induction xs) auto
  have entry: "(case map_of (set_entry u l es) v of None \<Rightarrow> PermissionNone | Some x \<Rightarrow> x)
      = (if v = u then l else case map_of es v of None \<Rightarrow> PermissionNone | Some x \<Rightarrow> x)" for es v
    unfolding set_entry_def by (induction es) (auto split: if_splits)
  have keys: "map_of (mw_acls w) q = None \<longleftrightarrow> q \<notin> fst ` set (mw_acls w)"
    by (simp add: map_of_eq_None_iff)
  show ?thesis
    using assms keys
    by (cases "map_of (mw_acls w) q")
      (auto simp: mem_change_acls_def mem_level_def mem_entries_def look entry split: if_splits)
qed

lemma mem_level_inherits [simp]: "mem_level (w\<lparr>mw_inherits := x\<rparr>) = mem_level w"
  by (simp add: fun_eq_iff mem_level_def mem_entries_def)

interpretation mem: irods_backend mem_deps mem_level
proof
  fix ds bs w rows w' ps p u
  assume read: "db_perms_for_items (dep_db mem_deps) ds bs w = (Inr rows, w')"
  then have rows: "rows = concat (map (mem_perms w) (join_dirs ds bs))"
    by (auto simp: mem_deps_def mem_db_def)
  show "level_of (aclOf (filter (\<lambda>x. perm_full_path x = p) rows)) u = mem_level w p u"
    "distinct (map perm_user_name (filter (\<lambda>x. perm_full_path x = p) rows))"
    if "splitPaths ps = Inr (ds, bs)" "p \<in> set ps" "canonical p"
    using that split_canonical(1) [OF that(1,3,2)]
    by (simp_all add: rows mem_perms_of mem_perms_level, simp add: mem_perms_def comp_def)
  show "perm_full_path x = p" if "splitPaths [p] = Inr (ds, bs)" "canonical p" "x \<in> set rows" for x
    using that split_canonical(2) [OF that(1,2)] by (auto simp: rows mem_perms_def)
next
  fix c p l u z rec adm w r w' q v
  assume change: "fs_change_acls (dep_fs mem_deps) c p l u z rec adm w = (r, w')"
  then have run: "mem_change_acls p l u rec w = (r, w')"
    by (simp add: mem_deps_def mem_fs_def)
  note level = mem_change_level [OF run]
  show "mem_level w' q u = mem_level w q u \<or> mem_level w' q u = l"
    by (simp add: level)
  show "v \<noteq> u \<Longrightarrow> mem_level w' q v = mem_level w q v"
    by (simp add: level)
  show "\<not> IsWithin q p \<Longrightarrow> mem_level w' q v = mem_level w q v"
    by (auto simp: level mem_reached_def IsWithin_refl split: if_splits)
next
  fix c p l u rec adm w w'
  assume "fs_change_acls (dep_fs mem_deps) c p l u (dep_zone mem_deps) rec adm w = (Inr (), w')"
  then have run: "mem_change_acls p l u rec w = (Inr (), w')"
    by (simp add: mem_deps_def mem_fs_def)
  then have "p \<in> fst ` set (mw_acls w)"
    by (auto simp: mem_change_acls_def split: if_splits)
  then show "mem_level w' p u = l"
    by (simp add: mem_change_level [OF run] mem_reached_def IsWithin_refl)
next
  fix c p l u z adm w r w' q v
  assume "fs_change_acls (dep_fs mem_deps) c p l u z False adm w = (r, w')"
  then have run: "mem_change_acls p l u False w = (r, w')"
    by (simp add: mem_deps_def mem_fs_def)
  show "q \<noteq> p \<Longrightarrow> mem_level w' q v = mem_level w q v"
    by (simp add: mem_change_level [OF run] mem_reached_def)
qed (auto simp: mem_deps_def mem_db_def mem_fs_def)

end
