(* ===== verification/Repairs.thy ===== *)
theory Repairs
  imports MemStore
begin

text \<open>
  The repair of permissions after a move (\<open>service/permissions.go\<close>) as it runs in the service,
  on a request scope over any data store with the laws of \<open>irods_backend\<close>; the witnesses run
  the repair in memory.
\<close>

text \<open>C16.  A repair never changes what the mover, the administrators and the proxy account hold
  anywhere, whether it succeeds or stops at an error.\<close>

theorem repair_leaves_ignored:
  assumes "irods_backend deps level"
    and "RepairPermissions (scope_store deps h) mv s = (r, s')" "ignores mv u" "canonical p"
  shows "level (env_world s') p u = level (env_world s) p u"
  by (rule scope_backend.scope_repair_keeps [OF scope_backend.intro [OF assms(1)] assms(2-)])

text \<open>C17.  After a successful move into a collection that inherits, everybody the repair does not
  ignore holds on the moved object exactly what they hold on the collection: access from the old
  place is gone and access of the new place has arrived.\<close>

theorem repair_matches_parent:
  assumes "irods_backend deps level"
    and "Inherits deps h (Dir (mc_source mv)) s = (Inr b, t)"
    and "Inherits deps h (Dir (mc_destination mv)) t = (Inr True, t')"
    and "Dir (mc_source mv) \<noteq> Dir (mc_destination mv)"
    and "well_placed mv" "\<And>p. remembers_truly level h s p"
    and "RepairPermissions (scope_store deps h) mv s = (Inr (), s')" "\<not> ignores mv u"
  shows "level (env_world s') (mc_destination mv) u = level (env_world s') (Dir (mc_destination mv)) u"
  by (rule scope_backend.scope_repair_inheriting [OF scope_backend.intro [OF assms(1)] assms(2-)])

text \<open>C18.  Between collections that do not inherit, a repair gives nobody more than read, takes
  nothing but read away, and leaves every write and own as it was, also when it stops at an
  error.\<close>

theorem repair_bounds_changes:
  assumes "irods_backend deps level"
    and "Inherits deps h (Dir (mc_source mv)) s = (Inr False, t)"
    and "Inherits deps h (Dir (mc_destination mv)) t = (Inr False, t')"
    and "Dir (mc_source mv) \<noteq> Dir (mc_destination mv)"
    and "well_placed mv" "\<And>p. remembers_truly level h s p"
    and "RepairPermissions (scope_store deps h) mv s = (r, s')" "canonical p"
  shows "if PermissionWrite \<le> level (env_world s) p u then level (env_world s') p u = level (env_world s) p u
         else level (env_world s') p u \<le> PermissionRead"
  using scope_backend.scope_repair_plain(1) [OF scope_backend.intro [OF assms(1)] assms(2-7), of p u] assms(8) by (simp add: walk_step_def)

text \<open>C20.  Between collections that do not inherit, a successful repair leaves everybody who can
  use the moved object able to reach it: they hold read on every collection above it up to the
  sharing root or the trash.\<close>

theorem repair_reachable:
  assumes "irods_backend deps level"
    and "Inherits deps h (Dir (mc_source mv)) s = (Inr False, t)"
    and "Inherits deps h (Dir (mc_destination mv)) t = (Inr False, t')"
    and "Dir (mc_source mv) \<noteq> Dir (mc_destination mv)"
    and "well_placed mv" "\<And>p. remembers_truly level h s p"
    and "RepairPermissions (scope_store deps h) mv s = (Inr (), s')"
    and "\<not> ignores mv u" "level (env_world s') (mc_destination mv) u \<noteq> PermissionNone"
    and "a \<in> set (ancestorsOf (mc_destination mv)
           (\<lambda>p. IsSharing (mc_layout mv) p \<or> IsTrashBase (mc_layout mv) p))"
  shows "PermissionRead \<le> level (env_world s') a u"
  using scope_backend.scope_repair_plain(2) [OF scope_backend.intro [OF assms(1)] assms(2-7), of u a] assms(8-10) by simp

text \<open>C11.  A request's scope refines the data store: seen through what it remembers and forgets,
  setting a permission and reading the access back is the update of one point of the data store's
  own map of who holds what, and the data store then holds exactly what was read.\<close>

theorem scope_refines_store:
  assumes "irods_backend deps level" and "canonical p" "remembers_truly level h s p"
    and "SetPermission deps h p u l rec s = (Inr (), t)" and "ACL deps h p t = (Inr es, s')"
  shows "level_of es = (level (env_world s) p)(u := l) \<and> level (env_world s') p = level_of es"
  using scope_backend.scope_write_read [OF scope_backend.intro [OF assms(1)] assms(2-)] by blast

section \<open>The repair at work\<close>

definition sample_env :: "mem_world \<Rightarrow> mem_world env" where
  "sample_env w = \<lparr>env_world = w, env_scopes = (\<lambda>_. empty_scope ''a'')\<rparr>"

lemma sample_env_true: "remembers_truly level h (sample_env w) p"
  by (simp add: remembers_truly_def sample_env_def empty_scope_def)

text \<open>User \<open>a\<close> has moved \<open>f\<close> out of \<open>s\<close>: into \<open>p\<close>, where \<open>d\<close> may write, both collections
  inheriting; or up one level, neither inheriting, when \<open>c\<close> had been given the file itself.\<close>

definition moved_in :: "mem_world env" where
  "moved_in = sample_env
     \<lparr>mw_acls =
        [(''/z/h/a/p'', [(''a'', PermissionOwn), (''d'', PermissionWrite)]),
         (''/z/h/a/p/f'', [(''a'', PermissionOwn)])],
      mw_inherits = [''/z/h/a/p'', ''/z/h/a/s''], mw_avus = [], mw_tickets = []\<rparr>"

definition moved_up :: "mem_world env" where
  "moved_up = sample_env
     \<lparr>mw_acls =
        [(''/z/h/a'', [(''a'', PermissionOwn)]), (''/z/h/a/s'', [(''a'', PermissionOwn)]),
         (''/z/h/a/f'', [(''a'', PermissionOwn), (''c'', PermissionWrite)])],
      mw_inherits = [], mw_avus = [], mw_tickets = []\<rparr>"

definition sample_repair :: "string \<Rightarrow> move_context" where
  "sample_repair to =
     \<lparr>mc_source = ''/z/h/a/s/f'', mc_destination = to, mc_user = ''a'', mc_admins = [],
      mc_proxy = ''r'', mc_layout = \<lparr>Zone = ''z'', Home = ''/z/h'', CommunityData = ''/z/h/c''\<rparr>\<rparr>"

abbreviation repair_in :: "(gerror + unit) \<times> mem_world env" where
  "repair_in \<equiv> RepairPermissions (scope_store mem_deps 0) (sample_repair ''/z/h/a/p/f'') moved_in"

abbreviation repair_up :: "(gerror + unit) \<times> mem_world env" where
  "repair_up \<equiv> RepairPermissions (scope_store mem_deps 0) (sample_repair ''/z/h/a/f'') moved_up"

lemma outcome: "fst x = a \<Longrightarrow> x = (a, snd x)"
  by (cases x) simp

lemma repair_in_runs: "repair_in = (Inr (), snd repair_in)"
  by (rule outcome) code_simp

lemma repair_up_runs: "repair_up = (Inr (), snd repair_up)"
  by (rule outcome) code_simp

text \<open>The two flags as the repair reads them.\<close>

definition read_flag :: "string \<Rightarrow> mem_world env \<Rightarrow> (gerror + bool) \<times> mem_world env" where
  "read_flag p s = Inherits mem_deps 0 p s"

lemma sample_dirs:
  "Dir (mc_source (sample_repair to)) = ''/z/h/a/s''"
  "Dir (mc_destination (sample_repair ''/z/h/a/p/f'')) = ''/z/h/a/p''"
  "Dir (mc_destination (sample_repair ''/z/h/a/f'')) = ''/z/h/a''"
  by (simp add: sample_repair_def, code_simp)+

lemma moved_in_flags:
  "Inherits mem_deps 0 (Dir (mc_source (sample_repair ''/z/h/a/p/f''))) moved_in
     = (Inr True, snd (read_flag ''/z/h/a/s'' moved_in))"
  "Inherits mem_deps 0 (Dir (mc_destination (sample_repair ''/z/h/a/p/f''))) (snd (read_flag ''/z/h/a/s'' moved_in))
     = (Inr True, snd (read_flag ''/z/h/a/p'' (snd (read_flag ''/z/h/a/s'' moved_in))))"
  unfolding sample_dirs read_flag_def by (rule outcome, code_simp)+

lemma moved_up_flags:
  "Inherits mem_deps 0 (Dir (mc_source (sample_repair ''/z/h/a/f''))) moved_up
     = (Inr False, snd (read_flag ''/z/h/a/s'' moved_up))"
  "Inherits mem_deps 0 (Dir (mc_destination (sample_repair ''/z/h/a/f''))) (snd (read_flag ''/z/h/a/s'' moved_up))
     = (Inr False, snd (read_flag ''/z/h/a'' (snd (read_flag ''/z/h/a/s'' moved_up))))"
  unfolding sample_dirs read_flag_def by (rule outcome, code_simp)+

lemma sample_placed:
  "well_placed (sample_repair ''/z/h/a/p/f'')" "well_placed (sample_repair ''/z/h/a/f'')"
  by code_simp+

lemma sample_true:
  "remembers_truly level h moved_in p" "remembers_truly level h moved_up p"
  unfolding moved_in_def moved_up_def by (rule sample_env_true)+

lemma sample_moved:
  "Dir (mc_source (sample_repair ''/z/h/a/p/f'')) \<noteq> Dir (mc_destination (sample_repair ''/z/h/a/p/f''))"
  "Dir (mc_source (sample_repair ''/z/h/a/f'')) \<noteq> Dir (mc_destination (sample_repair ''/z/h/a/f''))"
  by (simp_all add: sample_dirs)

text \<open>Through one scope: \<open>d\<close> is given the file and then read back.\<close>

abbreviation set_there :: "(gerror + unit) \<times> mem_world env" where
  "set_there \<equiv> SetPermission mem_deps 0 ''/z/h/a/p/f'' ''d'' PermissionRead False moved_in"

abbreviation read_there :: "(gerror + acl_entry list) \<times> mem_world env" where
  "read_there \<equiv> ACL mem_deps 0 ''/z/h/a/p/f'' (snd set_there)"

lemma set_there_runs: "set_there = (Inr (), snd set_there)"
  by (rule outcome) code_simp

lemma read_there_runs: "read_there = (Inr (projr (fst read_there)), snd read_there)"
proof (rule outcome)
  have "\<not> isl (fst read_there)"
    by code_simp
  then show "fst read_there = Inr (projr (fst read_there))"
    by (cases "fst read_there") simp_all
qed

theorem scope_refines_store_witness:
  "mem_level (env_world (snd read_there)) ''/z/h/a/p/f'' ''d'' = PermissionRead \<and>
   mem_level (env_world (snd read_there)) ''/z/h/a/p/f'' ''a'' = PermissionOwn"
proof -
  have "canonical ''/z/h/a/p/f''" and own: "mem_level (env_world moved_in) ''/z/h/a/p/f'' ''a'' = PermissionOwn"
    by code_simp+
  from scope_refines_store [OF mem.irods_backend_axioms this(1) sample_true(1) set_there_runs read_there_runs]
  show ?thesis
    by (simp add: own)
qed

theorem repair_leaves_ignored_witness:
  "mem_level (env_world (snd repair_in)) ''/z/h/a/p/f'' ''a'' = PermissionOwn"
proof -
  have "mem_level (env_world (snd repair_in)) ''/z/h/a/p/f'' ''a'' = mem_level (env_world moved_in) ''/z/h/a/p/f'' ''a''"
    by (rule repair_leaves_ignored [OF mem.irods_backend_axioms repair_in_runs]) code_simp+
  also have "\<dots> = PermissionOwn"
    by code_simp
  finally show ?thesis .
qed

theorem repair_matches_parent_witness:
  "mem_level (env_world (snd repair_in)) ''/z/h/a/p/f'' ''d'' = mem_level (env_world (snd repair_in)) ''/z/h/a/p'' ''d''"
proof -
  have "\<not> ignores (sample_repair ''/z/h/a/p/f'') ''d''"
    by code_simp
  from repair_matches_parent [OF mem.irods_backend_axioms moved_in_flags sample_moved(1) sample_placed(1)
      sample_true(1) repair_in_runs this]
  show ?thesis
    unfolding sample_dirs by (simp add: sample_repair_def)
qed

theorem repair_bounds_changes_witness:
  "mem_level (env_world (snd repair_up)) ''/z/h/a'' ''c'' \<le> PermissionRead"
proof -
  have "canonical ''/z/h/a''" "\<not> PermissionWrite \<le> mem_level (env_world moved_up) ''/z/h/a'' ''c''"
    by code_simp+
  with repair_bounds_changes [OF mem.irods_backend_axioms moved_up_flags sample_moved(2) sample_placed(2)
      sample_true(2) repair_up_runs, of "''/z/h/a''" "''c''"]
  show ?thesis by simp
qed

theorem repair_reachable_witness:
  "PermissionRead \<le> mem_level (env_world (snd repair_up)) ''/z/h/a'' ''c''"
proof -
  have held: "\<not> ignores (sample_repair ''/z/h/a/f'') ''c''"
    "mem_level (env_world (snd repair_up)) (mc_destination (sample_repair ''/z/h/a/f'')) ''c'' \<noteq> PermissionNone"
    by code_simp+
  have above: "''/z/h/a'' \<in> set (ancestorsOf (mc_destination (sample_repair ''/z/h/a/f''))
      (\<lambda>p. IsSharing (mc_layout (sample_repair ''/z/h/a/f'')) p \<or> IsTrashBase (mc_layout (sample_repair ''/z/h/a/f'')) p))"
    by code_simp
  show ?thesis
    by (rule repair_reachable [OF mem.irods_backend_axioms moved_up_flags sample_moved(2) sample_placed(2)
          sample_true(2) repair_up_runs held above])
qed

end
