(* ===== verification/Sharing.thy ===== *)
theory Sharing
  imports Permissions
begin

text \<open>
  \<open>internal/service/sharing.go\<close>: sharing a path with a user and taking the share back, over any
  \<open>ShareStore\<close>.  The locale \<open>share_contract\<close> extends \<open>acl_store\<close> by the two operations a
  \<open>ShareStore\<close> has besides.
\<close>

section \<open>sharing.go\<close>

definition SkipShareWithSelf :: string where "SkipShareWithSelf = ''share-with-self''"
definition SkipShareFromTrash :: string where "SkipShareFromTrash = ''share-from-trash''"
definition SkipAlreadyShared :: string where "SkipAlreadyShared = ''already-shared''"
definition SkipUnshareWithSelf :: string where "SkipUnshareWithSelf = ''unshare-with-self''"
definition SkipNotShared :: string where "SkipNotShared = ''not-shared''"

record share_request =
  sr_owner :: string
  sr_sharee :: string
  sr_path :: string
  sr_permission :: permission
  sr_admins :: "string list"
  sr_proxy :: string
  sr_layout :: layout

definition ownerHomeOf :: "string \<Rightarrow> string" where
  "ownerHomeOf path =
     (let parts = split_on slash (trim_right path)
      in if length parts < 4 then trim_right path else join_with ''/'' (take 4 parts))"

definition share_stop :: "share_request \<Rightarrow> string \<Rightarrow> bool" where
  "share_stop req path \<longleftrightarrow> path = ownerHomeOf (sr_path req) \<or> IsTrashBase (sr_layout req) path"

text \<open>The body of \<open>Share\<close>'s walk, and what it does for the owner's home.\<close>

definition ensure_read :: "('s, 'm) permission_store_scheme \<Rightarrow> string \<Rightarrow> string \<Rightarrow> ('s, unit) op" where
  "ensure_read store sharee path =
     bindM (permissionOf store path sharee)
       (\<lambda>current. if Permits current PermissionRead then returnM ()
         else wrapM ''granting read'' (ps_SetPermission store path sharee PermissionRead False))"

definition Share :: "('s, 'm) share_store_scheme \<Rightarrow> share_request \<Rightarrow> ('s, string) op" where
  "Share store req =
     (if sr_owner req = sr_sharee req then returnM SkipShareWithSelf
      else if InTrash (sr_layout req) (sr_path req) then returnM SkipShareFromTrash
      else bindM (permissionOf store (sr_path req) (sr_sharee req)) (\<lambda>held.
        if held = sr_permission req then returnM SkipAlreadyShared
        else thenM (forM (ensure_read store (sr_sharee req)) (ancestorsOf (sr_path req) (share_stop req)))
          (bindM (ss_Stat store (sr_path req)) (\<lambda>st.
           thenM (if st_type st = ObjectTypeDir
                  then wrapM ''setting the inherit bit'' (ss_SetInherit store (sr_path req) True True)
                  else returnM ())
          (thenM (ensure_read store (sr_sharee req) (ownerHomeOf (sr_path req)))
          (thenM (wrapM ''granting'' (ps_SetPermission store (sr_path req) (sr_sharee req)
                    (sr_permission req) True))
            (returnM [])))))))"

definition clearInheritWhenUnshared :: "('s, 'm) share_store_scheme \<Rightarrow> share_request \<Rightarrow> ('s, unit) op" where
  "clearInheritWhenUnshared store req =
     bindM (wrapM ''reading the access list'' (ps_ACL store (sr_path req))) (\<lambda>entries.
       if list_ex (\<lambda>e. \<not> (acl_user e = sr_owner req \<or> acl_user e = sr_proxy req \<or>
                           List.member (sr_admins req) (acl_user e))) entries
       then returnM ()
       else wrapM ''clearing the inherit bit'' (ss_SetInherit store (sr_path req) False True))"

definition Unshare :: "('s, 'm) share_store_scheme \<Rightarrow> share_request \<Rightarrow> ('s, string) op" where
  "Unshare store req =
     (if sr_owner req = sr_sharee req then returnM SkipUnshareWithSelf
      else bindM (permissionOf store (sr_path req) (sr_sharee req)) (\<lambda>held.
        if \<not> Permits held PermissionRead then returnM SkipNotShared
        else thenM (wrapM ''removing access'' (ps_SetPermission store (sr_path req) (sr_sharee req)
                      PermissionNone True))
          (bindM (ss_Stat store (sr_path req)) (\<lambda>st.
           thenM (if st_type st = ObjectTypeDir then clearInheritWhenUnshared store req else returnM ())
          (thenM (take_back_read store (sr_sharee req) (ancestorsOf (sr_path req) (share_stop req)))
            (returnM []))))))"

section \<open>The contract\<close>

lemma Permits_read: "Permits l PermissionRead \<longleftrightarrow> PermissionRead \<le> l"
  by (cases l) (simp_all add: Permits_def less_eq_permission_def)

lemma below_read: "\<not> PermissionRead \<le> l \<longleftrightarrow> l = PermissionNone"
  by (cases l) (simp_all add: less_eq_permission_def)

lemma ownerHomeOf_abs:
  assumes "good_comps cs" "3 \<le> length cs"
  shows "ownerHomeOf (abs_path cs) = abs_path (take 3 cs)"
proof -
  have "join_with ''/'' ([] # ds) = abs_path ds" if "ds \<noteq> []" for ds
    using that slash_join_abs [OF that] by (cases ds) (simp_all add: slash_join_def)
  moreover have "take 3 cs \<noteq> []"
    using assms(2) by (cases cs) auto
  ultimately show ?thesis
    using assms by (simp add: ownerHomeOf_def trim_right_abs split_on_abs_path)
qed

lemma canonical_ownerHome: "canonical p \<Longrightarrow> canonical (ownerHomeOf p)"
proof (erule canonicalE)
  fix cs c
  assume c: "good_comps cs" "good_comp c" "p = abs_path (cs @ [c])"
  then have good: "good_comps (cs @ [c])"
    by simp
  show ?thesis
  proof (cases "3 \<le> length (cs @ [c])")
    case True
    then have "ownerHomeOf p = abs_path (take 3 (cs @ [c]))"
      unfolding c(3) by (rule ownerHomeOf_abs [OF good])
    moreover have "take 3 (cs @ [c]) \<noteq> []" "good_comps (take 3 (cs @ [c]))"
      using good by (auto simp: list_all_iff dest: in_set_takeD)
    ultimately show ?thesis
      unfolding canonical_iff by blast
  next
    case False
    then have "ownerHomeOf p = p"
      using c good by (simp add: ownerHomeOf_def split_on_abs_path trim_right_abs del: abs_path_append)
    with c good show ?thesis
      unfolding canonical_iff by (metis append_is_Nil_conv list.simps(3))
  qed
qed

lemma ancestors_not_within:
  "canonical p \<Longrightarrow> a \<in> set (ancestorsOf p stop) \<Longrightarrow> \<not> IsWithin a p"
proof (erule canonicalE)
  fix cs c
  assume c: "good_comps cs" "good_comp c" "p = abs_path (cs @ [c])" and a: "a \<in> set (ancestorsOf p stop)"
  then obtain k where k: "k \<le> length cs" "a = abs_path (take k cs)"
    using ancestorsOf_abs by blast
  have "good_comps (take k cs)"
    using c(1) by (auto simp: list_all_iff dest: in_set_takeD)
  then have "IsWithin a p \<longleftrightarrow> prefix (cs @ [c]) (take k cs)"
    using c k IsWithin_comps [of "take k cs" "cs @ [c]"] by (simp del: abs_path_append)
  then show ?thesis
    using k by (auto dest: prefix_length_le)
qed

text \<open>What the walk may do: raise nothing to read.\<close>

definition raised :: "permission \<Rightarrow> permission \<Rightarrow> bool" where
  "raised k l \<longleftrightarrow> l = k \<or> k = PermissionNone \<and> l = PermissionRead"

text \<open>The collections a share makes readable.\<close>

definition walked :: "share_request \<Rightarrow> string set" where
  "walked req = set (ancestorsOf (sr_path req) (share_stop req)) \<union> {ownerHomeOf (sr_path req)}"

locale share_contract = acl_store st level fresh
  for st :: "('s, 'm) share_store_scheme"
    and level :: "'s \<Rightarrow> string \<Rightarrow> string \<Rightarrow> permission"
    and fresh :: "'s \<Rightarrow> string \<Rightarrow> bool" +
  assumes Stat_frame: "ss_Stat st p s = (r, s') \<Longrightarrow> level s' = level s"
    and Stat_fresh: "ss_Stat st p s = (r, s') \<Longrightarrow> fresh s q \<Longrightarrow> fresh s' q"
    and SetInherit_frame: "ss_SetInherit st p on rec s = (x, s') \<Longrightarrow> level s' = level s"
    and SetInherit_fresh: "ss_SetInherit st p on rec s = (x, s') \<Longrightarrow> fresh s q \<Longrightarrow> fresh s' q"
begin

text \<open>Sharing concerns one user only.\<close>

lemma keeps_ensure_read: "\<not> U u \<Longrightarrow> keeps (same_levels level U) (ensure_read st u p)"
  unfolding ensure_read_def
  by (intro keeps_bindM keeps_if keeps_wrapM keeps_returnM preorder_same_levels keeps_permissionOf
      keeps_same_SetPermission)

lemma keeps_share_Stat: "keeps (same_levels level U) (ss_Stat st p)"
  by (rule keepsI) (simp add: same_levels_def Stat_frame)

lemma keeps_share_SetInherit: "keeps (same_levels level U) (ss_SetInherit st p on rec)"
  by (rule keepsI) (simp add: same_levels_def SetInherit_frame)

lemma share_others:
  "keeps (same_levels level (\<lambda>u. u \<noteq> sr_sharee req)) (Share st req)"
  "keeps (same_levels level (\<lambda>u. u \<noteq> sr_sharee req)) (Unshare st req)"
  unfolding Share_def Unshare_def clearInheritWhenUnshared_def
  by (intro keeps_bindM keeps_thenM keeps_if keeps_wrapM keeps_returnM keeps_forM preorder_same_levels
      keeps_permissionOf keeps_ensure_read keeps_take_back_read keeps_same_SetPermission
      keeps_same_ACL keeps_share_Stat keeps_share_SetInherit; simp)+

lemma hoare_ensure_read:
  assumes "D p"
  shows "hoare (kept raised D s0) (ensure_read st u p)
    (\<lambda>_ s. kept raised D s0 s \<and> PermissionRead \<le> level s p u) (levels_rel level raised s0)"
  unfolding ensure_read_def
proof (rule hoare_bindM)
  show "hoare (kept raised D s0) (permissionOf st p u) (\<lambda>held s. kept raised D s0 s \<and> held = level s p u) (levels_rel level raised s0)"
    by (rule hoare_conseq [OF hoare_permissionOf [of D, OF assms]]) auto
  fix held
  show "hoare (\<lambda>s. kept raised D s0 s \<and> held = level s p u)
      (if Permits held PermissionRead then returnM ()
       else wrapM ''granting read'' (ps_SetPermission st p u PermissionRead False))
      (\<lambda>_ s. kept raised D s0 s \<and> PermissionRead \<le> level s p u) (levels_rel level raised s0)"
  proof (rule hoare_if)
    assume "Permits held PermissionRead"
    then show "hoare (\<lambda>s. kept raised D s0 s \<and> held = level s p u) (returnM ())
        (\<lambda>_ s. kept raised D s0 s \<and> PermissionRead \<le> level s p u) (levels_rel level raised s0)"
      by (intro hoare_returnM) (auto simp: Permits_read)
  next
    assume none: "\<not> Permits held PermissionRead"
    show "hoare (\<lambda>s. kept raised D s0 s \<and> held = level s p u)
        (wrapM ''granting read'' (ps_SetPermission st p u PermissionRead False))
        (\<lambda>_ s. kept raised D s0 s \<and> PermissionRead \<le> level s p u) (levels_rel level raised s0)"
    proof (cases "raised (level s0 p u) PermissionRead")
      case True
      show ?thesis
        by (rule hoare_wrapM, rule hoare_conseq, rule hoare_flat_set [where R = raised, OF True]) auto
    next
      case False
      have "\<not> (kept raised D s0 s \<and> held = level s p u)" for s
        using none False by (auto simp: kept_def levels_rel_def raised_def Permits_read below_read)
          (metis permission.distinct(1))
      then show ?thesis by (intro hoareI) blast+
    qed
  qed
qed

lemma hoare_ensure_keeps:
  "hoare (\<lambda>s. PermissionRead \<le> level s q v) (ensure_read st u p)
     (\<lambda>_ s. PermissionRead \<le> level s q v) (\<lambda>_. True)"
proof -
  have "hoare (\<lambda>s. PermissionRead \<le> level s q v) (ps_ACL st p) (\<lambda>_ s. PermissionRead \<le> level s q v) (\<lambda>_. True)"
    by (intro hoareI) (auto dest: ACL_frame)
  moreover have "hoare (\<lambda>s. PermissionRead \<le> level s q v) (ps_SetPermission st p u PermissionRead False)
      (\<lambda>_ s. PermissionRead \<le> level s q v) (\<lambda>_. True)"
    by (intro hoareI) (auto, metis SetPermission_frame SetPermission_or_not order_refl)
  ultimately show ?thesis
    unfolding ensure_read_def permissionOf_def by (intro hoare_intros)
qed

lemma hoare_kept_frames:
  "hoare (kept R D s0) (ss_Stat st p) (\<lambda>_. kept R D s0) (levels_rel level R s0)"
  "hoare (kept R D s0) (ss_SetInherit st p on rec) (\<lambda>_. kept R D s0) (levels_rel level R s0)"
  "hoare (kept R D s0) (ps_ACL st p) (\<lambda>_. kept R D s0) (levels_rel level R s0)"
  by (intro hoareI; auto simp: kept_def levels_rel_def Stat_frame SetInherit_frame ACL_frame
        dest: Stat_fresh SetInherit_fresh ACL_fresh)+

lemma hoare_frames:
  assumes "\<And>s s'. level s' = level s \<Longrightarrow> X s \<Longrightarrow> X s'"
  shows "hoare X (ss_Stat st p) (\<lambda>_. X) X" "hoare X (ss_SetInherit st p on rec) (\<lambda>_. X) X"
    "hoare X (ps_ACL st p) (\<lambda>_. X) X"
  using assms Stat_frame SetInherit_frame ACL_frame by (intro hoareI; blast)+

text \<open>Outside the shared path, sharing gives read and takes nothing, and unsharing takes only read.\<close>

definition outside :: "(permission \<Rightarrow> permission \<Rightarrow> bool) \<Rightarrow> string \<Rightarrow> 's \<Rightarrow> 's \<Rightarrow> bool" where
  "outside R p s0 s \<longleftrightarrow> (\<forall>q u. \<not> IsWithin q p \<longrightarrow> R (level s0 q u) (level s q u))"

lemma outside_rel: "levels_rel level R s0 s \<Longrightarrow> outside R p s0 s"
  by (simp add: outside_def levels_rel_def)

lemma outside_kept: "kept R D s0 s \<Longrightarrow> outside R p s0 s"
  by (simp add: kept_def outside_rel)

lemma hoare_grant:
  assumes "PermissionRead \<le> l"
  shows "hoare (\<lambda>s. kept raised D s0 s \<and> (\<forall>a \<in> A. PermissionRead \<le> level s a u))
    (ps_SetPermission st p u l True)
    (\<lambda>_ s. outside raised p s0 s \<and> level s p u = l \<and> (\<forall>a \<in> A. PermissionRead \<le> level s a u))
    (outside raised p s0)"
proof -
  have out: "outside raised p s0 s'"
    if "ps_SetPermission st p u l True s = (x, s')" "kept raised D s0 s" for s x s'
    using that SetPermission_outside [OF that(1)] by (auto simp: outside_def kept_def levels_rel_def)
  have read: "PermissionRead \<le> level s' a u"
    if "ps_SetPermission st p u l True s = (x, s')" "PermissionRead \<le> level s a u" for s x s' a
    using SetPermission_or_not [OF that(1), of a] that(2) assms by metis
  show ?thesis
    by (intro hoareI) (auto simp: SetPermission_level intro: out read)
qed

lemma hoare_ensure_all:
  assumes "\<And>a. a \<in> set as \<Longrightarrow> D a"
  shows "hoare (kept raised D s0) (forM (ensure_read st u) as)
    (\<lambda>_ s. kept raised D s0 s \<and> (\<forall>a \<in> set as. PermissionRead \<le> level s a u)) (levels_rel level raised s0)"
proof (rule hoare_forM_each)
  fix x y
  assume x: "x \<in> set as" and y: "y \<in> set as"
  show "hoare (kept raised D s0) (ensure_read st u x)
      (\<lambda>_ s. kept raised D s0 s \<and> PermissionRead \<le> level s x u) (levels_rel level raised s0)"
    by (rule hoare_ensure_read) (rule assms [OF x])
  show "hoare (\<lambda>s. kept raised D s0 s \<and> PermissionRead \<le> level s x u) (ensure_read st u y)
      (\<lambda>_ s. PermissionRead \<le> level s x u) (levels_rel level raised s0)"
    by (rule hoare_conseq [OF hoare_conj [OF hoare_ensure_read [of D y, OF assms [OF y], of s0 u]
          hoare_ensure_keeps [of x u u y]]]) auto
qed

lemma hoare_Share:
  assumes D: "\<And>q. q = sr_path req \<or> q \<in> walked req \<Longrightarrow> D q"
    and valid: "PermissionRead \<le> sr_permission req"
  shows "hoare (kept raised D s0) (Share st req)
    (\<lambda>r s. outside raised (sr_path req) s0 s \<and>
       (r = SkipAlreadyShared \<or> r = [] \<longrightarrow> level s (sr_path req) (sr_sharee req) = sr_permission req) \<and>
       (r = [] \<longrightarrow> (\<forall>a \<in> walked req. PermissionRead \<le> level s a (sr_sharee req))))
    (outside raised (sr_path req) s0)"
    (is "hoare ?K _ ?Q ?E")
proof -
  let ?u = "sr_sharee req" and ?p = "sr_path req" and ?h = "ownerHomeOf (sr_path req)"
  let ?as = "ancestorsOf ?p (share_stop req)"
  let ?A = "\<lambda>A s. ?K s \<and> (\<forall>a \<in> A. PermissionRead \<le> level s a ?u)"
  have err: "hoare P m Q (levels_rel level raised s0) \<Longrightarrow> hoare P m Q ?E" for P :: "'s \<Rightarrow> bool" and m :: "('s, 'z) op" and Q
    by (erule hoare_conseq) (auto intro: outside_rel)
  have walk: "hoare ?K (forM (ensure_read st ?u) ?as) (\<lambda>_. ?A (set ?as)) ?E"
    by (rule err, rule hoare_ensure_all) (simp add: D walked_def)
  have frames: "hoare (?A A) (ss_Stat st q) (\<lambda>_. ?A A) ?E" "hoare (?A A) (ss_SetInherit st q on rec) (\<lambda>_. ?A A) ?E"
    for q A on rec
    by (rule err [OF hoare_conj], rule hoare_kept_frames, rule hoare_frames, simp)+
  have home: "hoare (?A (set ?as)) (ensure_read st ?u ?h) (\<lambda>_. ?A (walked req)) ?E"
  proof -
    have "hoare ?K (ensure_read st ?u ?h) (\<lambda>_ s. ?K s \<and> PermissionRead \<le> level s ?h ?u) ?E"
      by (rule err, rule hoare_ensure_read) (simp add: D walked_def)
    from hoare_conj [OF this hoare_ball [OF hoare_ensure_keeps]] show ?thesis
      by (rule hoare_conseq) (auto simp: walked_def)
  qed
  have grant: "hoare (?A (walked req)) (ps_SetPermission st ?p ?u (sr_permission req) True)
      (\<lambda>_. ?Q []) ?E"
    by (rule hoare_conseq [OF hoare_grant [OF valid]]) auto
  have act: "hoare ?K (thenM (forM (ensure_read st ?u) ?as)
          (bindM (ss_Stat st ?p) (\<lambda>stt.
           thenM (if st_type stt = ObjectTypeDir
                  then wrapM ''setting the inherit bit'' (ss_SetInherit st ?p True True)
                  else returnM ())
          (thenM (ensure_read st ?u ?h)
          (thenM (wrapM ''granting'' (ps_SetPermission st ?p ?u (sr_permission req) True))
            (returnM [])))))) ?Q ?E"
    by (rule hoare_thenM [OF walk], rule hoare_bindM [OF frames(1)], rule hoare_thenM_inv,
        rule hoare_if, rule hoare_wrapM [OF frames(2)], rule hoare_returnM, assumption,
        rule hoare_thenM [OF home], rule hoare_thenM [OF hoare_wrapM [OF grant]], rule hoare_returnM)
  have skip: "?Q SkipShareWithSelf s" "?Q SkipShareFromTrash s" if "?K s" for s
    using outside_kept [OF that] by (simp_all add: SkipShareWithSelf_def SkipShareFromTrash_def SkipAlreadyShared_def)
  have held: "hoare ?K (permissionOf st ?p ?u) (\<lambda>held s. ?K s \<and> held = level s ?p ?u) ?E"
    by (rule err, rule hoare_permissionOf) (simp add: D)
  show ?thesis
    unfolding Share_def
    by (rule hoare_if, rule hoare_returnM, erule skip, rule hoare_if, rule hoare_returnM, erule skip,
        rule hoare_bindM [OF held], rule hoare_if, rule hoare_returnM, simp add: SkipAlreadyShared_def outside_kept,
        rule hoare_pre [OF act], simp)
qed

text \<open>Unsharing: after the recursive removal at \<open>p\<close> nothing above changes but that read goes.\<close>

definition removed :: "string \<Rightarrow> string \<Rightarrow> (string \<Rightarrow> bool) \<Rightarrow> 's \<Rightarrow> 's \<Rightarrow> bool" where
  "removed p u D s0 s \<longleftrightarrow> (\<exists>s1. (\<forall>q v. \<not> IsWithin q p \<longrightarrow> level s1 q v = level s0 q v) \<and>
     level s1 p u = PermissionNone \<and> kept only_read_goes D s1 s)"

lemma removed_outside: "removed p u D s0 s \<Longrightarrow> outside only_read_goes p s0 s \<and> level s p u = PermissionNone"
  unfolding removed_def outside_def kept_def levels_rel_def only_read_goes_def
  by (metis permission.distinct(1))

lemma hoare_remove:
  assumes "\<And>q. D q \<Longrightarrow> \<not> IsWithin q p"
  shows "hoare (kept (=) D s0) (ps_SetPermission st p u PermissionNone True)
    (\<lambda>_. removed p u D s0) (outside only_read_goes p s0)"
proof (rule hoareI)
  fix s a s'
  assume s: "kept (=) D s0 s" and set: "ps_SetPermission st p u PermissionNone True s = (Inr a, s')"
  have "level s' q v = level s0 q v" if "\<not> IsWithin q p" for q v
    using SetPermission_outside [OF set that] s by (simp add: kept_def levels_rel_def)
  moreover have "kept only_read_goes D s' s'"
    using s set assms by (auto simp: kept_def levels_rel_def only_read_goes_def intro: SetPermission_fresh)
  moreover have "level s' p u = PermissionNone"
    using set by (simp add: SetPermission_level)
  ultimately show "removed p u D s0 s'"
    unfolding removed_def by blast
next
  fix s e s'
  assume s: "kept (=) D s0 s" and set: "ps_SetPermission st p u PermissionNone True s = (Inl e, s')"
  then show "outside only_read_goes p s0 s'"
    using SetPermission_outside [OF set]
    by (auto simp: outside_def kept_def levels_rel_def only_read_goes_def)
qed

lemma hoare_removed:
  assumes "\<And>s1. hoare (kept only_read_goes D s1) m (\<lambda>_. kept only_read_goes D s1) (levels_rel level only_read_goes s1)"
  shows "hoare (removed p u D s0) m (\<lambda>_. removed p u D s0) (outside only_read_goes p s0)"
proof (rule hoareI)
  fix s a s'
  assume "removed p u D s0 s" "m s = (Inr a, s')"
  then show "removed p u D s0 s'"
    unfolding removed_def using hoareD [OF assms] by blast
next
  fix s e s'
  assume "removed p u D s0 s" "m s = (Inl e, s')"
  then obtain s1 where "\<forall>q v. \<not> IsWithin q p \<longrightarrow> level s1 q v = level s0 q v" "levels_rel level only_read_goes s1 s'"
    unfolding removed_def using hoareD_err [OF assms] by blast
  then show "outside only_read_goes p s0 s'"
    unfolding outside_def levels_rel_def by metis
qed

lemma hoare_Unshare:
  assumes D: "\<And>q. q \<in> set (ancestorsOf (sr_path req) (share_stop req)) \<Longrightarrow> \<not> IsWithin q (sr_path req)"
  shows "hoare (kept (=) (\<lambda>q. q = sr_path req \<or> q \<in> set (ancestorsOf (sr_path req) (share_stop req))) s0) (Unshare st req)
    (\<lambda>r s. outside only_read_goes (sr_path req) s0 s \<and>
       (sr_owner req \<noteq> sr_sharee req \<longrightarrow> level s (sr_path req) (sr_sharee req) = PermissionNone))
    (outside only_read_goes (sr_path req) s0)"
    (is "hoare ?K _ ?Q ?E")
proof -
  let ?u = "sr_sharee req" and ?p = "sr_path req"
  let ?as = "ancestorsOf ?p (share_stop req)"
  let ?D = "\<lambda>q. q \<in> set (ancestorsOf (sr_path req) (share_stop req))"
  let ?R = "removed ?p ?u ?D s0"
  have remove: "hoare ?K (ps_SetPermission st ?p ?u PermissionNone True) (\<lambda>_. ?R) ?E"
    by (rule hoare_pre [OF hoare_remove [OF D]]) (simp_all add: kept_def)
  have clear: "hoare ?R (clearInheritWhenUnshared st req) (\<lambda>_. ?R) ?E"
    unfolding clearInheritWhenUnshared_def
    by (rule hoare_removed, rule hoare_bindM_inv, rule hoare_wrapM, rule hoare_kept_frames, rule hoare_if,
        rule hoare_returnM, assumption, rule hoare_wrapM, rule hoare_kept_frames)
  have taken: "hoare ?R (take_back_read st ?u ?as) (\<lambda>_. ?R) ?E"
    by (rule hoare_removed, rule hoare_take_back_read) (auto simp: only_read_goes_def)
  have act: "hoare ?K (thenM (wrapM ''removing access'' (ps_SetPermission st ?p ?u PermissionNone True))
          (bindM (ss_Stat st ?p) (\<lambda>stt.
           thenM (if st_type stt = ObjectTypeDir then clearInheritWhenUnshared st req else returnM ())
          (thenM (take_back_read st ?u ?as) (returnM []))))) ?Q ?E"
    by (rule hoare_thenM [OF hoare_wrapM [OF remove]], rule hoare_bindM_inv, rule hoare_removed,
        rule hoare_kept_frames, rule hoare_thenM_inv, rule hoare_if, rule clear, rule hoare_returnM, assumption,
        rule hoare_thenM_inv, rule taken, rule hoare_returnM, drule removed_outside, simp)
  have same: "levels_rel level (=) s0 s \<Longrightarrow> ?E s" for s
    unfolding outside_def levels_rel_def only_read_goes_def by metis
  have held: "hoare ?K (permissionOf st ?p ?u) (\<lambda>held s. ?K s \<and> held = level s ?p ?u) ?E"
    by (rule hoare_conseq [OF hoare_permissionOf [of "\<lambda>q. q = ?p \<or> q \<in> set (ancestorsOf (sr_path req) (share_stop req))"]]) (auto intro: same)
  have K: "?K s \<Longrightarrow> ?E s" for s
    unfolding kept_def by (blast intro: same)
  show ?thesis
    unfolding Unshare_def
    by (rule hoare_if, rule hoare_returnM, simp add: K, rule hoare_bindM [OF held], rule hoare_if, rule hoare_returnM,
        simp add: K Permits_read below_read, rule hoare_pre [OF act], simp)
qed

end

end
