(* ===== verification/Shares.thy ===== *)
theory Shares
  imports MemStore Sharing
begin

text \<open>
  Sharing and unsharing (\<open>service/sharing.go\<close>) as they run in the service, on a request scope
  over any data store with the laws of \<open>irods_backend\<close>; the witnesses run them in memory.
\<close>

section \<open>A scope is a store shares can be made in\<close>

context irods_backend
begin

lemma scope_Stat_undisturbed: "Stat deps h p s = (r, s') \<Longrightarrow> undisturbed h s s'"
  using undisturbed_Stat by (rule keepsD)

lemma SetInherit_effect:
  assumes "SetInherit deps h p on rec s = (x, s')"
  shows "level (env_world s') = level (env_world s)"
    and "\<forall>q es. sc_acls (env_scopes s' h) q = Some es \<longrightarrow> sc_acls (env_scopes s h) q = Some es"
proof -
  obtain q1 s1 where 1: "scope_session deps h s = (q1, s1)"
    by (cases "scope_session deps h s")
  have s1: "undisturbed h s s1"
    using undisturbed_session 1 by (rule keepsD)
  have "level (env_world s') = level (env_world s) \<and>
    (\<forall>q es. sc_acls (env_scopes s' h) q = Some es \<longrightarrow> sc_acls (env_scopes s h) q = Some es)"
  proof (cases q1)
    case (Inl e)
    with assms 1 s1 show ?thesis
      by (simp add: SetInherit_def undisturbed_def)
  next
    case sess: (Inr sess)
    obtain q2 s2 where 2: "Stat deps h (normalizePath p) s1 = (q2, s2)"
      by (cases "Stat deps h (normalizePath p) s1")
    have s2: "undisturbed h s s2"
      using s1 scope_Stat_undisturbed [OF 2] preorder_rel_trans [OF preorder_undisturbed] by blast
    obtain q3 s3 where 3: "on_session h sess (ops_SetInherit (dep_fs deps) (normalizePath p) on rec False) s2 = (q3, s3)"
      by (cases "on_session h sess (ops_SetInherit (dep_fs deps) (normalizePath p) on rec False) s2")
    have "keeps (undisturbed h) (on_session h sess (ops_SetInherit (dep_fs deps) (normalizePath p) on rec False))"
      unfolding ops_SetInherit_def
      by (rule undisturbed_on_session) (auto elim!: DoPath_frame dest: set_inheritance_frame)
    then have s3: "undisturbed h s s3"
      using s2 3 keepsD preorder_rel_trans [OF preorder_undisturbed] by metis
    have "s' = s2 \<or> s' = s3 \<or> s' = snd (invalidate h (normalizePath p) s3)"
      using assms 1 2 3 sess
      by (auto simp: SetInherit_def bindM_def thenM_def split: sum.splits prod.splits if_splits)
    then show ?thesis
      using s2 s3 by (auto simp: undisturbed_def invalidate_def upd_scope_def split: if_splits)
  qed
  then show "level (env_world s') = level (env_world s)"
    "\<forall>q es. sc_acls (env_scopes s' h) q = Some es \<longrightarrow> sc_acls (env_scopes s h) q = Some es"
    by blast+
qed

lemma scope_SetInherit_frame: "SetInherit deps h p on rec s = (x, s') \<Longrightarrow> env_level s' = env_level s"
  by (simp add: env_level_def SetInherit_effect(1) fun_eq_iff)

lemma scope_SetInherit_fresh: "SetInherit deps h p on rec s = (x, s') \<Longrightarrow> fresh h s q \<Longrightarrow> fresh h s' q"
  using SetInherit_effect [of h p on rec s x s'] by (simp add: fresh_iff)

end

sublocale scope_backend \<subseteq> shared: share_contract "scope_store deps h" env_level "fresh h"
proof (unfold_locales, simp_all only: scope_store_simps)
  fix p q s s' on rec
  show "\<And>r. Stat deps h p s = (r, s') \<Longrightarrow> env_level s' = env_level s"
    by (rule env_level_undisturbed [OF scope_Stat_undisturbed])
  show "\<And>r. Stat deps h p s = (r, s') \<Longrightarrow> fresh h s q \<Longrightarrow> fresh h s' q"
    by (rule fresh_undisturbed [OF scope_Stat_undisturbed])
  show "\<And>x. SetInherit deps h p on rec s = (x, s') \<Longrightarrow> env_level s' = env_level s"
    by (rule scope_SetInherit_frame)
  show "\<And>x. SetInherit deps h p on rec s = (x, s') \<Longrightarrow> fresh h s q \<Longrightarrow> fresh h s' q"
    by (rule scope_SetInherit_fresh)
qed

section \<open>Shares on the data store\<close>

lemma canonical_walked: "canonical (sr_path req) \<Longrightarrow> q = sr_path req \<or> q \<in> walked req \<Longrightarrow> canonical q"
  by (auto simp: walked_def canonical_ownerHome canonical_ancestors)

context scope_backend
begin

lemma scope_share_others:
  assumes "Share (scope_store deps h) req s = (r, s') \<or> Unshare (scope_store deps h) req s = (r, s')"
    and "u \<noteq> sr_sharee req" "canonical p"
  shows "level (env_world s') p u = level (env_world s) p u"
proof -
  have "same_levels env_level (\<lambda>u. u \<noteq> sr_sharee req) s s'"
    using assms(1) keepsD [OF shared.share_others(1)] keepsD [OF shared.share_others(2)] by blast
  with assms(2,3) show ?thesis
    unfolding same_levels_def env_level_def using canonical_normal by metis
qed

lemma fresh_all: "(\<And>p. remembers_truly level h s p) \<Longrightarrow> canonical q \<Longrightarrow> fresh h s q"
  by (simp add: fresh_def)

lemma scope_Share:
  assumes "canonical (sr_path req)" "\<And>p. remembers_truly level h s p"
    and "PermissionRead \<le> sr_permission req"
    and run: "Share (scope_store deps h) req s = (r, s')"
  shows "canonical q \<Longrightarrow> \<not> IsWithin q (sr_path req) \<Longrightarrow> raised (level (env_world s) q u) (level (env_world s') q u)"
    and "r = Inr SkipAlreadyShared \<or> r = Inr [] \<Longrightarrow>
      level (env_world s') (sr_path req) (sr_sharee req) = sr_permission req"
    and "r = Inr [] \<Longrightarrow> a \<in> walked req \<Longrightarrow> PermissionRead \<le> level (env_world s') a (sr_sharee req)"
proof -
  let ?D = "\<lambda>q. q = sr_path req \<or> q \<in> walked req"
  have pre: "store.kept raised ?D s s"
    using fresh_all [OF assms(2)] canonical_walked [OF assms(1)]
    by (auto simp: store.kept_def levels_rel_def raised_def)
  note triple = shared.hoare_Share [of req ?D s, OF _ assms(3)]
  have "shared.outside raised (sr_path req) s s'"
    by (cases r) (use hoareD [OF triple pre] hoareD_err [OF triple pre] run in blast)+
  then show "canonical q \<Longrightarrow> \<not> IsWithin q (sr_path req) \<Longrightarrow> raised (level (env_world s) q u) (level (env_world s') q u)"
    unfolding shared.outside_def env_level_def by (metis canonical_normal)
  have path: "normalizePath (sr_path req) = sr_path req"
    using assms(1) by (rule canonical_normal)
  show "level (env_world s') (sr_path req) (sr_sharee req) = sr_permission req"
    if "r = Inr SkipAlreadyShared \<or> r = Inr []"
    using hoareD [OF triple pre] run that path unfolding env_level_def by auto
  show "PermissionRead \<le> level (env_world s') a (sr_sharee req)" if "r = Inr []" "a \<in> walked req"
  proof -
    have "normalizePath a = a"
      using canonical_walked [OF assms(1)] that(2) by (simp add: canonical_normal)
    with hoareD [OF triple pre] run that show ?thesis
      unfolding env_level_def by metis
  qed
qed

lemma scope_Unshare:
  assumes "canonical (sr_path req)" "\<And>p. remembers_truly level h s p"
    and run: "Unshare (scope_store deps h) req s = (r, s')"
  shows "canonical q \<Longrightarrow> \<not> IsWithin q (sr_path req) \<Longrightarrow>
      only_read_goes (level (env_world s) q u) (level (env_world s') q u)"
    and "r = Inr x \<Longrightarrow> sr_owner req \<noteq> sr_sharee req \<Longrightarrow>
      level (env_world s') (sr_path req) (sr_sharee req) = PermissionNone"
proof -
  let ?as = "set (ancestorsOf (sr_path req) (share_stop req))"
  have pre: "store.kept (=) (\<lambda>q. q = sr_path req \<or> q \<in> ?as) s s"
    using fresh_all [OF assms(2)] assms(1) canonical_ancestors [OF assms(1)]
    by (auto simp: store.kept_def levels_rel_def)
  have "\<not> IsWithin q (sr_path req)" if "q \<in> ?as" for q
    using assms(1) that by (rule ancestors_not_within)
  note triple = shared.hoare_Unshare [of req s, OF this]
  have "shared.outside only_read_goes (sr_path req) s s'"
    by (cases r) (use hoareD [OF triple pre] hoareD_err [OF triple pre] run in blast)+
  then show "canonical q \<Longrightarrow> \<not> IsWithin q (sr_path req) \<Longrightarrow>
      only_read_goes (level (env_world s) q u) (level (env_world s') q u)"
    unfolding shared.outside_def env_level_def by (metis canonical_normal)
  show "level (env_world s') (sr_path req) (sr_sharee req) = PermissionNone"
    if "r = Inr x" "sr_owner req \<noteq> sr_sharee req"
    using hoareD [OF triple pre] run that canonical_normal [OF assms(1)] unfolding env_level_def by auto
qed

end

text \<open>C27.  Sharing a path and taking the share back, successful or not, change what the sharee
  holds and nobody else's access anywhere.\<close>

theorem share_leaves_others:
  assumes "irods_backend deps level"
    and "Share (scope_store deps h) req s = (r, s') \<or> Unshare (scope_store deps h) req s = (r, s')"
    and "u \<noteq> sr_sharee req" "canonical p"
  shows "level (env_world s') p u = level (env_world s) p u"
  by (rule scope_backend.scope_share_others [OF scope_backend.intro [OF assms(1)] assms(2-)])

text \<open>C28.  A share that is made leaves the sharee holding exactly the permission asked for on the
  path and read on the collections above it and the owner's home, and outside the path a share
  gives nothing but read to somebody who held nothing, on every exit.\<close>

theorem share_grants:
  assumes "irods_backend deps level"
    and "canonical (sr_path req)" "\<And>p. remembers_truly level h s p" "PermissionRead \<le> sr_permission req"
    and "Share (scope_store deps h) req s = (r, s')"
  shows "(\<forall>q u. canonical q \<and> \<not> IsWithin q (sr_path req) \<longrightarrow>
            level (env_world s') q u = level (env_world s) q u \<or>
            level (env_world s) q u = PermissionNone \<and> level (env_world s') q u = PermissionRead) \<and>
         (r = Inr [] \<longrightarrow> level (env_world s') (sr_path req) (sr_sharee req) = sr_permission req \<and>
            (\<forall>a \<in> set (ancestorsOf (sr_path req) (share_stop req)) \<union> {ownerHomeOf (sr_path req)}.
               PermissionRead \<le> level (env_world s') a (sr_sharee req)))"
  using scope_backend.scope_Share [OF scope_backend.intro [OF assms(1)] assms(2-)]
  unfolding raised_def walked_def by auto

text \<open>C29.  Taking a share back leaves the sharee holding nothing on the path, unless the request
  was skipped because owner and sharee are the same, and outside the path it takes away read and
  nothing else, on every exit.\<close>

theorem unshare_takes_back:
  assumes "irods_backend deps level"
    and "canonical (sr_path req)" "\<And>p. remembers_truly level h s p"
    and "Unshare (scope_store deps h) req s = (r, s')"
  shows "(\<forall>q u. canonical q \<and> \<not> IsWithin q (sr_path req) \<longrightarrow>
            level (env_world s') q u = level (env_world s) q u \<or>
            level (env_world s) q u = PermissionRead \<and> level (env_world s') q u = PermissionNone) \<and>
         (\<forall>x. r = Inr x \<and> sr_owner req \<noteq> sr_sharee req \<longrightarrow>
            level (env_world s') (sr_path req) (sr_sharee req) = PermissionNone)"
  using scope_backend.scope_Unshare [OF scope_backend.intro [OF assms(1)] assms(2-)]
  unfolding only_read_goes_def by auto

text \<open>User \<open>a\<close> gives \<open>c\<close>, who can read the home already, write access to \<open>f\<close> in it, and takes
  it back.\<close>

definition shared_env :: "mem_world env" where
  "shared_env =
     \<lparr>env_world =
        \<lparr>mw_acls =
           [(''/z/h/a'', [(''a'', PermissionOwn), (''c'', PermissionRead)]),
            (''/z/h/a/f'', [(''a'', PermissionOwn)])],
         mw_inherits = [], mw_avus = [], mw_tickets = []\<rparr>,
      env_scopes = (\<lambda>_. empty_scope ''a'')\<rparr>"

definition sample_share :: share_request where
  "sample_share =
     \<lparr>sr_owner = ''a'', sr_sharee = ''c'', sr_path = ''/z/h/a/f'', sr_permission = PermissionWrite,
      sr_admins = [], sr_proxy = ''r'',
      sr_layout = \<lparr>Zone = ''z'', Home = ''/z/h'', CommunityData = ''/z/h/c''\<rparr>\<rparr>"

abbreviation share_run :: "(gerror + string) \<times> mem_world env" where
  "share_run \<equiv> Share (scope_store mem_deps 0) sample_share shared_env"

lemma shared_env_true: "remembers_truly mem_level h shared_env p"
  by (simp add: remembers_truly_def shared_env_def empty_scope_def)

lemma sample_share_placed:
  "canonical (sr_path sample_share)" "canonical ''/z/h/a''" "\<not> IsWithin ''/z/h/a'' (sr_path sample_share)"
  "canonical ''/z/h/a/f''" "''a'' \<noteq> sr_sharee sample_share" "PermissionRead \<le> sr_permission sample_share"
  by code_simp+

theorem share_leaves_others_witness:
  "mem_level (env_world (snd share_run)) ''/z/h/a/f'' ''a'' = PermissionOwn"
proof -
  have "mem_level (env_world (snd share_run)) ''/z/h/a/f'' ''a'' = mem_level (env_world shared_env) ''/z/h/a/f'' ''a''"
    by (rule share_leaves_others [OF mem.irods_backend_axioms _ sample_share_placed(5,4)])
      (rule disjI1, rule prod.collapse [symmetric])
  also have "\<dots> = PermissionOwn"
    by code_simp
  finally show ?thesis .
qed

theorem share_grants_witness:
  "mem_level (env_world (snd share_run)) ''/z/h/a'' ''c'' = PermissionRead"
proof -
  have "mem_level (env_world shared_env) ''/z/h/a'' ''c'' = PermissionRead"
    by code_simp
  with share_grants [OF mem.irods_backend_axioms sample_share_placed(1) shared_env_true
      sample_share_placed(6) prod.collapse [symmetric]] sample_share_placed(2,3)
  show ?thesis
    by (metis permission.distinct(1))
qed

theorem unshare_takes_back_witness:
  "mem_level (env_world (snd (Unshare (scope_store mem_deps 0) sample_share shared_env))) ''/z/h/a'' ''a'' = PermissionOwn"
proof -
  have "mem_level (env_world shared_env) ''/z/h/a'' ''a'' = PermissionOwn"
    by code_simp
  with unshare_takes_back [OF mem.irods_backend_axioms sample_share_placed(1) shared_env_true
      prod.collapse [symmetric]] sample_share_placed(2,3)
  show ?thesis
    by (metis permission.distinct(9,11))
qed

end
