(* ===== verification/AsyncTasks.thy ===== *)
theory AsyncTasks
  imports ApiErrors
begin

text \<open>
  Package \<open>internal/clients/asynctasks\<close>: task records, the stall rule every task is created
  with, task ids and query parameters.  The async-tasks service itself is not part of the
  repository: the operations that talk to it are parameters of the models that use them.
\<close>

definition TypeMove :: string where "TypeMove = ''data-move''"
definition TypeRename :: string where "TypeRename = ''data-rename''"
definition TypeDelete :: string where "TypeDelete = ''data-delete''"
definition TypeDeleteTrash :: string where "TypeDeleteTrash = ''data-delete-trash''"
definition TypeRestore :: string where "TypeRestore = ''data-restore''"
definition TypeUploadCleanup :: string where "TypeUploadCleanup = ''data-upload-cleanup''"

lemmas type_defs =
  TypeMove_def TypeRename_def TypeDelete_def TypeDeleteTrash_def TypeRestore_def
  TypeUploadCleanup_def

definition StatusRegistered :: string where "StatusRegistered = ''registered''"
definition StatusStarted :: string where "StatusStarted = ''started''"
definition StatusRunning :: string where "StatusRunning = ''running''"
definition StatusCompleted :: string where "StatusCompleted = ''completed''"
definition StatusFailed :: string where "StatusFailed = ''failed''"
definition StatusStalled :: string where "StatusStalled = ''detected-stalled''"

lemmas status_defs =
  StatusRegistered_def StatusStarted_def StatusRunning_def StatusCompleted_def StatusFailed_def
  StatusStalled_def

definition StallTimeout :: string where "StallTimeout = ''10m''"

text \<open>JSON objects: the value of a key, and the values in no particular order.\<close>

definition obj_get :: "(string \<times> json) list \<Rightarrow> string \<Rightarrow> json option" where
  "obj_get obj k = map_of obj k"

definition obj_entries :: "(string \<times> json) list \<Rightarrow> (string \<times> json) list" where
  "obj_entries obj = map (\<lambda>k. (k, the (map_of obj k))) (remdups (map fst obj))"

record status_update =
  status_name :: string
  status_detail :: string

record behavior =
  behavior_type :: string
  behavior_data :: "(string \<times> json) list"

record task =
  task_id :: string
  task_type :: string
  task_user :: string
  task_data :: "(string \<times> json) list"
  task_ended :: bool   \<comment> \<open>whether the record carries an end date\<close>
  task_behaviors :: "behavior list"
  task_statuses :: "status_update list"

definition StallBehavior :: behavior where
  "StallBehavior =
     \<lparr>behavior_type = ''statuschangetimeout'',
      behavior_data = [(''statuses'', JArr (map
        (\<lambda>status. JObj [(''start_status'', JStr status), (''end_status'', JStr StatusStalled),
                        (''timeout'', JStr StallTimeout), (''complete'', JBool True)])
        [StatusRegistered, StatusStarted, StatusRunning]))]\<rparr>"

text \<open>\<open>Filter\<close>; an instant is its number of nanoseconds since the epoch.\<close>

record task_filter =
  IDs :: "string list"
  Types :: "string list"
  Statuses :: "string list"
  Usernames :: "string list"
  IncludeNullEnd :: bool
  EndDateSince :: "int option"
  EndDateBefore :: "int option"
  StartDateSince :: "int option"

text \<open>\<open>Filter.query\<close>: the parameters in the order the code adds them; \<open>RFC3339Nano\<close> is
  the time rendering of the standard library.\<close>

definition filter_query :: "(int \<Rightarrow> string) \<Rightarrow> task_filter \<Rightarrow> (string \<times> string) list" where
  "filter_query RFC3339Nano f =
     map (\<lambda>v. (''id'', v)) (IDs f) @ map (\<lambda>v. (''type'', v)) (Types f)
     @ map (\<lambda>v. (''status'', v)) (Statuses f) @ map (\<lambda>v. (''username'', v)) (Usernames f)
     @ (if IncludeNullEnd f then [(''include_null_end'', ''true'')] else [])
     @ concat (map (\<lambda>(name, w). case w of None \<Rightarrow> [] | Some t \<Rightarrow> [(name, RFC3339Nano t)])
         [(''end_date_since'', EndDateSince f), (''end_date_before'', EndDateBefore f),
          (''start_date_since'', StartDateSince f)])"

text \<open>\<open>NormalizeID\<close>: the greedy pattern \<open>.*/tasks/\<close> removes everything up to and including
  the last \<open>/tasks/\<close> of the id (ids hold no newline, which \<open>.\<close> would not match).\<close>

fun after_last_tasks :: "string \<Rightarrow> string option" where
  "after_last_tasks [] = None"
| "after_last_tasks (c # s) =
     (case after_last_tasks s of
        Some r \<Rightarrow> Some r
      | None \<Rightarrow> if has_prefix (c # s) ''/tasks/'' then Some (drop 7 (c # s)) else None)"

definition NormalizeID :: "string \<Rightarrow> string" where
  "NormalizeID i = (case after_last_tasks i of None \<Rightarrow> i | Some r \<Rightarrow> r)"

lemma after_last_tasks_prefix:
  "after_last_tasks s = Some r \<Longrightarrow> \<exists>u. s = u @ ''/tasks/'' @ r \<and> after_last_tasks r = None"
proof (induction s arbitrary: r)
  case Nil
  then show ?case by simp
next
  case (Cons c s)
  show ?case
  proof (cases "after_last_tasks s")
    case (Some q)
    with Cons obtain u where "s = u @ ''/tasks/'' @ r" "after_last_tasks r = None"
      by fastforce
    then show ?thesis
      by (metis append_Cons)
  next
    case None
    have tail: "after_last_tasks t = None \<Longrightarrow> after_last_tasks (drop n t) = None" for n t
      by (induction t arbitrary: n) (auto simp: drop_Cons' split: option.splits if_splits)
    from Cons.prems None have "prefix ''/tasks/'' (c # s)" and r: "r = drop 7 (c # s)"
      by (auto split: if_splits)
    then have "c # s = [] @ ''/tasks/'' @ r"
      by (auto simp: prefix_def)
    moreover have "after_last_tasks r = None"
      using tail [OF None, of 6] r by simp
    ultimately show ?thesis
      by blast
  qed
qed

text \<open>Reducing a task id is idempotent, and it undoes what the service's Location header
  adds: whatever precedes the last \<open>/tasks/\<close> of an id goes, nothing else does.\<close>

theorem NormalizeID_location:
  "NormalizeID (NormalizeID i) = NormalizeID i
   \<and> (after_last_tasks (''/'' @ i) = None \<longrightarrow> NormalizeID (u @ ''/tasks/'' @ i) = i)"
proof -
  have app: "after_last_tasks (v @ s) = Some r" if "after_last_tasks s = Some r" for v s r
    using that by (induction v) auto
  have "after_last_tasks (''/tasks/'' @ i) = Some i" if "after_last_tasks (''/'' @ i) = None"
    using that by (simp split: option.splits)
  then have "after_last_tasks (u @ ''/tasks/'' @ i) = Some i" if "after_last_tasks (''/'' @ i) = None"
    using that app by blast
  then have "after_last_tasks (''/'' @ i) = None \<Longrightarrow> NormalizeID (u @ ''/tasks/'' @ i) = i"
    unfolding NormalizeID_def by (simp only: option.case)
  moreover have "NormalizeID (NormalizeID i) = NormalizeID i"
  proof (cases "after_last_tasks i")
    case (Some r)
    then have "after_last_tasks r = None"
      using after_last_tasks_prefix by blast
    with Some show ?thesis
      by (simp add: NormalizeID_def)
  qed (simp add: NormalizeID_def)
  ultimately show ?thesis
    by blast
qed

theorem NormalizeID_location_witness:
  "NormalizeID (''http://async'' @ ''/tasks/'' @ ''ab12'') = ''ab12''"
  using NormalizeID_location [of "''ab12''" "''http://async''"] by simp

end
