(* ===== verification/Locks.thy ===== *)
theory Locks
  imports Paths AsyncTasks
begin

text \<open>
  Package \<open>internal/locks\<close>: which paths unfinished tasks hold, and whether a request may
  touch the paths it names.  There is no lock table; \<open>pathsOf\<close> reads each task's own data.
  The reader of unfinished tasks (the async-tasks service) is a parameter.
\<close>

section \<open>locks.go\<close>

definition lockingTypes :: "string list" where
  "lockingTypes = [TypeMove, TypeRename, TypeDelete, TypeDeleteTrash, TypeRestore]"

text \<open>9999-12-31T23:59:59Z.\<close>

definition farFuture :: int where
  "farFuture = 253402300799 * 10 ^ 9"

definition lock_filter :: task_filter where
  "lock_filter =
     \<lparr>IDs = [], Types = lockingTypes, Statuses = [], Usernames = [], IncludeNullEnd = True,
      EndDateSince = Some farFuture, EndDateBefore = None, StartDateSince = None\<rparr>"

definition stringAt :: "(string \<times> json) list \<Rightarrow> string \<Rightarrow> string" where
  "stringAt data key = (case obj_get data key of Some (JStr s) \<Rightarrow> s | _ \<Rightarrow> [])"

fun as_string :: "json \<Rightarrow> string option" where
  "as_string (JStr s) = Some s"
| "as_string _ = None"

definition stringsAt :: "(string \<times> json) list \<Rightarrow> string \<Rightarrow> string list" where
  "stringsAt data key =
     (case obj_get data key of Some (JArr xs) \<Rightarrow> List.map_filter as_string xs | _ \<Rightarrow> [])"

definition valuesOf :: "(string \<times> json) list \<Rightarrow> string \<Rightarrow> string list" where
  "valuesOf data key =
     (case obj_get data key of
        Some (JObj o') \<Rightarrow> sort (List.map_filter (\<lambda>(k, v). as_string v) (obj_entries o'))
      | _ \<Rightarrow> [])"

definition fieldOfValues :: "(string \<times> json) list \<Rightarrow> string \<Rightarrow> string \<Rightarrow> string list" where
  "fieldOfValues data key field =
     (case obj_get data key of
        Some (JObj o') \<Rightarrow>
          sort (List.map_filter
            (\<lambda>(k, v). case v of JObj f \<Rightarrow> Option.bind (obj_get f field) as_string | _ \<Rightarrow> None)
            (obj_entries o'))
      | _ \<Rightarrow> [])"

definition pathsOf :: "task \<Rightarrow> string list" where
  "pathsOf t =
     (let data = task_data t in
      if task_type t = TypeMove then
        (let sources = stringsAt data ''sources''; destination = stringAt data ''destination''
         in if destination = [] then sources
            else sources @ DestinationsUnder destination (filter (\<lambda>s. s \<noteq> []) sources))
      else if task_type t = TypeRename then
        [stringAt data ''source'', stringAt data ''destination'']
      else if task_type t = TypeDelete then
        stringsAt data ''paths'' @ valuesOf data ''trash-paths''
      else if task_type t = TypeDeleteTrash then stringsAt data ''trash-paths''
      else if task_type t = TypeRestore then
        stringsAt data ''paths'' @ fieldOfValues data ''restoration-paths'' ''restored-path''
      else [])"

definition LockedPaths :: "task list \<Rightarrow> string list" where
  "LockedPaths tasks = sort (remdups (filter (\<lambda>p. p \<noteq> []) (concat (map pathsOf tasks))))"

definition Conflicts :: "string \<Rightarrow> string \<Rightarrow> bool" where
  "Conflicts a b =
     (let a = trim_right a; b = trim_right b
      in if a = [] \<or> b = [] then False else IsWithin a b \<or> IsWithin b a)"

definition conflictsAny :: "string \<Rightarrow> string list \<Rightarrow> bool" where
  "conflictsAny path locked = list_ex (Conflicts path) locked"

definition Validate :: "(task_filter \<Rightarrow> ('s, task list) op) \<Rightarrow> string list \<Rightarrow> ('s, unit) op" where
  "Validate ByFilter paths =
     (if paths = [] then returnM ()
      else (\<lambda>s. case ByFilter lock_filter s of
        (Inl err, s') \<Rightarrow>
          (Inl (to_gerror (WithCause err (With ''reason''
             (JStr ''could not determine whether these paths are in use'') (New ErrUnavailable)))), s')
      | (Inr tasks, s') \<Rightarrow>
          (let locked = LockedPaths tasks;
               conflicting = filter (\<lambda>p. trim_right p \<noteq> [] \<and> conflictsAny p locked) paths
           in if locked = [] \<or> conflicting = [] then (Inr (), s')
              else (Inl (to_gerror (With ''paths'' (JArr (map JStr conflicting)) (New ErrConflict))), s'))))"

section \<open>Facts\<close>

lemma IsWithin_trim [simp]:
  "IsWithin (trim_right a) b = IsWithin a b" "IsWithin a (trim_right b) = IsWithin a b"
  by (simp_all add: IsWithin_def)

lemma Conflicts_eq:
  "Conflicts a b \<longleftrightarrow> trim_right a \<noteq> [] \<and> trim_right b \<noteq> [] \<and> (IsWithin a b \<or> IsWithin b a)"
  by (auto simp: Conflicts_def Let_def)

lemma Conflicts_sym: "Conflicts a b \<longleftrightarrow> Conflicts b a"
  by (auto simp: Conflicts_eq)

lemma conflictsAny_iff: "conflictsAny p locked \<longleftrightarrow> (\<exists>q \<in> set locked. Conflicts p q)"
  by (auto simp: conflictsAny_def list_ex_iff)

lemma set_LockedPaths: "set (LockedPaths tasks) = {p. p \<noteq> [] \<and> (\<exists>t \<in> set tasks. p \<in> set (pathsOf t))}"
  by (auto simp: LockedPaths_def)

lemma map_filter_as_string [simp]: "List.map_filter as_string (map JStr xs) = xs"
  by (induction xs) (auto simp: List.map_filter_def)

lemma stringsAt_JStr [simp]:
  "obj_get data key = Some (JArr (map JStr xs)) \<Longrightarrow> stringsAt data key = xs"
  by (simp add: stringsAt_def)

lemma stringAt_JStr [simp]: "obj_get data key = Some (JStr s) \<Longrightarrow> stringAt data key = s"
  by (simp add: stringAt_def)

section \<open>Properties\<close>


text \<open>C4.  The lock check answers from the unfinished tasks alone: with a task list in hand it
  succeeds exactly when no named path's subtree meets that of a path a task holds, and when
  it refuses, the error is a conflict that lists exactly the paths that do, in request
  order.\<close>

theorem Validate_exact:
  assumes "ByFilter lock_filter s = (Inr tasks, s')" and "ps \<noteq> []"
  shows "Validate ByFilter ps s =
    (let held = {q. q \<noteq> [] \<and> (\<exists>t \<in> set tasks. q \<in> set (pathsOf t))};
         bad = filter (\<lambda>p. \<exists>q \<in> held. Conflicts p q) ps
     in if bad = [] then (Inr (), s')
        else (Inl (to_gerror (With ''paths'' (JArr (map JStr bad)) (New ErrConflict))), s'))"
proof -
  have "trim_right p \<noteq> [] \<and> conflictsAny p (LockedPaths tasks) \<longleftrightarrow>
      (\<exists>q \<in> {q. q \<noteq> [] \<and> (\<exists>t \<in> set tasks. q \<in> set (pathsOf t))}. Conflicts p q)" for p
    unfolding conflictsAny_iff set_LockedPaths by (auto simp: Conflicts_eq)
  then have same: "filter (\<lambda>p. trim_right p \<noteq> [] \<and> conflictsAny p (LockedPaths tasks)) ps =
      filter (\<lambda>p. \<exists>q \<in> {q. q \<noteq> [] \<and> (\<exists>t \<in> set tasks. q \<in> set (pathsOf t))}. Conflicts p q) ps"
    by simp
  show ?thesis
  proof (cases "LockedPaths tasks = []")
    case True
    then have "{q. q \<noteq> [] \<and> (\<exists>t \<in> set tasks. q \<in> set (pathsOf t))} = {}"
      using set_LockedPaths [of tasks] by simp
    with True assms show ?thesis
      by (auto simp: Validate_def Let_def filter_empty_conv)
  next
    case False
    with assms same show ?thesis
      by (simp add: Validate_def Let_def)
  qed
qed

text \<open>A running move of \<open>/z/home/ann/a\<close> into \<open>/z/home/ann/d\<close> holds the source and where it
  lands, and so refuses a request inside the landing place while it allows a sibling.\<close>

definition sample_move :: task where
  "sample_move = \<lparr>task_id = ''t1'', task_type = TypeMove, task_user = ''ann'',
     task_data = [(''sources'', JArr [JStr ''/z/home/ann/a'']), (''destination'', JStr ''/z/home/ann/d'')],
     task_ended = False, task_behaviors = [], task_statuses = []\<rparr>"

lemma pathsOf_sample: "pathsOf sample_move = [''/z/home/ann/a'', ''/z/home/ann/d/a'']"
  by code_simp

theorem Validate_exact_witness:
  "Validate (\<lambda>f s. (Inr [sample_move], s)) [''/z/home/ann/b'', ''/z/home/ann/d/a/x''] () =
     (Inl (to_gerror (With ''paths'' (JArr [JStr ''/z/home/ann/d/a/x'']) (New ErrConflict))), ())"
proof -
  have c: "Conflicts ''/z/home/ann/b'' ''/z/home/ann/a'' = False"
    "Conflicts ''/z/home/ann/b'' ''/z/home/ann/d/a'' = False"
    "Conflicts ''/z/home/ann/d/a/x'' ''/z/home/ann/d/a'' = True"
    by code_simp+
  have held: "{q. q \<noteq> [] \<and> (\<exists>t \<in> set [sample_move]. q \<in> set (pathsOf t))}
      = {''/z/home/ann/a'', ''/z/home/ann/d/a''}"
    by (auto simp: pathsOf_sample)
  show ?thesis
    by (subst Validate_exact [where tasks = "[sample_move]" and s' = "()"])
      (simp_all only: held, simp_all add: c)
qed

text \<open>C6.  When the unfinished tasks cannot be read the request is refused as unavailable, with
  a reason that does not carry the underlying error; a request naming no path never asks.\<close>

theorem Validate_unreadable:
  assumes "ByFilter lock_filter s = (Inl err, s')"
  shows "Validate ByFilter [] s = (Inr (), s)
    \<and> (ps \<noteq> [] \<longrightarrow> (\<exists>e. Validate ByFilter ps s = (Inl (to_gerror e), s') \<and> Code e = ErrUnavailable
         \<and> map fst (Extra e) = [''reason''] \<and> Cause e = Some err))"
  using assms by (auto simp: Validate_def api_error_defs)

theorem Validate_unreadable_witness:
  "\<exists>e. Validate (\<lambda>f s. (Inl Canceled, s)) [''/z/a''] () = (Inl (to_gerror e), ())
     \<and> Code e = ErrUnavailable"
  using Validate_unreadable [of "\<lambda>f s. (Inl Canceled, s)" "()" Canceled "()" "[''/z/a'']"] by auto

end
