(* ===== verification/TrashPlans.thy ===== *)
theory TrashPlans
  imports Stores
begin

text \<open>
  \<open>internal/service/trash.go\<close>, \<open>avus.go\<close> and \<open>upload.go\<close>: where trashed items land and where
  they are restored to, the metadata the service keeps to itself, and the hidden name an upload
  streams into.  The operating system's random bytes and the generated UUID are arguments.
\<close>

section \<open>avus.go\<close>

definition ReservedUnit :: string where "ReservedUnit = ''ipc-reserved-unit''"
definition SystemUnit :: string where "SystemUnit = ''ipc-system-avu''"
definition InfoTypeUnit :: string where "InfoTypeUnit = ''ipc-data-info''"
definition reservedAttributePrefix :: string where "reservedAttributePrefix = ''ipc''"

record api_avu =
  aa_attr :: string
  aa_value :: string
  aa_unit :: string

definition IsReservedAVU :: "string \<Rightarrow> bool" where
  "IsReservedAVU attribute \<longleftrightarrow> has_prefix (to_lower attribute) reservedAttributePrefix"

definition VisibleAVU :: "avu \<Rightarrow> api_avu" where
  "VisibleAVU a =
     \<lparr>aa_attr = avu_attribute a, aa_value = avu_value a,
      aa_unit = (if avu_unit a = ReservedUnit then [] else avu_unit a)\<rparr>"

definition VisibleAVUs :: "avu list \<Rightarrow> bool \<Rightarrow> api_avu list" where
  "VisibleAVUs avus includeReserved =
     map VisibleAVU (filter (\<lambda>a. includeReserved \<or> \<not> IsReservedAVU (avu_attribute a)) avus)"

definition StoredAVU :: "api_avu \<Rightarrow> avu" where
  "StoredAVU a =
     \<lparr>avu_attribute = aa_attr a, avu_value = aa_value a,
      avu_unit = (if blank (aa_unit a) then ReservedUnit else aa_unit a)\<rparr>"

definition MetadataTargetType :: "object_type \<Rightarrow> string" where
  "MetadataTargetType kind = (if kind = ObjectTypeDir then ''folder'' else ''file'')"

section \<open>upload.go\<close>

definition TempUploadName :: string where "TempUploadName = ''.partial-''"

definition TempUploadPath :: "string \<Rightarrow> string \<Rightarrow> string" where
  "TempUploadPath uuid dest =
     (let dir = Dir dest; sfx = TempUploadName @ uuid;
          name = ''.'' @ Base dest @ sfx; candidate = Join [dir, name]
      in if length name > MaxFilenameLength \<or> length candidate > MaxPathLength
         then Join [dir, sfx] else candidate)"

section \<open>trash.go\<close>

definition TrashOriginAttribute :: string where "TrashOriginAttribute = ''ipc-trash-origin''"
definition trashSuffixLength :: nat where "trashSuffixLength = 7"
definition trashSuffixAlphabet :: string where
  "trashSuffixAlphabet = ''0123456789ABCDEFGHIJKLMNOPQRSTUVWXYZabcdefghijklmnopqrstuvwxyz''"

text \<open>\<open>rand.Read\<close> on a buffer of \<open>trashSuffixLength\<close> bytes answers an error or the bytes.\<close>

definition randomSuffix :: "gerror + 8 word list \<Rightarrow> gerror + string" where
  "randomSuffix random =
     (case random of
        Inl err \<Rightarrow> Inl (Wrap ''generating a trash suffix'' err)
      | Inr buf \<Rightarrow> Inr (map (\<lambda>b. trashSuffixAlphabet ! (unat b mod length trashSuffixAlphabet)) buf))"

definition TrashPathFor :: "gerror + 8 word list \<Rightarrow> layout \<Rightarrow> string \<Rightarrow> string \<Rightarrow> gerror + string" where
  "TrashPathFor random l user path =
     (case randomSuffix random of
        Inl err \<Rightarrow> Inl err
      | Inr sfx \<Rightarrow> Inr (Join [UserTrash l user, Base path @ ''.'' @ sfx]))"

record restore_plan =
  RestoredPath :: string
  PartialRestore :: bool

text \<open>\<open>RestoreStore\<close>.\<close>

record 's restore_store =
  rs_Stat :: "string \<Rightarrow> ('s, stat) op"
  rs_AVUs :: "string \<Rightarrow> ('s, avu list) op"

definition trashOrigin :: "'s restore_store \<Rightarrow> string \<Rightarrow> ('s, string) op" where
  "trashOrigin store path =
     bindM (rs_AVUs store path)
       (\<lambda>avus. returnM (case find (\<lambda>a. avu_attribute a = TrashOriginAttribute) avus of
          Some a \<Rightarrow> avu_value a | None \<Rightarrow> []))"

definition parentUnwriteable ::
    "'s restore_store \<Rightarrow> 's restore_store \<Rightarrow> string \<Rightarrow> ('s, bool) op" where
  "parentUnwriteable view admin parent =
     bindM (rs_Stat admin parent) (\<lambda>exists.
       if \<not> st_exists exists then returnM False
       else bindM (rs_Stat view parent) (\<lambda>held.
         returnM (\<not> Permits (st_permission held) PermissionWrite)))"

text \<open>The loop of \<open>firstFreeName\<close> has no bound; \<open>None\<close> is a loop that never ends.  The counter
  is an \<open>int\<close> of 64 bits, which \<open>2 ^ 63\<close> taken names would be needed to exhaust.\<close>

definition numbered :: "string \<Rightarrow> nat \<Rightarrow> string" where
  "numbered path attempt = path @ ''.'' @ itoa attempt"

partial_function (option) next_free ::
    "'s restore_store \<Rightarrow> string \<Rightarrow> nat \<Rightarrow> 's \<Rightarrow> ((gerror + string) \<times> 's) option" where
  "next_free store path attempt s =
     (case rs_Stat store (numbered path attempt) s of
        (Inl err, s') \<Rightarrow> Some (Inl err, s')
      | (Inr st, s') \<Rightarrow>
          if \<not> st_exists st then Some (Inr (numbered path attempt), s')
          else next_free store path (Suc attempt) s')"

definition firstFreeName ::
    "'s restore_store \<Rightarrow> string \<Rightarrow> 's \<Rightarrow> ((gerror + string) \<times> 's) option" where
  "firstFreeName store path s =
     (case rs_Stat store path s of
        (Inl err, s') \<Rightarrow> Some (Inl err, s')
      | (Inr st, s') \<Rightarrow> if \<not> st_exists st then Some (Inr path, s') else next_free store path 0 s')"

text \<open>What \<open>PlanRestore\<close> tries first, and whether that is the user's home.\<close>

definition restore_target ::
    "'s restore_store \<Rightarrow> 's restore_store \<Rightarrow> layout \<Rightarrow> string \<Rightarrow> string \<Rightarrow> ('s, string \<times> bool) op" where
  "restore_target view admin l user path =
     bindM (trashOrigin view path) (\<lambda>origin.
     bindM (if origin = [] then returnM True else parentUnwriteable view admin (Dir origin)) (\<lambda>toHome.
       returnM (if toHome then Join [UserHome l user, Base path] else origin, toHome)))"

definition PlanRestore ::
    "'s restore_store \<Rightarrow> 's restore_store \<Rightarrow> layout \<Rightarrow> string \<Rightarrow> string \<Rightarrow> 's
      \<Rightarrow> ((gerror + restore_plan) \<times> 's) option" where
  "PlanRestore view admin l user path s =
     (case restore_target view admin l user path s of
        (Inl err, s') \<Rightarrow> Some (Inl err, s')
      | (Inr (origin, toHome), s') \<Rightarrow>
          (case firstFreeName admin origin s' of
             None \<Rightarrow> None
           | Some (Inl err, s'') \<Rightarrow> Some (Inl err, s'')
           | Some (Inr free, s'') \<Rightarrow> Some (Inr \<lparr>RestoredPath = free, PartialRestore = toHome\<rparr>, s'')))"

section \<open>Facts\<close>

lemma numbered_inject: "numbered p m = numbered p n \<longleftrightarrow> m = n"
  by (auto simp: numbered_def dest: injD [OF inj_itoa])

text \<open>Only finitely many names are taken, so some number from any point on is free.\<close>

lemma free_number: "finite T \<Longrightarrow> \<exists>k \<ge> n. numbered p k \<notin> T"
proof -
  assume "finite T"
  have "inj_on (numbered p) {n..}"
    by (auto simp: inj_on_def numbered_inject)
  then have "infinite (numbered p ` {n..})"
    using finite_imageD infinite_Ici by blast
  with \<open>finite T\<close> have "\<not> numbered p ` {n..} \<subseteq> T"
    using finite_subset by blast
  then show ?thesis by auto
qed

lemma next_free_returns:
  assumes "\<And>p s st s'. rs_Stat store p s = (Inr st, s') \<Longrightarrow> st_exists st \<Longrightarrow> p \<in> T"
    and "n \<le> k" "numbered path k \<notin> T"
  shows "\<exists>r. next_free store path n s = Some r"
  using assms(2)
proof (induction "k - n" arbitrary: n s)
  case 0
  then have "n = k" by simp
  then show ?case
    using assms(1,3) by (subst next_free.simps) (auto split: prod.splits sum.splits)
next
  case (Suc d)
  have "\<exists>r. next_free store path (Suc n) t = Some r" for t
    using Suc by (intro Suc.hyps(1)) auto
  then show ?case
    by (subst next_free.simps) (auto split: prod.splits sum.splits)
qed

lemma firstFreeName_returns:
  assumes "finite T" "\<And>p s st s'. rs_Stat store p s = (Inr st, s') \<Longrightarrow> st_exists st \<Longrightarrow> p \<in> T"
  shows "\<exists>r. firstFreeName store path s = Some r"
proof -
  obtain k where "numbered path k \<notin> T"
    using free_number [OF assms(1), of 0] by blast
  then have "\<exists>r. next_free store path 0 t = Some r" for t
    by (intro next_free_returns [where T = T and k = k] assms(2)) simp_all
  then show ?thesis
    by (auto simp: firstFreeName_def split: prod.splits sum.splits)
qed

text \<open>A store that answers the same at any time.\<close>

definition first_free :: "(string \<Rightarrow> bool) \<Rightarrow> string \<Rightarrow> string" where
  "first_free taken path =
     (if \<not> taken path then path else numbered path (LEAST n. \<not> taken (numbered path n)))"

lemma next_free_steady:
  assumes "\<And>p s. rs_Stat store p s = (Inr (A p), s)" "finite {p. st_exists (A p)}"
  shows "next_free store path n s
    = Some (Inr (numbered path (LEAST k. n \<le> k \<and> \<not> st_exists (A (numbered path k)))), s)"
proof -
  obtain k where k: "n \<le> k" "\<not> st_exists (A (numbered path k))"
    using free_number [OF assms(2), of n path] by auto
  then show ?thesis
  proof (induction "k - n" arbitrary: n)
    case 0
    then have "(LEAST j. n \<le> j \<and> \<not> st_exists (A (numbered path j))) = n"
      by (intro Least_equality) auto
    with 0 show ?case
      by (subst next_free.simps) (simp add: assms(1))
  next
    case (Suc d)
    show ?case
    proof (cases "st_exists (A (numbered path n))")
      case True
      then have "n \<noteq> j" if "\<not> st_exists (A (numbered path j))" for j
        using that by blast
      then have "(\<lambda>j. n \<le> j \<and> \<not> st_exists (A (numbered path j))) = (\<lambda>j. Suc n \<le> j \<and> \<not> st_exists (A (numbered path j)))"
        by (auto simp: fun_eq_iff Suc_le_eq le_less)
      moreover have "next_free store path (Suc n) s
          = Some (Inr (numbered path (LEAST j. Suc n \<le> j \<and> \<not> st_exists (A (numbered path j)))), s)"
        using Suc True by (intro Suc.hyps(1)) auto
      ultimately show ?thesis
        using True by (subst next_free.simps) (simp add: assms(1))
    next
      case False
      then have "(LEAST j. n \<le> j \<and> \<not> st_exists (A (numbered path j))) = n"
        by (intro Least_equality) auto
      with False show ?thesis
        by (subst next_free.simps) (simp add: assms(1))
    qed
  qed
qed

lemma firstFreeName_steady:
  assumes "\<And>p s. rs_Stat store p s = (Inr (A p), s)" "finite {p. st_exists (A p)}"
  shows "firstFreeName store path s = Some (Inr (first_free (\<lambda>p. st_exists (A p)) path), s)"
  using next_free_steady [where path = path and n = 0, OF assms] assms(1)
  by (simp add: firstFreeName_def first_free_def)

section \<open>Properties\<close>



text \<open>A store in which the collections \<open>/z\<close>, \<open>/z/a\<close> and the item \<open>/z/a/f\<close> exist, \<open>f\<close> having been
  trashed from there before another took its name.\<close>

definition sample_stat :: "string \<Rightarrow> stat" where
  "sample_stat p =
     \<lparr>st_path = p, st_type = ObjectTypeDir, st_uuid = [], st_info_type = [], st_size = 0,
      st_created = 0, st_modified = 0, st_permission = PermissionOwn, st_checksum = None,
      st_exists = (p \<in> {''/z'', ''/z/a'', ''/z/a/f''})\<rparr>"

definition sample_store :: "unit restore_store" where
  "sample_store =
     \<lparr>rs_Stat = (\<lambda>p. returnM (sample_stat p)),
      rs_AVUs = (\<lambda>_. returnM [\<lparr>avu_attribute = TrashOriginAttribute, avu_value = ''/z/a/f'', avu_unit = SystemUnit\<rparr>])\<rparr>"

abbreviation sample_plan_layout :: layout where
  "sample_plan_layout \<equiv> \<lparr>Zone = ''z'', Home = ''/z/home'', CommunityData = ''/z/home/shared''\<rparr>"



text \<open>C36.  A path going to the trash lands directly in its user's trash under its own name with a
  dot and seven alphanumeric characters added; without random bytes it goes nowhere.\<close>

theorem TrashPathFor_lands:
  assumes "good_comp (Zone l)" "good_comp user" "good_comps cs" "good_comp c"
  shows "(\<forall>bs. length bs = 7 \<longrightarrow> (\<exists>sfx. length sfx = 7 \<and> set sfx \<subseteq> set trashSuffixAlphabet \<and>
      TrashPathFor (Inr bs) l user (abs_path (cs @ [c]))
        = Inr (abs_path [Zone l, ''trash'', ''home'', user, c @ ''.'' @ sfx])))
    \<and> (\<forall>err. TrashPathFor (Inl err) l user p = Inl (Wrap ''generating a trash suffix'' err))"
proof (intro conjI allI impI)
  fix bs :: "8 word list"
  assume "length bs = 7"
  let ?sfx = "map (\<lambda>b. trashSuffixAlphabet ! (unat b mod length trashSuffixAlphabet)) bs"
  have "0 < length trashSuffixAlphabet"
    by (simp add: trashSuffixAlphabet_def)
  then have chars: "set ?sfx \<subseteq> set trashSuffixAlphabet"
    by (auto intro!: nth_mem)
  moreover have "slash \<notin> set trashSuffixAlphabet"
    by (simp add: trashSuffixAlphabet_def)
  ultimately have "good_comp (c @ ''.'' @ ?sfx)"
    using assms(4) \<open>length bs = 7\<close> by (auto simp: good_comp_def append_eq_Cons_conv)
  moreover have "good_comps [Zone l, ''trash'', ''home'', user]"
    using assms by (simp add: good_comp_def)
  ultimately have "Join [UserTrash l user, c @ ''.'' @ ?sfx] = abs_path [Zone l, ''trash'', ''home'', user, c @ ''.'' @ ?sfx]"
    using assms Join_comp_abs [of "[Zone l, ''trash'', ''home'', user]" "c @ ''.'' @ ?sfx"]
    by (simp add: UserTrash_comps)
  then have "TrashPathFor (Inr bs) l user (abs_path (cs @ [c]))
      = Inr (abs_path [Zone l, ''trash'', ''home'', user, c @ ''.'' @ ?sfx])"
    using assms by (simp add: TrashPathFor_def randomSuffix_def Base_snoc del: abs_path_append)
  with chars \<open>length bs = 7\<close>
  show "\<exists>sfx. length sfx = 7 \<and> set sfx \<subseteq> set trashSuffixAlphabet \<and> TrashPathFor (Inr bs) l user (abs_path (cs @ [c]))
      = Inr (abs_path [Zone l, ''trash'', ''home'', user, c @ ''.'' @ sfx])"
    by (intro exI [of _ ?sfx]) simp
qed (simp add: TrashPathFor_def randomSuffix_def)

theorem TrashPathFor_lands_witness:
  "TrashPathFor (Inl Canceled) sample_plan_layout ''a'' ''/z/a/f'' = Inl (Wrap ''generating a trash suffix'' Canceled)"
  using TrashPathFor_lands [of sample_plan_layout "''a''" "[''z'', ''a'']" "''f''" "''/z/a/f''"]
  by (simp add: good_comp_def)

text \<open>An upload into a collection whose name iRODS accepts streams into a hidden path directly
  beside its destination whose lengths iRODS accepts too, however long the destination's own
  name.\<close>

theorem TempUploadPath_beside:
  assumes "good_comps cs" "good_comp c" "length uuid = 36" "slash \<notin> set uuid"
    and "length (Dir (abs_path (cs @ [c]))) \<le> 640"
  shows "\<exists>name. TempUploadPath uuid (abs_path (cs @ [c])) = abs_path (cs @ [CHR ''.'' # name])
    \<and> suffix (''partial-'' @ uuid) name
    \<and> CheckLength (TempUploadPath uuid (abs_path (cs @ [c]))) = LengthOK"
proof -
  have good: "good_comp (CHR ''.'' # x @ ''partial-'' @ uuid)" if "slash \<notin> set x" for x
    using assms(4) that by (auto simp: good_comp_def append_eq_Cons_conv)
  have name: "''.'' @ c @ TempUploadName @ uuid = CHR ''.'' # (c @ ''.'') @ ''partial-'' @ uuid"
    "TempUploadName @ uuid = CHR ''.'' # [] @ ''partial-'' @ uuid"
    by (simp_all add: TempUploadName_def)
  have c: "slash \<notin> set (c @ ''.'')" "slash \<notin> set ([] :: string)"
    using assms(2) by (simp_all add: good_comp_def)
  let ?n = "CHR ''.'' # (c @ ''.'') @ ''partial-'' @ uuid" and ?m = "CHR ''.'' # [] @ ''partial-'' @ uuid"
  have dir: "Dir (abs_path (cs @ [c])) = dir_path cs"
    using assms(1,2) by (rule Dir_snoc)
  have cs: "length (abs_path cs) \<le> 640"
    using assms(5) unfolding dir by (simp add: dir_path_def split: if_splits)
  have path: "TempUploadPath uuid (abs_path (cs @ [c])) =
      (if length ?n > 427 \<or> length (abs_path (cs @ [?n])) > 1067 then abs_path (cs @ [?m]) else abs_path (cs @ [?n]))"
    using Join_comp [OF assms(1) good [OF c(1)]] Join_comp [OF assms(1) good [OF c(2)]]
    unfolding TempUploadPath_def Let_def dir Base_snoc [OF assms(1,2)] name length_limits by simp
  have ok: "CheckLength (abs_path (cs @ [k])) = LengthOK"
    if "good_comp k" "length k \<le> 427" "length (abs_path (cs @ [k])) \<le> 1067" for k
    using that assms(5) Base_snoc [OF assms(1) that(1)] Dir_snoc [OF assms(1) that(1)] dir
    by (simp add: CheckLength_def length_limits del: abs_path_append)
  show ?thesis
  proof (cases "length ?n > 427 \<or> length (abs_path (cs @ [?n])) > 1067")
    case True
    have "CheckLength (abs_path (cs @ [?m])) = LengthOK"
      by (rule ok [OF good [OF c(2)]]) (use cs assms(3) in simp_all)
    with True path show ?thesis
      by (intro exI [of _ "''partial-'' @ uuid"]) (simp del: abs_path_append)
  next
    case False
    then have "CheckLength (abs_path (cs @ [?n])) = LengthOK"
      by (intro ok [OF good [OF c(1)]]) simp_all
    with False path show ?thesis
      by (intro exI [of _ "(c @ ''.'') @ ''partial-'' @ uuid"]) (simp only: if_False suffixI refl simp_thms)
  qed
qed

theorem TempUploadPath_beside_witness:
  "CheckLength (TempUploadPath (replicate 36 CHR ''0'') ''/z/a/f'') = LengthOK"
proof -
  have "length (Dir (abs_path ([''z'', ''a''] @ [''f'']))) \<le> 640"
    by code_simp
  then show ?thesis
    using TempUploadPath_beside [of "[''z'', ''a'']" "''f''" "replicate 36 CHR ''0''"]
    by (simp add: good_comp_def) blast
qed

text \<open>A request's metadata comes back as it was sent unless its unit is white space or the
  reserved unit itself, which come back blank; and what a listing leaves visible is exactly what
  no spelling of the reserved prefix covers, so never where an item was trashed from.\<close>

theorem StoredAVU_roundtrip:
  "VisibleAVU (StoredAVU a) = a\<lparr>aa_unit := if blank (aa_unit a) \<or> aa_unit a = ReservedUnit then [] else aa_unit a\<rparr>
   \<and> set (VisibleAVUs avus False) = VisibleAVU ` {b \<in> set avus. \<not> prefix ''ipc'' (to_lower (avu_attribute b))}
   \<and> prefix ''ipc'' (to_lower TrashOriginAttribute)"
proof -
  have "prefix ''ipc'' (to_lower TrashOriginAttribute)"
    by (simp add: TrashOriginAttribute_def) code_simp
  then show ?thesis
    by (auto simp: VisibleAVU_def StoredAVU_def VisibleAVUs_def IsReservedAVU_def reservedAttributePrefix_def)
qed

end
