(* ===== verification/Jobs.thy ===== *)
theory Jobs
  imports Permissions Locks TrashPlans
begin

text \<open>
  Package \<open>internal/jobs\<close>: moves, renames, deletions and restores that outlive their request, and
  the notifications they send (\<open>internal/clients/notifications\<close>).  A job runs on a store
  (\<open>job_store\<close>) it opens for itself; \<open>running\<close> is the store's state with the progress the job has
  reported.  The context it is given is a function: what \<open>ctx.Err()\<close> answers when the loop is at
  its i-th path.
\<close>

section \<open>notifications.go\<close>

record notification =
  nt_type :: string
  nt_user :: string
  nt_subject :: string
  nt_message :: string
  nt_action :: string
  nt_paths :: "string list"

definition notificationType :: string where "notificationType = ''data''"
definition ActionMove :: string where "ActionMove = ''move''"
definition ActionRename :: string where "ActionRename = ''rename''"
definition ActionTrash :: string where "ActionTrash = ''trash''"
definition ActionDelete :: string where "ActionDelete = ''delete''"
definition ActionRestore :: string where "ActionRestore = ''restore''"
definition ActionEmptyTrash :: string where "ActionEmptyTrash = ''empty_trash''"

definition outcome_word :: "bool \<Rightarrow> string" where
  "outcome_word failed = (if failed then ''Failed'' else ''Finished'')"

definition first_of :: "string list \<Rightarrow> string" where
  "first_of values = (case values of [] \<Rightarrow> [] | v # _ \<Rightarrow> v)"

definition commas :: "string list \<Rightarrow> string" where
  "commas = join_with '', ''"

definition notify_Move :: "string \<Rightarrow> string list \<Rightarrow> string list \<Rightarrow> bool \<Rightarrow> notification" where
  "notify_Move user sources destinations failed =
     (let into = (case destinations of [] \<Rightarrow> [] | d # _ \<Rightarrow> Dir d) in
      \<lparr>nt_type = notificationType, nt_user = user,
       nt_subject = outcome_word failed @ '' moving '' @ itoa (length sources) @ '' file(s)/folder(s) to '' @ into,
       nt_message = outcome_word failed @ '' moving '' @ commas sources @ '' to '' @ commas destinations,
       nt_action = ActionMove, nt_paths = destinations\<rparr>)"

definition notify_Rename :: "string \<Rightarrow> string list \<Rightarrow> string list \<Rightarrow> bool \<Rightarrow> notification" where
  "notify_Rename user sources destinations failed =
     \<lparr>nt_type = notificationType, nt_user = user,
      nt_subject = outcome_word failed @ '' renaming '' @ first_of sources @ '' to '' @ Base (first_of destinations),
      nt_message = outcome_word failed @ '' renaming '' @ first_of sources @ '' to '' @ first_of destinations,
      nt_action = ActionRename, nt_paths = destinations\<rparr>"

definition notify_Trash :: "string \<Rightarrow> string list \<Rightarrow> string list \<Rightarrow> bool \<Rightarrow> notification" where
  "notify_Trash user sources destinations failed =
     \<lparr>nt_type = notificationType, nt_user = user,
      nt_subject = outcome_word failed @ '' moving '' @ itoa (length sources) @ '' file(s)/folder(s) to trash'',
      nt_message = outcome_word failed @ '' moving '' @ commas sources @ '' to trash at '' @ commas destinations,
      nt_action = ActionTrash, nt_paths = destinations\<rparr>"

definition notify_Delete :: "string \<Rightarrow> string list \<Rightarrow> layout \<Rightarrow> bool \<Rightarrow> notification" where
  "notify_Delete user sources l failed =
     \<lparr>nt_type = notificationType, nt_user = user,
      nt_subject = outcome_word failed @ '' deleting '' @ itoa (length sources) @ '' file(s)/folder(s)'',
      nt_message = outcome_word failed @ '' deleting '' @ commas sources,
      nt_action = ActionDelete, nt_paths = [UserTrash l user]\<rparr>"

definition notify_Restore :: "string \<Rightarrow> string list \<Rightarrow> string list \<Rightarrow> bool \<Rightarrow> notification" where
  "notify_Restore user sources destinations failed =
     \<lparr>nt_type = notificationType, nt_user = user,
      nt_subject = outcome_word failed @ '' restoring '' @ itoa (length sources) @
        '' file(s)/folder(s) to their original locations'',
      nt_message = outcome_word failed @ '' restoring '' @ commas sources @ '' to '' @ commas destinations,
      nt_action = ActionRestore, nt_paths = destinations\<rparr>"

definition notify_EmptyTrash :: "string \<Rightarrow> layout \<Rightarrow> bool \<Rightarrow> notification" where
  "notify_EmptyTrash user l failed =
     \<lparr>nt_type = notificationType, nt_user = user,
      nt_subject = outcome_word failed @ '' emptying trash'',
      nt_message = outcome_word failed @ '' emptying trash'',
      nt_action = ActionEmptyTrash, nt_paths = [UserTrash l user]\<rparr>"

section \<open>jobs.go: what a task tells its job\<close>

definition quoted :: "string \<Rightarrow> string" where
  "quoted s = [CHR 0x22] @ s @ [CHR 0x22]"

definition stringsFrom :: "(string \<times> json) list \<Rightarrow> string \<Rightarrow> gerror + string list" where
  "stringsFrom data key =
     (case obj_get data key of
        None \<Rightarrow> Inl (Plain (''the task has no '' @ quoted key))
      | Some (JArr xs) \<Rightarrow>
          traverse (\<lambda>(i, x). case x of JStr s \<Rightarrow> Inr s
            | _ \<Rightarrow> Inl (Plain (''entry '' @ itoa i @ '' of the task's '' @ quoted key @ '' is not a path'')))
            (enumerate 0 xs)
      | Some _ \<Rightarrow> Inl (Plain (''the task's '' @ quoted key @ '' is not a list'')))"

definition stringFrom :: "(string \<times> json) list \<Rightarrow> string \<Rightarrow> gerror + string" where
  "stringFrom data key =
     (case obj_get data key of
        Some (JStr s) \<Rightarrow> if s = [] then Inl (Plain (''the task has no '' @ quoted key)) else Inr s
      | _ \<Rightarrow> Inl (Plain (''the task has no '' @ quoted key)))"

text \<open>Go maps as association lists with one entry a key; a map with several entries of the wrong
  type is reported by the first of them here, by any of them there.\<close>

definition mapFrom :: "(string \<times> json) list \<Rightarrow> string \<Rightarrow> gerror + (string \<times> string) list" where
  "mapFrom data key =
     (case obj_get data key of
        None \<Rightarrow> Inl (Plain (''the task has no '' @ quoted key))
      | Some (JObj obj) \<Rightarrow>
          traverse (\<lambda>(name, v). case v of JStr text \<Rightarrow> Inr (name, text)
            | _ \<Rightarrow> Inl (Plain (''the task's '' @ quoted key @ '' names something other than a path for '' @ quoted name)))
            (obj_entries obj)
      | Some _ \<Rightarrow> Inl (Plain (''the task's '' @ quoted key @ '' is not an object'')))"

definition restorePlansFrom :: "(string \<times> json) list \<Rightarrow> gerror + (string \<times> string) list" where
  "restorePlansFrom data =
     (case obj_get data ''restoration-paths'' of
        Some (JObj obj) \<Rightarrow>
          traverse (\<lambda>(path, v). case v of
              JObj plan \<Rightarrow>
                (case obj_get plan ''restored-path'' of
                   Some (JStr restored) \<Rightarrow> Inr (path, restored)
                 | _ \<Rightarrow> Inl (Plain (''the restoration plan for '' @ quoted path @ '' names no restored-path'')))
            | _ \<Rightarrow> Inl (Plain (''the restoration plan for '' @ quoted path @ '' is not an object'')))
            (obj_entries obj)
      | _ \<Rightarrow> Inl (Plain ''the task has no restoration-paths''))"

definition partitionByTrash :: "string list \<Rightarrow> (string \<times> string) list \<Rightarrow> string list \<times> string list" where
  "partitionByTrash requested trashPaths =
     partition (\<lambda>path. map_of trashPaths path \<noteq> None) requested"

fun violation_text :: "length_violation \<Rightarrow> string" where
  "violation_text LengthOK = []"
| "violation_text LengthPath = ''path''"
| "violation_text LengthDir = ''dir''"
| "violation_text LengthBasename = ''basename''"

definition checkLength :: "string \<Rightarrow> gerror + unit" where
  "checkLength path =
     (if CheckLength path = LengthOK then Inr ()
      else Inl (Plain (quoted path @ '' is too long: the '' @ violation_text (CheckLength path) @
        '' exceeds what iRODS allows'')))"

section \<open>A job at work\<close>

datatype job_event =
    Reported string string   \<comment> \<open>progress(path, action)\<close>
  | Published string         \<comment> \<open>an event for other services, by its routing key\<close>
  | Logged string            \<comment> \<open>a path that could not be removed\<close>

record 's running =
  rn_store :: 's
  rn_log :: "job_event list"

record 's job_deps =
  jd_open :: "string \<Rightarrow> ('s, nat) op"
  jd_close :: "nat \<Rightarrow> ('s, unit) op"
  jd_store :: "nat \<Rightarrow> 's job_store"
  jd_notifies :: bool
  jd_publishes :: bool
  jd_layout :: layout
  jd_admins :: "string list"
  jd_proxy :: string

type_synonym job_context = "nat \<Rightarrow> gerror option"

definition in_store :: "('s, 'a) op \<Rightarrow> ('s running, 'a) op" where
  "in_store m = (\<lambda>r. case m (rn_store r) of (x, s) \<Rightarrow> (x, r\<lparr>rn_store := s\<rparr>))"

definition event :: "job_event \<Rightarrow> ('s running, unit) op" where
  "event e = modifyM (\<lambda>r. r\<lparr>rn_log := rn_log r @ [e]\<rparr>)"

abbreviation progress :: "string \<Rightarrow> string \<Rightarrow> ('s running, unit) op" where
  "progress path action \<equiv> event (Reported path action)"

definition in_scope :: "'s job_deps \<Rightarrow> string \<Rightarrow> ('s job_store \<Rightarrow> ('s running, 'a) op) \<Rightarrow> ('s running, 'a) op" where
  "in_scope deps user body =
     bindM (in_store (jd_open deps user))
       (\<lambda>h. finallyM (body (jd_store deps h)) (in_store (jd_close deps h)))"

definition scopeFor :: "'s job_deps \<Rightarrow> task \<Rightarrow> ('s job_store \<Rightarrow> ('s running, 'a) op) \<Rightarrow> ('s running, 'a) op" where
  "scopeFor deps t body =
     (if task_user t = [] then failM (Plain ''the task names no user, so there is nobody to act as'')
      else in_scope deps (task_user t) body)"

definition notify :: "'s job_deps \<Rightarrow> notification list \<Rightarrow> notification list" where
  "notify deps messages = (if jd_notifies deps then messages else [])"

definition stop_when_done :: "job_context \<Rightarrow> nat \<Rightarrow> string \<Rightarrow> ('s, unit) op" where
  "stop_when_done ctx i what =
     (case ctx i of None \<Rightarrow> returnM () | Some err \<Rightarrow> failM (Wrap what err))"

definition moveOne ::
    "'s job_store \<Rightarrow> 's job_deps \<Rightarrow> string \<Rightarrow> string \<Rightarrow> string \<Rightarrow> ('s running, unit) op" where
  "moveOne store deps user source destination =
     thenM (progress source ''begin'')
    (thenM (ofM (checkLength source))
    (thenM (ofM (checkLength destination))
    (thenM (progress source ''validated-path-lengths'')
    (thenM (wrapM ''moving'' (in_store (js_Move store source destination)))
    (thenM (progress source ''did-rename'')
    (thenM (wrapM ''repairing permissions'' (in_store (RepairPermissions store
        \<lparr>mc_source = source, mc_destination = destination, mc_user = user, mc_admins = jd_admins deps,
         mc_proxy = jd_proxy deps, mc_layout = jd_layout deps\<rparr>)))
      (progress source ''end'')))))))"

section \<open>move.go and rename.go\<close>

definition move_all ::
    "'s job_store \<Rightarrow> 's job_deps \<Rightarrow> job_context \<Rightarrow> string \<Rightarrow> string list \<Rightarrow> string list \<Rightarrow> ('s running, unit) op" where
  "move_all store deps ctx user sources destinations =
     thenM (progress ''several paths'' ''begin'')
    (thenM (forM (\<lambda>d. ofM (checkLength d)) destinations)
    (thenM (progress ''several paths'' ''validated-path-lengths'')
    (thenM (forM (\<lambda>(i, source, destination).
        thenM (stop_when_done ctx i ''the move was stopped'')
          (moveOne store deps user source destination)) (enumerate 0 (zip sources destinations)))
      (progress ''several paths'' ''end''))))"

definition Move_Run :: "'s job_deps \<Rightarrow> job_context \<Rightarrow> task \<Rightarrow> ('s running, unit) op" where
  "Move_Run deps ctx t =
     bindM (ofM (stringsFrom (task_data t) ''sources'')) (\<lambda>sources.
     bindM (ofM (stringFrom (task_data t) ''destination'')) (\<lambda>destination.
       scopeFor deps t (\<lambda>store.
         move_all store deps ctx (task_user t) sources (DestinationsUnder destination sources))))"

definition Move_Notify :: "'s job_deps \<Rightarrow> task \<Rightarrow> bool \<Rightarrow> notification list" where
  "Move_Notify deps t failed =
     (case (stringsFrom (task_data t) ''sources'', stringFrom (task_data t) ''destination'') of
        (Inr sources, Inr destination) \<Rightarrow>
          notify deps [notify_Move (task_user t) sources (DestinationsUnder destination sources) failed]
      | _ \<Rightarrow> [])"

definition Rename_Run :: "'s job_deps \<Rightarrow> job_context \<Rightarrow> task \<Rightarrow> ('s running, unit) op" where
  "Rename_Run deps ctx t =
     bindM (ofM (stringFrom (task_data t) ''source'')) (\<lambda>source.
     bindM (ofM (stringFrom (task_data t) ''destination'')) (\<lambda>destination.
       scopeFor deps t (\<lambda>store. moveOne store deps (task_user t) source destination)))"

definition Rename_Notify :: "'s job_deps \<Rightarrow> task \<Rightarrow> bool \<Rightarrow> notification list" where
  "Rename_Notify deps t failed =
     (case (stringFrom (task_data t) ''source'', stringFrom (task_data t) ''destination'') of
        (Inr source, Inr destination) \<Rightarrow>
          notify deps [notify_Rename (task_user t) [source] [destination] failed]
      | _ \<Rightarrow> [])"

section \<open>delete.go\<close>

text \<open>\<open>deleteTickets\<close>: the names already removed are passed along.\<close>

definition deleteTickets ::
    "'s job_store \<Rightarrow> ticket list \<Rightarrow> string list \<Rightarrow> ('s running, string list) op" where
  "deleteTickets store tickets deleted =
     foldM (\<lambda>deleted t.
       if ticket_name t \<in> set deleted then returnM deleted
       else thenM (wrapM ''deleting a ticket'' (in_store (js_DeleteTicket store (ticket_name t))))
              (returnM (ticket_name t # deleted))) deleted tickets"

text \<open>The loop's body; its state is the tickets once they are listed, and the names removed.\<close>

definition delete_one ::
    "'s job_store \<Rightarrow> 's job_deps \<Rightarrow> job_context \<Rightarrow> string \<Rightarrow> (string \<times> string) list
      \<Rightarrow> ticket list option \<times> string list \<Rightarrow> nat \<times> string \<Rightarrow> ('s running, ticket list option \<times> string list) op" where
  "delete_one store deps ctx user trashPaths = (\<lambda>(known, deleted) (i, path).
     thenM (stop_when_done ctx i ''the delete was stopped'')
    (thenM (progress path ''begin-delete'')
    (bindM (case known of Some tickets \<Rightarrow> returnM tickets
            | None \<Rightarrow> wrapM ''listing the tickets'' (in_store (js_Tickets store)))
      (\<lambda>tickets.
     bindM (deleteTickets store (TicketsUnder tickets path) deleted) (\<lambda>deleted.
     thenM (progress path ''deleted-tickets'')
    (thenM (case map_of trashPaths path of
        None \<Rightarrow> wrapM ''deleting'' (in_store (js_Delete store path True))
      | Some trashPath \<Rightarrow>
          thenM (moveOne store deps user path trashPath)
         (thenM (wrapM ''recording the origin'' (in_store (js_SetAVU store trashPath
             \<lparr>avu_attribute = TrashOriginAttribute, avu_value = path, avu_unit = SystemUnit\<rparr>)))
           (progress path ''set-trash-path-metadata'')))
    (thenM (progress path ''end-delete'')
      (returnM (Some tickets, deleted)))))))))"

definition delete_all ::
    "'s job_store \<Rightarrow> 's job_deps \<Rightarrow> job_context \<Rightarrow> string \<Rightarrow> string list \<Rightarrow> (string \<times> string) list
      \<Rightarrow> ('s running, unit) op" where
  "delete_all store deps ctx user requested trashPaths =
     thenM (progress ''deleted paths'' ''begin'')
    (thenM (foldM (delete_one store deps ctx user trashPaths) (None, []) (enumerate 0 requested))
      (progress ''deleted paths'' ''end''))"

definition Delete_Run :: "'s job_deps \<Rightarrow> job_context \<Rightarrow> task \<Rightarrow> ('s running, unit) op" where
  "Delete_Run deps ctx t =
     bindM (ofM (stringsFrom (task_data t) ''paths'')) (\<lambda>requested.
     bindM (ofM (mapFrom (task_data t) ''trash-paths'')) (\<lambda>trashPaths.
       in_scope deps (jd_proxy deps) (\<lambda>store.
         delete_all store deps ctx (task_user t) requested trashPaths)))"

definition Delete_Notify :: "'s job_deps \<Rightarrow> task \<Rightarrow> bool \<Rightarrow> notification list" where
  "Delete_Notify deps t failed =
     (case (stringsFrom (task_data t) ''paths'', mapFrom (task_data t) ''trash-paths'') of
        (Inr requested, Inr trashPaths) \<Rightarrow>
          (let (trashed, deleted) = partitionByTrash requested trashPaths in
             (if deleted \<noteq> [] then notify deps [notify_Delete (task_user t) deleted (jd_layout deps) failed] else []) @
             (if trashed \<noteq> [] then notify deps [notify_Trash (task_user t) trashed
                (map (\<lambda>p. the (map_of trashPaths p)) trashed) failed] else []))
      | _ \<Rightarrow> [])"

section \<open>trash.go\<close>

definition usageRoutingKeyPrefix :: string where
  "usageRoutingKeyPrefix = ''index.usage.data.user.''"

text \<open>One path of \<open>EmptyTrash\<close>: a failure is counted and the loop goes on.\<close>

definition empty_one :: "'s job_store \<Rightarrow> job_context \<Rightarrow> nat \<Rightarrow> nat \<times> string \<Rightarrow> ('s running, nat) op" where
  "empty_one store ctx failures = (\<lambda>(i, path).
     thenM (stop_when_done ctx i ''emptying the trash was stopped'')
    (thenM (progress path ''begin-delete'')
    (bindM (\<lambda>r. case in_store (js_Delete store path True) r of
              (Inr _, r') \<Rightarrow> (Inr failures, r')
            | (Inl err, r') \<Rightarrow>
                thenM (event (Logged path)) (thenM (progress path ''error-deleting'') (returnM (Suc failures))) r')
      (\<lambda>failures. thenM (progress path ''end-delete'') (returnM failures)))))"

definition empty_all ::
    "'s job_store \<Rightarrow> 's job_deps \<Rightarrow> job_context \<Rightarrow> string \<Rightarrow> string list \<Rightarrow> ('s running, unit) op" where
  "empty_all store deps ctx user trashPaths =
     thenM (progress ''delete trash'' ''begin'')
    (bindM (foldM (empty_one store ctx) 0 (enumerate 0 trashPaths)) (\<lambda>failures.
     thenM (progress ''delete trash'' ''end'')
    (thenM (if jd_publishes deps then event (Published (usageRoutingKeyPrefix @ user)) else returnM ())
      (if failures > 0
       then failM (Plain (itoa failures @ '' of '' @ itoa (length trashPaths) @
         '' paths could not be removed from the trash''))
       else returnM ()))))"

definition EmptyTrash_Run :: "'s job_deps \<Rightarrow> job_context \<Rightarrow> task \<Rightarrow> ('s running, unit) op" where
  "EmptyTrash_Run deps ctx t =
     bindM (ofM (stringsFrom (task_data t) ''trash-paths'')) (\<lambda>trashPaths.
       in_scope deps (jd_proxy deps) (\<lambda>store. empty_all store deps ctx (task_user t) trashPaths))"

definition EmptyTrash_Notify :: "'s job_deps \<Rightarrow> task \<Rightarrow> bool \<Rightarrow> notification list" where
  "EmptyTrash_Notify deps t failed = notify deps [notify_EmptyTrash (task_user t) (jd_layout deps) failed]"

subsection \<open>Restoring\<close>

text \<open>The loop of \<open>restoreParents\<close> climbs until it meets \<open>extant\<close> or the home; an operation that
  may not return is an optional one, \<open>None\<close> standing for a loop that does not end.\<close>

type_synonym ('s, 'a) pop = "'s \<Rightarrow> ((gerror + 'a) \<times> 's) option"

definition total :: "('s, 'a) op \<Rightarrow> ('s, 'a) pop" where
  "total m = (\<lambda>s. Some (m s))"

definition bindP :: "('s, 'a) pop \<Rightarrow> ('a \<Rightarrow> ('s, 'b) pop) \<Rightarrow> ('s, 'b) pop" where
  "bindP m f = (\<lambda>s. case m s of None \<Rightarrow> None
     | Some (Inl e, s') \<Rightarrow> Some (Inl e, s') | Some (Inr a, s') \<Rightarrow> f a s')"

primrec forP :: "('a \<Rightarrow> ('s, unit) pop) \<Rightarrow> 'a list \<Rightarrow> ('s, unit) pop" where
  "forP f [] = total (returnM ())"
| "forP f (x # xs) = bindP (f x) (\<lambda>_. forP f xs)"

function firstExtant :: "'s job_store \<Rightarrow> string \<Rightarrow> ('s, string) op" where
  "firstExtant store current =
     bindM (ss_Stat store current) (\<lambda>st.
       if st_exists st then returnM current
       else if Dir current = current then returnM current
       else firstExtant store (Dir current))"
  by pat_completeness auto
termination
  by (relation "measure (\<lambda>(store, current). climb_measure current)") (auto simp: climb_measure_Dir)

declare firstExtant.simps [simp del]

definition firstExtantAncestor :: "'s job_store \<Rightarrow> string \<Rightarrow> ('s, string) op" where
  "firstExtantAncestor store path = firstExtant store (Dir path)"

definition own_one :: "'s job_store \<Rightarrow> string \<Rightarrow> string \<Rightarrow> ('s, unit) op" where
  "own_one store user current =
     bindM (ss_Stat store current) (\<lambda>owned.
       if st_permission owned = PermissionOwn then returnM ()
       else wrapM ''giving ownership'' (js_SetOwner store current user False))"

partial_function (option) own_up ::
    "'s job_store \<Rightarrow> string \<Rightarrow> string \<Rightarrow> string \<Rightarrow> string \<Rightarrow> 's \<Rightarrow> ((gerror + unit) \<times> 's) option" where
  "own_up store user extant home current s =
     (if current = extant \<or> current = home then Some (Inr (), s)
      else case own_one store user current s of
        (Inl e, s') \<Rightarrow> Some (Inl e, s')
      | (Inr _, s') \<Rightarrow> own_up store user extant home (Dir current) s')"

definition restoreParents :: "'s job_store \<Rightarrow> layout \<Rightarrow> string \<Rightarrow> string \<Rightarrow> ('s, unit) pop" where
  "restoreParents store l user destination =
     (let parent = Dir destination in
      bindP (total (ss_Stat store parent)) (\<lambda>st.
        if st_exists st then total (returnM ())
        else bindP (total (firstExtantAncestor store parent)) (\<lambda>extant.
             bindP (total (wrapM ''recreating'' (js_MakeDir store parent True))) (\<lambda>_.
               own_up store user extant (UserHome l user) parent))))"

definition in_store_P :: "('s, 'a) pop \<Rightarrow> ('s running, 'a) pop" where
  "in_store_P m = (\<lambda>r. map_option (\<lambda>(x, s). (x, r\<lparr>rn_store := s\<rparr>)) (m (rn_store r)))"

definition restore_one ::
    "'s job_store \<Rightarrow> 's job_deps \<Rightarrow> job_context \<Rightarrow> string \<Rightarrow> (string \<times> string) list \<Rightarrow> nat \<times> string
      \<Rightarrow> ('s running, unit) pop" where
  "restore_one store deps ctx user plans = (\<lambda>(i, path).
     bindP (total (stop_when_done ctx i ''the restore was stopped'')) (\<lambda>_.
       case map_of plans path of
         None \<Rightarrow> total (failM (Plain (''the task records no destination for '' @ quoted path)))
       | Some destination \<Rightarrow>
           if destination = [] then total (failM (Plain (''the task records no destination for '' @ quoted path)))
           else bindP (total (progress path ''begin-restore'')) (\<lambda>_.
                bindP (total (in_store (ss_Stat store destination))) (\<lambda>st.
                  if st_exists st then total (failM (Plain (quoted destination @ '' is already there, so '' @
                    quoted path @ '' cannot be restored to it'')))
                  else bindP (in_store_P (restoreParents store (jd_layout deps) user destination)) (\<lambda>_.
                    total (thenM (moveOne store deps user path destination)
                      (progress path ''end-restore'')))))))"

definition restore_all ::
    "'s job_store \<Rightarrow> 's job_deps \<Rightarrow> job_context \<Rightarrow> string \<Rightarrow> string list \<Rightarrow> (string \<times> string) list
      \<Rightarrow> ('s running, unit) pop" where
  "restore_all store deps ctx user trashPaths plans =
     bindP (total (progress ''deleted paths'' ''begin'')) (\<lambda>_.
     bindP (forP (restore_one store deps ctx user plans) (enumerate 0 trashPaths)) (\<lambda>_.
       total (progress ''deleted paths'' ''end'')))"

definition Restore_Run :: "'s job_deps \<Rightarrow> job_context \<Rightarrow> task \<Rightarrow> ('s running, unit) pop" where
  "Restore_Run deps ctx t =
     bindP (total (ofM (stringsFrom (task_data t) ''paths''))) (\<lambda>trashPaths.
     bindP (total (ofM (restorePlansFrom (task_data t)))) (\<lambda>plans.
       if task_user t = [] then total (failM (Plain ''the task names no user, so there is nobody to act as''))
       else bindP (total (in_store (jd_open deps (task_user t)))) (\<lambda>h r.
         map_option (\<lambda>(x, r'). (x, snd (in_store (jd_close deps h) r')))
           (restore_all (jd_store deps h) deps ctx (task_user t) trashPaths plans r))))"

definition Restore_Notify :: "'s job_deps \<Rightarrow> task \<Rightarrow> bool \<Rightarrow> notification list" where
  "Restore_Notify deps t failed =
     (case (stringsFrom (task_data t) ''paths'', restorePlansFrom (task_data t)) of
        (Inr trashPaths, Inr plans) \<Rightarrow>
          notify deps [notify_Restore (task_user t) trashPaths
            (map (\<lambda>p. case map_of plans p of None \<Rightarrow> [] | Some d \<Rightarrow> d) trashPaths) failed]
      | _ \<Rightarrow> [])"

end
