(* ===== verification/JobTraces.thy ===== *)
theory JobTraces
  imports Jobs
begin

text \<open>
  What jobs do to the data store, as the calls they make.  \<open>traced\<close> is a store that records
  every move, removal, creation, change of owner and tag before it passes it on; \<open>emits\<close> is a
  small logic for what an operation adds to such a record: the whole of a given list on success,
  a prefix of it on an error.
\<close>

section \<open>What an operation adds to a record\<close>

definition emits :: "('s \<Rightarrow> 'c list) \<Rightarrow> 'c list \<Rightarrow> ('s, 'a) op \<Rightarrow> bool" where
  "emits L cs m \<longleftrightarrow> (\<forall>s r s'. m s = (r, s') \<longrightarrow>
     (\<exists>ds. L s' = L s @ ds \<and> prefix ds cs \<and> (isl r \<or> ds = cs)))"

named_theorems emits_intros

lemma emitsI:
  "(\<And>s r s'. m s = (r, s') \<Longrightarrow> \<exists>ds. L s' = L s @ ds \<and> prefix ds cs \<and> (isl r \<or> ds = cs)) \<Longrightarrow> emits L cs m"
  unfolding emits_def by blast

lemma emitsD:
  "emits L cs m \<Longrightarrow> m s = (r, s') \<Longrightarrow> \<exists>ds. L s' = L s @ ds \<and> prefix ds cs \<and> (isl r \<or> ds = cs)"
  unfolding emits_def by blast

lemma emits_returnM [emits_intros]: "emits L [] (returnM a)"
  by (simp add: emits_def)

lemma emits_failM: "emits L cs (failM e)"
  by (simp add: emits_def)

lemma emits_ofM [emits_intros]: "emits L [] (ofM r)"
  by (simp add: emits_def)

lemma emits_bindM [emits_intros]:
  assumes "emits L cs m" "\<And>a. emits L ds (f a)"
  shows "emits L (cs @ ds) (bindM m f)"
proof (rule emitsI)
  fix s r s'
  assume run: "bindM m f s = (r, s')"
  obtain q t where m: "m s = (q, t)"
    by (cases "m s")
  from emitsD [OF assms(1) m] obtain xs where
    xs: "L t = L s @ xs" "prefix xs cs" "isl q \<or> xs = cs" by blast
  show "\<exists>ys. L s' = L s @ ys \<and> prefix ys (cs @ ds) \<and> (isl r \<or> ys = cs @ ds)"
  proof (cases q)
    case (Inl e)
    with run m have "s' = t" "isl r"
      by (simp_all add: bindM_def) (metis sum.disc(1))
    with xs show ?thesis
      by (metis prefix_prefix)
  next
    case (Inr a)
    with run m have "f a t = (r, s')"
      by (simp add: bindM_def)
    from emitsD [OF assms(2) this] obtain ys where
      "L s' = L t @ ys" "prefix ys ds" "isl r \<or> ys = ds" by blast
    with xs Inr show ?thesis
      by (intro exI [of _ "cs @ ys"]) auto
  qed
qed

lemma emits_thenM [emits_intros]: "emits L cs m \<Longrightarrow> emits L ds k \<Longrightarrow> emits L (cs @ ds) (thenM m k)"
  unfolding thenM_def by (rule emits_bindM)

text \<open>Where one of the two steps leaves the record alone.\<close>

lemma emits_bindM_quiet: "emits L [] m \<Longrightarrow> (\<And>a. emits L ds (f a)) \<Longrightarrow> emits L ds (bindM m f)"
  using emits_bindM [of L "[]" m ds f] by simp

lemma emits_thenM_quiet: "emits L [] m \<Longrightarrow> emits L ds k \<Longrightarrow> emits L ds (thenM m k)"
  unfolding thenM_def by (rule emits_bindM_quiet)

lemma emits_thenM_last: "emits L ds m \<Longrightarrow> emits L [] k \<Longrightarrow> emits L ds (thenM m k)"
  using emits_thenM [of L ds m "[]" k] by simp

lemma emits_bindM_last: "emits L ds m \<Longrightarrow> (\<And>a. emits L [] (f a)) \<Longrightarrow> emits L ds (bindM m f)"
  using emits_bindM [of L ds m "[]" f] by simp

lemma emits_wrapM [emits_intros]: "emits L cs m \<Longrightarrow> emits L cs (wrapM t m)"
proof (rule emitsI)
  fix s r s'
  assume m: "emits L cs m" and run: "wrapM t m s = (r, s')"
  obtain q where "m s = (q, s')" "isl q \<longleftrightarrow> isl r"
    using run by (auto simp: wrapM_def split: prod.splits sum.splits)
  with emitsD [OF m, of s q s'] show "\<exists>ds. L s' = L s @ ds \<and> prefix ds cs \<and> (isl r \<or> ds = cs)"
    by simp
qed

lemma emits_finallyM:
  assumes "emits L cs m" "\<And>s r s'. k s = (r, s') \<Longrightarrow> L s' = L s"
  shows "emits L cs (finallyM m k)"
proof (rule emitsI)
  fix s r s'
  assume run: "finallyM m k s = (r, s')"
  obtain t where t: "m s = (r, t)" "s' = snd (k t)"
    using run by (auto simp: finallyM_def split: prod.splits)
  then have "L s' = L t"
    using assms(2) by (metis prod.collapse)
  with emitsD [OF assms(1) t(1)] show "\<exists>ds. L s' = L s @ ds \<and> prefix ds cs \<and> (isl r \<or> ds = cs)"
    by simp
qed

lemma emits_forM [emits_intros]:
  "(\<And>x. x \<in> set xs \<Longrightarrow> emits L (g x) (f x)) \<Longrightarrow> emits L (concat (map g xs)) (forM f xs)"
proof (induction xs)
  case Nil
  show ?case
    unfolding forM.simps list.map concat.simps by (rule emits_returnM)
next
  case (Cons x xs)
  have "emits L (g x) (f x)" "emits L (concat (map g xs)) (forM f xs)"
    using Cons by simp_all
  then show ?case
    unfolding forM.simps list.map concat.simps by (rule emits_thenM)
qed

lemma emits_foldM [emits_intros]:
  "(\<And>b x. x \<in> set xs \<Longrightarrow> emits L (g x) (f b x)) \<Longrightarrow> emits L (concat (map g xs)) (foldM f b xs)"
proof (induction xs arbitrary: b)
  case Nil
  show ?case
    unfolding foldM.simps list.map concat.simps by (rule emits_returnM)
next
  case (Cons x xs)
  have "emits L (g x) (f b x)" "\<And>c. emits L (concat (map g xs)) (foldM f c xs)"
    using Cons by simp_all
  then show ?case
    unfolding foldM.simps list.map concat.simps by (rule emits_bindM)
qed

lemma emits_quiet_forM: "(\<And>x. x \<in> set xs \<Longrightarrow> emits L [] (f x)) \<Longrightarrow> emits L [] (forM f xs)"
  using emits_forM [of xs L "\<lambda>_. []" f] by (simp add: concat_replicate_trivial map_replicate_const)

lemma emits_quiet_foldM: "(\<And>b x. x \<in> set xs \<Longrightarrow> emits L [] (f b x)) \<Longrightarrow> emits L [] (foldM f b xs)"
  using emits_foldM [of xs L "\<lambda>_. []" f b] by (simp add: concat_replicate_trivial map_replicate_const)

text \<open>What leaves a record alone is what keeps the relation of equal records.\<close>

definition same_record :: "('s \<Rightarrow> 'c list) \<Rightarrow> 's \<Rightarrow> 's \<Rightarrow> bool" where
  "same_record L s s' \<longleftrightarrow> L s' = L s"

lemma preorder_same_record: "preorder_rel (same_record L)"
  by (rule preorder_relI) (auto simp: same_record_def)

lemma emits_same: "keeps (same_record L) m \<Longrightarrow> emits L [] m"
  by (rule emitsI) (auto simp: same_record_def dest: keepsD)

section \<open>Recorded calls\<close>

datatype call =
    MoveCall string string | DeleteCall string | TagCall string | MakeCall string | OwnCall string

type_synonym 's recorded = "'s \<times> call list"

definition through :: "('s, 'a) op \<Rightarrow> ('s recorded, 'a) op" where
  "through m = (\<lambda>(s, cs). case m s of (r, s') \<Rightarrow> (r, (s', cs)))"

definition recorded :: "call \<Rightarrow> ('s, 'a) op \<Rightarrow> ('s recorded, 'a) op" where
  "recorded c m = (\<lambda>(s, cs). case m s of (r, s') \<Rightarrow> (r, (s', cs @ [c])))"

definition traced :: "'s job_store \<Rightarrow> 's recorded job_store" where
  "traced st =
     \<lparr>ps_ACL = \<lambda>p. through (ps_ACL st p), ps_ACLs = \<lambda>ps. through (ps_ACLs st ps),
      ps_Inherits = \<lambda>p. through (ps_Inherits st p), ps_Children = \<lambda>p. through (ps_Children st p),
      ps_SetPermission = \<lambda>p u l rec. through (ps_SetPermission st p u l rec),
      ss_Stat = \<lambda>p. through (ss_Stat st p), ss_SetInherit = \<lambda>p on rec. through (ss_SetInherit st p on rec),
      js_AVUs = \<lambda>p. through (js_AVUs st p),
      js_SetAVU = \<lambda>p a. recorded (TagCall p) (js_SetAVU st p a),
      js_Move = \<lambda>p q. recorded (MoveCall p q) (js_Move st p q),
      js_Delete = \<lambda>p force. recorded (DeleteCall p) (js_Delete st p force),
      js_MakeDir = \<lambda>p rec. recorded (MakeCall p) (js_MakeDir st p rec),
      js_SetOwner = \<lambda>p u rec. recorded (OwnCall p) (js_SetOwner st p u rec),
      js_Tickets = through (js_Tickets st), js_DeleteTicket = \<lambda>n. through (js_DeleteTicket st n)\<rparr>"

definition traced_deps :: "'s job_deps \<Rightarrow> 's recorded job_deps" where
  "traced_deps d =
     \<lparr>jd_open = \<lambda>user. through (jd_open d user), jd_close = \<lambda>h. through (jd_close d h),
      jd_store = \<lambda>h. traced (jd_store d h), jd_notifies = jd_notifies d, jd_publishes = jd_publishes d,
      jd_layout = jd_layout d, jd_admins = jd_admins d, jd_proxy = jd_proxy d\<rparr>"

lemma traced_simps [simp]:
  "ps_ACL (traced st) p = through (ps_ACL st p)" "ps_ACLs (traced st) ps = through (ps_ACLs st ps)"
  "ps_Inherits (traced st) p = through (ps_Inherits st p)" "ps_Children (traced st) p = through (ps_Children st p)"
  "ps_SetPermission (traced st) p u l rec = through (ps_SetPermission st p u l rec)"
  "ss_Stat (traced st) p = through (ss_Stat st p)" "js_SetAVU (traced st) p a = recorded (TagCall p) (js_SetAVU st p a)"
  "js_Move (traced st) p q = recorded (MoveCall p q) (js_Move st p q)"
  "js_Delete (traced st) p force = recorded (DeleteCall p) (js_Delete st p force)"
  "js_MakeDir (traced st) p rec = recorded (MakeCall p) (js_MakeDir st p rec)"
  "js_SetOwner (traced st) p u rec = recorded (OwnCall p) (js_SetOwner st p u rec)"
  "js_Tickets (traced st) = through (js_Tickets st)" "js_DeleteTicket (traced st) n = through (js_DeleteTicket st n)"
  by (simp_all add: traced_def)

lemma traced_deps_simps [simp]:
  "jd_open (traced_deps d) user = through (jd_open d user)" "jd_close (traced_deps d) h = through (jd_close d h)"
  "jd_store (traced_deps d) h = traced (jd_store d h)" "jd_proxy (traced_deps d) = jd_proxy d"
  "jd_layout (traced_deps d) = jd_layout d" "jd_admins (traced_deps d) = jd_admins d"
  by (simp_all add: traced_deps_def)

abbreviation calls :: "'s recorded running \<Rightarrow> call list" where
  "calls r \<equiv> snd (rn_store r)"

lemma keeps_through: "keeps (same_record snd) (through m)"
  by (rule keepsI) (auto simp: same_record_def through_def split: prod.splits)

lemma emits_recorded: "emits calls [c] (in_store (recorded c m))"
  by (rule emitsI) (auto simp: in_store_def recorded_def split: prod.splits)

lemma keeps_in_store: "keeps (same_record snd) m \<Longrightarrow> keeps (same_record calls) (in_store m)"
  by (rule keepsI) (auto simp: same_record_def in_store_def split: prod.splits dest: keepsD)

lemma emits_in_store: "keeps (same_record snd) m \<Longrightarrow> emits calls [] (in_store m)"
  by (rule emits_same [OF keeps_in_store])

lemma emits_event: "emits calls [] (event e)"
  by (simp add: emits_def event_def)

lemma emits_stop: "emits L [] (stop_when_done ctx i what)"
  by (cases "ctx i") (simp_all add: stop_when_done_def emits_returnM emits_failM)

text \<open>A repair of permissions makes none of the recorded calls.\<close>

lemma repair_keeps_rel:
  assumes pre: "preorder_rel R"
    and "\<And>p. keeps R (ps_ACL st p)" "\<And>ps. keeps R (ps_ACLs st ps)" "\<And>p. keeps R (ps_Inherits st p)"
    and "\<And>p. keeps R (ps_Children st p)" "\<And>p u l rec. keeps R (ps_SetPermission st p u l rec)"
  shows "keeps R (RepairPermissions st mv)"
proof -
  note base = pre assms(2-6)
  have perm: "keeps R (permissionOf st p u)" for p u
    unfolding permissionOf_def by (intro keeps_intros base)
  have holds: "keeps R (holdsAnythingReadableBy st p u)" for p u
    unfolding holdsAnythingReadableBy_def by (intro keeps_intros base)
  have take_back: "keeps R (take_back_read st u as)" for u as
  proof (induction as)
    case Nil
    show ?case by (simp only: take_back_read.simps) (rule keeps_returnM [OF pre])
  next
    case (Cons a as)
    then show ?case
      unfolding take_back_read.simps by (intro keeps_intros base perm holds)
  qed
  show ?thesis
    unfolding RepairPermissions_def removeObsoleteAccess_def clearAccess_def grantParentAccess_def
      grantAncestorAccess_def grant_read_on_def shareesOf_def Let_def
    by (intro keeps_intros base perm take_back)
qed

lemma repair_unrecorded: "keeps (same_record snd) (RepairPermissions (traced st) mv)"
  by (rule repair_keeps_rel [OF preorder_same_record]) (simp_all add: keeps_through)

section \<open>The calls of each job\<close>

lemma emits_moveOne: "emits calls [MoveCall p q] (moveOne (traced st) deps user p q)"
proof -
  have "emits calls ([] @ [] @ [] @ [] @ [MoveCall p q] @ [] @ [] @ []) (moveOne (traced st) deps user p q)"
    unfolding moveOne_def traced_simps
    by (intro emits_thenM emits_event emits_ofM emits_wrapM emits_recorded emits_in_store repair_unrecorded)
  then show ?thesis by simp
qed

lemma emits_in_scope:
  assumes "\<And>h. emits calls cs (body (traced (jd_store d h)))"
  shows "emits calls cs (in_scope (traced_deps d) user body)"
  unfolding in_scope_def traced_deps_simps
proof (rule emits_bindM_quiet)
  show "emits calls [] (in_store (through (jd_open d user)))"
    by (rule emits_in_store [OF keeps_through])
  fix h
  show "emits calls cs (finallyM (body (traced (jd_store d h))) (in_store (through (jd_close d h))))"
    by (rule emits_finallyM [OF assms])
      (use keepsD [OF keeps_in_store [OF keeps_through]] in \<open>fastforce simp: same_record_def\<close>)
qed

lemma emits_scopeFor:
  assumes "\<And>h. emits calls cs (body (traced (jd_store d h)))"
  shows "emits calls cs (scopeFor (traced_deps d) t body)"
  unfolding scopeFor_def by (simp add: emits_failM emits_in_scope [where body = body and d = d, OF assms])

lemma emits_read:
  "(\<And>a. r = Inr a \<Longrightarrow> emits L cs (f a)) \<Longrightarrow> emits L cs (bindM (ofM r) f)"
  by (cases r) (simp_all add: bindM_def ofM_def emits_def)

definition move_calls :: "string list \<Rightarrow> string list \<Rightarrow> call list" where
  "move_calls sources destinations = map (\<lambda>(p, q). MoveCall p q) (zip sources destinations)"

lemma emits_move_all:
  "emits calls (move_calls sources destinations) (move_all (traced st) deps ctx user sources destinations)"
proof -
  have one: "emits calls (case x of (i, p, q) \<Rightarrow> [MoveCall p q])
      (case x of (i, p, q) \<Rightarrow> thenM (stop_when_done ctx i what) (moveOne (traced st) deps user p q))" for x :: "nat \<times> string \<times> string" and what
    by (cases x) (simp add: emits_thenM_quiet emits_stop emits_moveOne)
  have "concat (map (\<lambda>(i, p, q). [MoveCall p q]) (enumerate n xs)) = map (\<lambda>(p, q). MoveCall p q) xs" for n xs
    by (induction xs arbitrary: n) auto
  moreover have "emits calls (concat (map (\<lambda>(i, p, q). [MoveCall p q]) (enumerate 0 (zip sources destinations))))
      (forM (\<lambda>(i, p, q). thenM (stop_when_done ctx i ''the move was stopped'') (moveOne (traced st) deps user p q))
        (enumerate 0 (zip sources destinations)))"
    by (rule emits_forM, rule one)
  ultimately have "emits calls (move_calls sources destinations) (forM (\<lambda>(i, p, q).
      thenM (stop_when_done ctx i ''the move was stopped'') (moveOne (traced st) deps user p q))
      (enumerate 0 (zip sources destinations)))"
    by (simp only: move_calls_def)
  note loop = this
  show ?thesis
    unfolding move_all_def
    by (rule emits_thenM_quiet [OF emits_event], rule emits_thenM_quiet [OF emits_quiet_forM [OF emits_ofM]],
        rule emits_thenM_quiet [OF emits_event], rule emits_thenM_last [OF loop emits_event])
qed

lemma emits_Move_Run:
  "stringsFrom (task_data t) ''sources'' = Inr sources \<Longrightarrow> stringFrom (task_data t) ''destination'' = Inr destination \<Longrightarrow>
   emits calls (move_calls sources (DestinationsUnder destination sources)) (Move_Run (traced_deps d) ctx t)"
  unfolding Move_Run_def
  by (intro emits_read emits_scopeFor) (simp add: emits_move_all)

definition delete_calls :: "(string \<times> string) list \<Rightarrow> string list \<Rightarrow> call list" where
  "delete_calls trashPaths requested =
     concat (map (\<lambda>p. case map_of trashPaths p of
       None \<Rightarrow> [DeleteCall p] | Some q \<Rightarrow> [MoveCall p q, TagCall q]) requested)"

lemma emits_deleteTickets: "emits calls [] (deleteTickets (traced st) ts deleted)"
  unfolding deleteTickets_def traced_simps
  by (intro emits_quiet_foldM) (auto intro!: emits_returnM emits_thenM_quiet emits_wrapM emits_in_store keeps_through)

lemma emits_delete_one:
  "emits calls (delete_calls trashPaths [p]) (delete_one (traced st) deps ctx user trashPaths known (i, p))"
proof -
  obtain tickets deleted where known: "known = (tickets, deleted)"
    by (cases known)
  have list: "emits calls [] (case tickets of Some ts \<Rightarrow> returnM ts
      | None \<Rightarrow> wrapM ''listing the tickets'' (in_store (through (js_Tickets st))))"
    by (cases tickets) (simp_all add: emits_returnM emits_wrapM emits_in_store keeps_through)
  have act: "emits calls (delete_calls trashPaths [p]) (case map_of trashPaths p of
        None \<Rightarrow> wrapM ''deleting'' (in_store (recorded (DeleteCall p) (js_Delete st p True)))
      | Some q \<Rightarrow> thenM (moveOne (traced st) deps user p q)
         (thenM (wrapM ''recording the origin'' (in_store (recorded (TagCall q) (js_SetAVU st q
             \<lparr>avu_attribute = TrashOriginAttribute, avu_value = p, avu_unit = SystemUnit\<rparr>))))
           (progress p ''set-trash-path-metadata'')))"
  proof (cases "map_of trashPaths p")
    case None
    then show ?thesis
      by (simp add: delete_calls_def emits_wrapM emits_recorded)
  next
    case (Some q)
    have "emits calls ([MoveCall p q] @ [TagCall q] @ []) (thenM (moveOne (traced st) deps user p q)
         (thenM (wrapM ''recording the origin'' (in_store (recorded (TagCall q) (js_SetAVU st q
             \<lparr>avu_attribute = TrashOriginAttribute, avu_value = p, avu_unit = SystemUnit\<rparr>))))
           (progress p ''set-trash-path-metadata'')))"
      by (intro emits_thenM emits_moveOne emits_wrapM emits_recorded emits_event)
    with Some show ?thesis
      by (simp add: delete_calls_def)
  qed
  show ?thesis
    unfolding delete_one_def known prod.case traced_simps
    by (rule emits_thenM_quiet [OF emits_stop], rule emits_thenM_quiet [OF emits_event],
        rule emits_bindM_quiet [OF list], rule emits_bindM_quiet [OF emits_deleteTickets],
        rule emits_thenM_quiet [OF emits_event], rule emits_thenM_last [OF act],
        rule emits_thenM_quiet [OF emits_event], rule emits_returnM)
qed

lemma emits_delete_all:
  "emits calls (delete_calls trashPaths requested) (delete_all (traced st) deps ctx user requested trashPaths)"
proof -
  have one: "emits calls (delete_calls trashPaths [snd x]) (delete_one (traced st) deps ctx user trashPaths b x)" for b x
    using emits_delete_one [of trashPaths "snd x"] by (metis prod.collapse)
  have "concat (map (\<lambda>x. delete_calls trashPaths [snd x]) (enumerate n xs)) = delete_calls trashPaths xs" for n xs
    by (induction xs arbitrary: n) (auto simp: delete_calls_def split: option.split)
  moreover have "emits calls (concat (map (\<lambda>x. delete_calls trashPaths [snd x]) (enumerate 0 requested)))
      (foldM (delete_one (traced st) deps ctx user trashPaths) b (enumerate 0 requested))" for b
    by (rule emits_foldM, rule one)
  ultimately have "emits calls (delete_calls trashPaths requested)
      (foldM (delete_one (traced st) deps ctx user trashPaths) b (enumerate 0 requested))" for b
    by simp
  note loop = this
  show ?thesis
    unfolding delete_all_def
    by (rule emits_thenM_quiet [OF emits_event], rule emits_thenM_last [OF loop emits_event])
qed

lemma emits_Delete_Run:
  "stringsFrom (task_data t) ''paths'' = Inr requested \<Longrightarrow> mapFrom (task_data t) ''trash-paths'' = Inr trashPaths \<Longrightarrow>
   emits calls (delete_calls trashPaths requested) (Delete_Run (traced_deps d) ctx t)"
  unfolding Delete_Run_def
  by (intro emits_read emits_in_scope) (simp add: emits_delete_all)

lemma emits_empty_one: "emits calls [DeleteCall (snd x)] (empty_one (traced st) ctx n x)"
proof -
  obtain i p where x: "x = (i, p)"
    by (cases x)
  have attempt: "emits calls [DeleteCall p] (\<lambda>r. case in_store (recorded (DeleteCall p) (js_Delete st p True)) r of
              (Inr _, r') \<Rightarrow> (Inr n, r')
            | (Inl err, r') \<Rightarrow>
                thenM (event (Logged p)) (thenM (progress p ''error-deleting'') (returnM (Suc n))) r')"
    by (rule emitsI)
      (auto simp: in_store_def recorded_def event_def thenM_def bindM_def split: prod.splits sum.splits)
  show ?thesis
    unfolding empty_one_def x prod.case traced_simps snd_conv
    by (rule emits_thenM_quiet [OF emits_stop], rule emits_thenM_quiet [OF emits_event],
        rule emits_bindM_last [OF attempt], rule emits_thenM_quiet [OF emits_event], rule emits_returnM)
qed

lemma emits_EmptyTrash_Run:
  "stringsFrom (task_data t) ''trash-paths'' = Inr paths \<Longrightarrow>
   emits calls (map DeleteCall paths) (EmptyTrash_Run (traced_deps d) ctx t)"
proof -
  have "concat (map (\<lambda>x. [DeleteCall (snd x)]) (enumerate n xs)) = map DeleteCall xs" for n :: nat and xs :: "string list"
    by (induction xs arbitrary: n) auto
  moreover have "emits calls (concat (map (\<lambda>x. [DeleteCall (snd x)]) (enumerate 0 paths)))
      (foldM (empty_one (traced st) ctx) b (enumerate 0 paths))" for st :: "'a job_store" and b
    by (rule emits_foldM, rule emits_empty_one)
  ultimately have loop: "emits calls (map DeleteCall paths) (foldM (empty_one (traced st) ctx) b (enumerate 0 paths))"
    for st :: "'a job_store" and b
    by simp
  show "emits calls (map DeleteCall paths) (EmptyTrash_Run (traced_deps d) ctx t)"
    if "stringsFrom (task_data t) ''trash-paths'' = Inr paths"
    unfolding EmptyTrash_Run_def that
  proof (rule emits_read, rule emits_in_scope)
    fix a h
    assume "Inr paths = (Inr a :: gerror + string list)"
    then have a: "a = paths"
      by simp
    show "emits calls (map DeleteCall paths) (empty_all (traced (jd_store d h)) (traced_deps d) ctx (task_user t) a)"
      unfolding empty_all_def a
      by (rule emits_thenM_quiet [OF emits_event], rule emits_bindM_last [OF loop])
        (auto intro!: emits_thenM_quiet [OF emits_event] emits_returnM emits_failM emits_thenM_quiet [OF emits_returnM]
          emits_event)
  qed
qed

lemma emits_Rename_Run:
  "stringFrom (task_data t) ''source'' = Inr p \<Longrightarrow> stringFrom (task_data t) ''destination'' = Inr q \<Longrightarrow>
   emits calls [MoveCall p q] (Rename_Run (traced_deps d) ctx t)"
  unfolding Rename_Run_def by (intro emits_read emits_scopeFor) (simp add: emits_moveOne)

section \<open>Operations that may not return\<close>

text \<open>\<open>returns R m\<close>: \<open>m\<close> returns from every state, to one related to it.\<close>

definition returns :: "('s \<Rightarrow> 's \<Rightarrow> bool) \<Rightarrow> ('s, 'a) pop \<Rightarrow> bool" where
  "returns R m \<longleftrightarrow> (\<forall>s. \<exists>x s'. m s = Some (x, s') \<and> R s s')"

lemma returnsD: "returns R m \<Longrightarrow> \<exists>x s'. m s = Some (x, s') \<and> R s s'"
  by (simp add: returns_def)

lemma returns_total: "keeps R m \<Longrightarrow> returns R (total m)"
  unfolding returns_def total_def by (metis keepsD prod.collapse)

lemma returns_bindP:
  assumes "preorder_rel R" "returns R m" "\<And>a s s'. m s = Some (Inr a, s') \<Longrightarrow> returns R (f a)"
  shows "returns R (bindP m f)"
  unfolding returns_def
proof
  fix s
  obtain x t where m: "m s = Some (x, t)" "R s t"
    using returnsD [OF assms(2)] by blast
  show "\<exists>x s'. bindP m f s = Some (x, s') \<and> R s s'"
  proof (cases x)
    case (Inl e)
    with m show ?thesis by (simp add: bindP_def)
  next
    case (Inr a)
    with m assms(3) have "returns R (f a)" by blast
    from returnsD [OF this] obtain y u where "f a t = Some (y, u)" "R t u" by blast
    with m Inr show ?thesis
      using preorder_rel_trans [OF assms(1)] by (fastforce simp: bindP_def)
  qed
qed

lemma returns_forP:
  "preorder_rel R \<Longrightarrow> (\<And>x. x \<in> set xs \<Longrightarrow> returns R (f x)) \<Longrightarrow> returns R (forP f xs)"
proof (induction xs)
  case Nil
  then show ?case
    unfolding forP.simps by (intro returns_total keeps_returnM)
next
  case (Cons x xs)
  then show ?case
    unfolding forP.simps by (intro returns_bindP) simp_all
qed

definition lift_rel :: "('s \<Rightarrow> 's \<Rightarrow> bool) \<Rightarrow> 's running \<Rightarrow> 's running \<Rightarrow> bool" where
  "lift_rel R r r' \<longleftrightarrow> R (rn_store r) (rn_store r')"

lemma preorder_lift_rel: "preorder_rel R \<Longrightarrow> preorder_rel (lift_rel R)"
  unfolding preorder_rel_def reflp_def transp_def lift_rel_def by blast

lemma keeps_lift: "keeps R m \<Longrightarrow> keeps (lift_rel R) (in_store m)"
  by (rule keepsI) (auto simp: lift_rel_def in_store_def split: prod.splits dest: keepsD)

lemma keeps_event: "preorder_rel R \<Longrightarrow> keeps (lift_rel R) (event e)"
  by (rule keepsI) (auto simp: lift_rel_def event_def preorder_rel_refl)

lemma keeps_stop: "preorder_rel R \<Longrightarrow> keeps R (stop_when_done ctx i what)"
  by (cases "ctx i") (simp_all add: stop_when_done_def keeps_returnM keeps_failM)

lemma returns_in_store_P: "returns R m \<Longrightarrow> returns (lift_rel R) (in_store_P m)"
  unfolding returns_def in_store_P_def lift_rel_def by (fastforce simp: map_option_case)

text \<open>The first collection that exists is reached by climbing, so the loop that climbs to it
  again meets it.\<close>

lemma firstExtant_climbs: "firstExtant store current s = (Inr e, s') \<Longrightarrow> \<exists>k. e = (Dir ^^ k) current"
proof (induction store current arbitrary: s rule: firstExtant.induct)
  case (1 store current)
  from "1.prems" obtain st t where st: "ss_Stat store current s = (Inr st, t)"
    and rest: "(if st_exists st then returnM current else if Dir current = current then returnM current
        else firstExtant store (Dir current)) t = (Inr e, s')"
    by (subst (asm) firstExtant.simps) (auto simp: bindM_eq_Inr)
  show ?case
  proof (cases "st_exists st \<or> Dir current = current")
    case True
    with rest have "e = (Dir ^^ 0) current"
      by (auto split: if_splits)
    then show ?thesis by blast
  next
    case False
    with rest have "firstExtant store (Dir current) t = (Inr e, s')"
      by simp
    with False "1.IH" obtain k where "e = (Dir ^^ k) (Dir current)"
      by blast
    then have "e = (Dir ^^ Suc k) current"
      by (simp add: funpow_swap1)
    then show ?thesis by blast
  qed
qed

lemma own_up_returns:
  assumes "preorder_rel R" "\<And>j. keeps R (own_one store user ((Dir ^^ j) current))" "extant = (Dir ^^ k) current"
  shows "\<exists>x s'. own_up store user extant home current s = Some (x, s') \<and> R s s'"
  using assms(2,3)
proof (induction k arbitrary: current s)
  case 0
  then show ?case
    using preorder_rel_refl [OF assms(1)] by (subst own_up.simps) simp
next
  case (Suc k)
  show ?case
  proof (cases "current = extant \<or> current = home")
    case True
    then show ?thesis
      using preorder_rel_refl [OF assms(1)] by (subst own_up.simps) simp
  next
    case False
    obtain q t where one: "own_one store user current s = (q, t)"
      by (cases "own_one store user current s")
    with Suc.prems(1) [of 0] have st: "R s t"
      by (auto dest: keepsD)
    show ?thesis
    proof (cases q)
      case (Inl e)
      with one False st show ?thesis
        by (subst own_up.simps) simp
    next
      case (Inr a)
      have "keeps R (own_one store user ((Dir ^^ j) (Dir current)))" for j
        using Suc.prems(1) [of "Suc j"] by (simp add: funpow_swap1)
      moreover have "extant = (Dir ^^ k) (Dir current)"
        using Suc.prems(2) by (simp add: funpow_swap1)
      ultimately obtain x u where "own_up store user extant home (Dir current) t = Some (x, u)" "R t u"
        using Suc.IH by blast
      with one False st Inr show ?thesis
        using preorder_rel_trans [OF assms(1)] by (subst own_up.simps) fastforce
    qed
  qed
qed

lemma keeps_firstExtant:
  assumes "preorder_rel R" "\<And>p. keeps R (ss_Stat store p)"
  shows "keeps R (firstExtant store current)"
  using assms(2)
proof (induction store current rule: firstExtant.induct)
  case (1 store current)
  show ?case
    by (subst firstExtant.simps)
      (use 1 assms(1) in \<open>intro keeps_bindM keeps_if keeps_returnM; simp\<close>)
qed

text \<open>A restore returns if what it calls does, and is related to where it started if what it calls
  is.\<close>

lemma restoreParents_returns:
  assumes pre: "preorder_rel R" and "\<And>p. keeps R (ss_Stat store p)" "keeps R (js_MakeDir store (Dir d) True)"
    and "\<And>j. keeps R (js_SetOwner store ((Dir ^^ j) (Dir d)) user False)"
  shows "returns R (restoreParents store l user d)"
proof -
  have own: "keeps R (own_one store user ((Dir ^^ j) (Dir d)))" for j
    unfolding own_one_def by (intro keeps_intros pre assms)
  have climb: "returns R (own_up store user e home (Dir d))" if "firstExtantAncestor store (Dir d) s = (Inr e, s')" for e s s' home
  proof -
    from firstExtant_climbs [OF that [unfolded firstExtantAncestor_def]]
    obtain k where "e = (Dir ^^ k) (Dir (Dir d))"
      by blast
    then have "e = (Dir ^^ Suc k) (Dir d)"
      by (simp add: funpow_swap1)
    from own_up_returns [OF pre own this] show ?thesis
      by (simp add: returns_def)
  qed
  show ?thesis
    unfolding restoreParents_def Let_def
  proof (rule returns_bindP [OF pre returns_total [OF assms(2)]])
    fix st
    show "returns R (if st_exists st then total (returnM ())
        else bindP (total (firstExtantAncestor store (Dir d))) (\<lambda>extant.
             bindP (total (wrapM ''recreating'' (js_MakeDir store (Dir d) True)))
               (\<lambda>_. own_up store user extant (UserHome l user) (Dir d))))"
    proof (cases "st_exists st")
      case True
      then show ?thesis
        by (simp add: returns_total keeps_returnM [OF pre])
    next
      case False
      have "returns R (total (firstExtantAncestor store (Dir d)))"
        unfolding firstExtantAncestor_def by (intro returns_total keeps_firstExtant pre assms)
      moreover have "returns R (total (wrapM ''recreating'' (js_MakeDir store (Dir d) True)))"
        by (intro returns_total keeps_wrapM assms)
      ultimately show ?thesis
        using False climb by (auto intro!: returns_bindP [OF pre] simp: total_def)
    qed
  qed
qed

end
