(* ===== verification/JobProperties.thy ===== *)
theory JobProperties
  imports JobTraces
begin

text \<open>
  What the jobs of package \<open>internal/jobs\<close> guarantee: they read exactly what the handlers record
  and nothing else, a restore returns, and what a job moves, removes, tags and creates is what
  its task keeps locked, in the order of the request and stopping at the first failure.
\<close>

section \<open>Reading a task\<close>

lemma traverse_map: "(\<And>x. x \<in> set xs \<Longrightarrow> f (g x) = Inr x) \<Longrightarrow> traverse f (map g xs) = Inr xs"
  by (simp add: traverse_Inr)

lemma map_enumerate: "map (\<lambda>(i, x). f x) (enumerate n xs) = map f xs"
  by (induction xs arbitrary: n) auto

lemma stringsFrom_iff: "stringsFrom data key = Inr xs \<longleftrightarrow> obj_get data key = Some (JArr (map JStr xs))"
proof -
  have elem: "(case x of (i, y) \<Rightarrow> case y of JStr s \<Rightarrow> Inr s | _ \<Rightarrow> Inl (e i)) = Inr z \<longleftrightarrow> snd x = JStr z"
    for x :: "nat \<times> json" and e :: "nat \<Rightarrow> gerror" and z
    by (cases x) (auto split: json.splits)
  have "map (\<lambda>(i, x). case x of JStr s \<Rightarrow> Inr s | _ \<Rightarrow> Inl (e i)) (enumerate n ys) = map Inr xs \<longleftrightarrow> ys = map JStr xs"
    for e :: "nat \<Rightarrow> gerror" and n ys
    by (induction ys arbitrary: n xs) (auto simp: Cons_eq_map_conv split: json.splits)
  then show ?thesis
    by (auto simp: stringsFrom_def traverse_Inr split: option.splits json.splits)
qed

lemma stringFrom_iff: "stringFrom data key = Inr x \<longleftrightarrow> x \<noteq> [] \<and> obj_get data key = Some (JStr x)"
  by (auto simp: stringFrom_def split: option.splits json.splits)

lemma mapFrom_iff:
  "mapFrom data key = Inr m \<longleftrightarrow>
     (\<exists>obj. obj_get data key = Some (JObj obj) \<and> obj_entries obj = map (\<lambda>(p, q). (p, JStr q)) m)"
proof -
  have "map (\<lambda>(p, v). case v of JStr q \<Rightarrow> Inr (p, q) | _ \<Rightarrow> Inl (e p)) ys = map Inr m \<longleftrightarrow>
      ys = map (\<lambda>(p, q). (p, JStr q)) m" for e :: "string \<Rightarrow> gerror" and ys
    by (induction ys arbitrary: m) (auto simp: Cons_eq_map_conv split: json.splits)
  then show ?thesis
    by (auto simp: mapFrom_def traverse_Inr split: option.splits json.splits)
qed

lemma restorePlansFrom_iff:
  "restorePlansFrom data = Inr m \<longleftrightarrow>
     (\<exists>obj. obj_get data ''restoration-paths'' = Some (JObj obj) \<and>
        list_all2 (\<lambda>(p, v) (q, d). p = q \<and> (\<exists>f. v = JObj f \<and> obj_get f ''restored-path'' = Some (JStr d)))
          (obj_entries obj) m)"
proof -
  have "map (\<lambda>(p, v). case v of
        JObj plan \<Rightarrow> (case obj_get plan ''restored-path'' of Some (JStr r) \<Rightarrow> Inr (p, r) | _ \<Rightarrow> Inl (e p))
      | _ \<Rightarrow> Inl (e' p)) ys = map Inr m \<longleftrightarrow>
      list_all2 (\<lambda>(p, v) (q, d). p = q \<and> (\<exists>f. v = JObj f \<and> obj_get f ''restored-path'' = Some (JStr d))) ys m"
    for e e' :: "string \<Rightarrow> gerror" and ys
    by (induction ys arbitrary: m) (auto simp: Cons_eq_map_conv list_all2_Cons1 split: json.splits option.splits)
  then show ?thesis
    by (auto simp: restorePlansFrom_def traverse_Inr split: option.splits json.splits)
qed

text \<open>What a job reads is what the lock check reads of the same task.\<close>

lemma stringsFrom_locked: "stringsFrom data key = Inr xs \<Longrightarrow> stringsAt data key = xs"
  by (simp add: stringsFrom_iff)

lemma stringFrom_locked: "stringFrom data key = Inr x \<Longrightarrow> stringAt data key = x \<and> x \<noteq> []"
  by (auto simp: stringFrom_iff)

lemma in_map_filter: "x \<in> set (List.map_filter f xs) \<longleftrightarrow> (\<exists>y \<in> set xs. f y = Some x)"
  by (induction xs) (auto simp: List.map_filter_def)

lemma mapFrom_locked:
  assumes "mapFrom data key = Inr m"
  shows "set (valuesOf data key) = snd ` set m"
proof -
  obtain obj where "obj_get data key = Some (JObj obj)" "obj_entries obj = map (\<lambda>(p, q). (p, JStr q)) m"
    using assms by (auto simp: mapFrom_iff)
  then show ?thesis
    by (force simp: valuesOf_def in_map_filter)
qed

lemma restorePlansFrom_locked:
  assumes "restorePlansFrom data = Inr m" "(p, d) \<in> set m"
  shows "d \<in> set (fieldOfValues data ''restoration-paths'' ''restored-path'')"
proof -
  obtain obj where obj: "obj_get data ''restoration-paths'' = Some (JObj obj)"
    and all: "list_all2 (\<lambda>(p, v) (q, d). p = q \<and> (\<exists>f. v = JObj f \<and> obj_get f ''restored-path'' = Some (JStr d)))
        (obj_entries obj) m"
    using assms(1) by (auto simp: restorePlansFrom_iff)
  obtain i where i: "i < length m" "m ! i = (p, d)"
    using assms(2) by (auto simp: in_set_conv_nth)
  obtain q v where v: "obj_entries obj ! i = (q, v)"
    by (cases "obj_entries obj ! i")
  with list_all2_nthD2 [OF all i(1)] i(2)
  obtain f where "v = JObj f" "obj_get f ''restored-path'' = Some (JStr d)"
    by auto
  moreover have "(q, v) \<in> set (obj_entries obj)"
    using v i(1) list_all2_lengthD [OF all] by (metis nth_mem)
  ultimately show ?thesis
    using obj by (auto simp: fieldOfValues_def in_map_filter intro!: bexI [of _ "(q, v)"])
qed

section \<open>A restore\<close>

text \<open>The calls a restore of trashed paths to their planned places may make.\<close>

definition restoring :: "string list \<Rightarrow> (string \<times> string) list \<Rightarrow> call \<Rightarrow> bool" where
  "restoring trashPaths plans c \<longleftrightarrow>
     (case c of
        MoveCall p q \<Rightarrow> p \<in> set trashPaths \<and> (p, q) \<in> set plans
      | MakeCall p \<Rightarrow> \<exists>q \<in> snd ` set plans. p = Dir q
      | OwnCall p \<Rightarrow> \<exists>q \<in> snd ` set plans. \<exists>k. p = (Dir ^^ Suc k) q
      | _ \<Rightarrow> False)"

text \<open>\<open>made P\<close>: only calls that satisfy \<open>P\<close> are added to the record.\<close>

definition made :: "(call \<Rightarrow> bool) \<Rightarrow> 's recorded \<Rightarrow> 's recorded \<Rightarrow> bool" where
  "made P s s' \<longleftrightarrow> (\<exists>cs. snd s' = snd s @ cs \<and> (\<forall>c \<in> set cs. P c))"

lemma preorder_made: "preorder_rel (made P)"
proof (rule preorder_relI)
  fix s t u :: "'s recorded"
  show "made P s s"
    unfolding made_def by (intro exI [of _ "[]"]) simp
  assume "made P s t" "made P t u"
  then obtain cs ds where "snd t = snd s @ cs" "snd u = snd t @ ds" "\<forall>c \<in> set cs \<union> set ds. P c"
    unfolding made_def by blast
  then show "made P s u"
    unfolding made_def by (intro exI [of _ "cs @ ds"]) auto
qed

lemma keeps_made_through: "keeps (made P) (through m)"
proof (rule keepsI)
  fix s r s'
  assume "through m s = (r, s')"
  then show "made P s s'"
    unfolding made_def by (intro exI [of _ "[]"]) (auto simp: through_def split: prod.splits)
qed

lemma keeps_made_recorded: "P c \<Longrightarrow> keeps (made P) (recorded c m)"
proof (rule keepsI)
  fix s r s'
  assume "P c" "recorded c m s = (r, s')"
  then show "made P s s'"
    unfolding made_def by (intro exI [of _ "[c]"]) (auto simp: recorded_def split: prod.splits)
qed

lemma keeps_made_emits: "emits calls cs m \<Longrightarrow> (\<And>c. c \<in> set cs \<Longrightarrow> P c) \<Longrightarrow> keeps (lift_rel (made P)) m"
  by (rule keepsI) (fastforce simp: lift_rel_def made_def dest: emitsD set_mono_prefix)

text \<open>Any restore is total; on a traced store it makes only such calls.\<close>

lemma restore_one_returns:
  assumes pre: "preorder_rel R" and stat: "\<And>p. keeps R (ss_Stat store p)"
    and acts: "\<And>d. map_of plans (snd x) = Some d \<Longrightarrow> keeps R (js_MakeDir store (Dir d) True) \<and>
      (\<forall>j. keeps R (js_SetOwner store ((Dir ^^ j) (Dir d)) user False)) \<and>
      keeps (lift_rel R) (moveOne store deps user (snd x) d)"
  shows "returns (lift_rel R) (restore_one store deps ctx user plans x)"
proof -
  note lifted = preorder_lift_rel [OF pre]
  obtain i p where x: "x = (i, p)"
    by (cases x)
  have fail: "returns (lift_rel R) (total (failM e))" for e :: gerror
    by (intro returns_total keeps_failM lifted)
  show ?thesis
    unfolding restore_one_def x prod.case
  proof (intro returns_bindP lifted returns_total keeps_stop)
    show "returns (lift_rel R) (case map_of plans p of
         None \<Rightarrow> total (failM (Plain (''the task records no destination for '' @ quoted p)))
       | Some destination \<Rightarrow>
           if destination = [] then total (failM (Plain (''the task records no destination for '' @ quoted p)))
           else bindP (total (progress p ''begin-restore'')) (\<lambda>_.
                bindP (total (in_store (ss_Stat store destination))) (\<lambda>st.
                  if st_exists st then total (failM (Plain (quoted destination @ '' is already there, so '' @
                    quoted p @ '' cannot be restored to it'')))
                  else bindP (in_store_P (restoreParents store (jd_layout deps) user destination)) (\<lambda>_.
                    total (thenM (moveOne store deps user p destination)
                      (progress p ''end-restore''))))))"
    proof (cases "map_of plans p")
      case None
      then show ?thesis by (simp add: fail)
    next
      case (Some d)
      note acts = acts [of d, unfolded x snd_conv, OF Some]
      have parents: "returns (lift_rel R) (in_store_P (restoreParents store (jd_layout deps) user d))"
        using acts by (intro returns_in_store_P restoreParents_returns pre stat) auto
      have move: "keeps (lift_rel R) (thenM (moveOne store deps user p d) (progress p ''end-restore''))"
        using acts by (intro keeps_thenM lifted keeps_event pre) simp
      have look: "keeps (lift_rel R) (in_store (ss_Stat store d))"
        by (rule keeps_lift [OF stat])
      have "returns (lift_rel R) (bindP (total (in_store (ss_Stat store d))) (\<lambda>st.
          if st_exists st then total (failM (Plain (quoted d @ '' is already there, so '' @
            quoted p @ '' cannot be restored to it'')))
          else bindP (in_store_P (restoreParents store (jd_layout deps) user d)) (\<lambda>_.
            total (thenM (moveOne store deps user p d) (progress p ''end-restore'')))))"
        by (rule returns_bindP [OF lifted returns_total [OF look]])
          (auto intro: fail returns_bindP [OF lifted parents] returns_total [OF move])
      then show ?thesis
        using Some fail by (auto intro: returns_bindP [OF lifted returns_total [OF keeps_event [OF pre]]])
    qed
  qed
qed

lemma Restore_Run_rel:
  assumes pre: "preorder_rel R" and "\<And>u. keeps R (jd_open deps u)" "\<And>h. keeps R (jd_close deps h)"
    and stat: "\<And>h p. keeps R (ss_Stat (jd_store deps h) p)"
    and acts: "\<And>h paths plans p d. stringsFrom (task_data t) ''paths'' = Inr paths \<Longrightarrow>
      restorePlansFrom (task_data t) = Inr plans \<Longrightarrow> p \<in> set paths \<Longrightarrow> map_of plans p = Some d \<Longrightarrow>
      keeps R (js_MakeDir (jd_store deps h) (Dir d) True) \<and>
      (\<forall>j. keeps R (js_SetOwner (jd_store deps h) ((Dir ^^ j) (Dir d)) (task_user t) False)) \<and>
      keeps (lift_rel R) (moveOne (jd_store deps h) deps (task_user t) p d)"
  shows "returns (lift_rel R) (Restore_Run deps ctx t)"
proof -
  note lifted = preorder_lift_rel [OF pre]
  have read: "returns (lift_rel R) (total (ofM r))" for r :: "gerror + 'z"
    by (intro returns_total keeps_ofM lifted)
  have loop: "returns (lift_rel R) (restore_all (jd_store deps h) deps ctx (task_user t) paths plans)"
    if "stringsFrom (task_data t) ''paths'' = Inr paths" "restorePlansFrom (task_data t) = Inr plans" for h paths plans
  proof -
    have "returns (lift_rel R) (restore_one (jd_store deps h) deps ctx (task_user t) plans x)"
      if "x \<in> set (enumerate 0 paths)" for x
    proof (rule restore_one_returns [OF pre stat])
      have p: "snd x \<in> set paths"
        using that unfolding in_set_enumerate_eq by (metis add.right_neutral diff_zero nth_mem)
      fix d
      assume "map_of plans (snd x) = Some d"
      then show "keeps R (js_MakeDir (jd_store deps h) (Dir d) True) \<and>
          (\<forall>j. keeps R (js_SetOwner (jd_store deps h) ((Dir ^^ j) (Dir d)) (task_user t) False)) \<and>
          keeps (lift_rel R) (moveOne (jd_store deps h) deps (task_user t) (snd x) d)"
        by (rule acts [OF \<open>stringsFrom (task_data t) ''paths'' = Inr paths\<close>
              \<open>restorePlansFrom (task_data t) = Inr plans\<close> p])
    qed
    then have "returns (lift_rel R) (forP (restore_one (jd_store deps h) deps ctx (task_user t) plans) (enumerate 0 paths))"
      by (intro returns_forP lifted)
    then show ?thesis
      unfolding restore_all_def
      by (intro returns_bindP lifted returns_total keeps_event pre)
  qed
  have closing: "returns (lift_rel R) (\<lambda>r. map_option (\<lambda>(x, r'). (x, snd (in_store (jd_close deps h) r'))) (m r))"
    if "returns (lift_rel R) m" for m :: "('a running, unit) pop" and h
    unfolding returns_def
  proof
    fix r
    from returnsD [OF that] obtain x r' where m: "m r = Some (x, r')" "lift_rel R r r'"
      by blast
    have "lift_rel R r' (snd (in_store (jd_close deps h) r'))"
      using keeps_lift [OF assms(3)] by (simp add: keeps_def)
    with m show "\<exists>x s'. map_option (\<lambda>(x, r'). (x, snd (in_store (jd_close deps h) r'))) (m r) = Some (x, s') \<and> lift_rel R r s'"
      using preorder_rel_trans [OF lifted] by fastforce
  qed
  have opened: "returns (lift_rel R) (total (in_store (jd_open deps u)))" for u
    by (intro returns_total keeps_lift assms)
  have "returns (lift_rel R) (if task_user t = [] then total (failM e)
      else bindP (total (in_store (jd_open deps (task_user t)))) (\<lambda>h r.
         map_option (\<lambda>(x, r'). (x, snd (in_store (jd_close deps h) r')))
           (restore_all (jd_store deps h) deps ctx (task_user t) paths plans r)))"
    if "stringsFrom (task_data t) ''paths'' = Inr paths" "restorePlansFrom (task_data t) = Inr plans" for paths plans e
    by (auto intro!: returns_total keeps_failM lifted returns_bindP [OF lifted opened] closing loop that)
  then show ?thesis
    unfolding Restore_Run_def
    by (intro returns_bindP lifted read) (simp add: total_def)
qed

lemma Restore_calls:
  assumes "stringsFrom (task_data t) ''paths'' = Inr paths" "restorePlansFrom (task_data t) = Inr plans"
  shows "returns (lift_rel (made (restoring paths plans))) (Restore_Run (traced_deps d) ctx t)"
proof (rule Restore_Run_rel [OF preorder_made])
  fix h paths' plans' p q
  assume read: "stringsFrom (task_data t) ''paths'' = Inr paths'" "restorePlansFrom (task_data t) = Inr plans'"
    and p: "p \<in> set paths'" and q: "map_of plans' p = Some q"
  have pq: "p \<in> set paths" "(p, q) \<in> set plans"
    using read assms p map_of_SomeD [OF q] by auto
  have q: "q \<in> snd ` set plans"
    using pq(2) by force
  have "keeps (lift_rel (made (restoring paths plans))) (moveOne (traced (jd_store d h)) (traced_deps d) (task_user t) p q)"
    by (rule keeps_made_emits [OF emits_moveOne]) (use pq in \<open>simp add: restoring_def\<close>)
  moreover have "restoring paths plans (OwnCall ((Dir ^^ j) (Dir q)))" for j
    using q by (auto simp: restoring_def funpow_swap1 intro!: bexI [of _ q] exI [of _ j])
  moreover have "restoring paths plans (MakeCall (Dir q))"
    using q by (auto simp: restoring_def)
  ultimately show "keeps (made (restoring paths plans)) (js_MakeDir (jd_store (traced_deps d) h) (Dir q) True) \<and>
      (\<forall>j. keeps (made (restoring paths plans))
        (js_SetOwner (jd_store (traced_deps d) h) ((Dir ^^ j) (Dir q)) (task_user t) False)) \<and>
      keeps (lift_rel (made (restoring paths plans)))
        (moveOne (jd_store (traced_deps d) h) (traced_deps d) (task_user t) p q)"
    by (simp add: keeps_made_recorded)
qed (simp_all add: keeps_made_through)

section \<open>Properties\<close>

text \<open>C15.  A restore job always returns, whatever the store answers: the search for the nearest
  collection that exists ends, and the loop that gives the user what it recreated climbs to
  exactly that collection.\<close>

theorem Restore_Run_returns: "\<exists>x r'. Restore_Run deps ctx t r = Some (x, r')"
proof -
  have "keeps (\<lambda>_ _. True) m" for m :: "('a, 'b) op"
    by (simp add: keeps_def)
  moreover have "keeps (lift_rel (\<lambda>_ _. True)) m" for m :: "('a running, 'b) op"
    by (simp add: keeps_def lift_rel_def)
  moreover have "preorder_rel (\<lambda>_ _. True)"
    by (rule preorder_relI) simp_all
  ultimately have "returns (lift_rel (\<lambda>_ _. True)) (Restore_Run deps ctx t)"
    by (intro Restore_Run_rel) (simp_all add: keeps_def lift_rel_def)
  then show ?thesis
    unfolding returns_def by blast
qed

text \<open>A job takes its task literally or not at all: a list is read exactly when every entry is
  a string, a map exactly when every value is, a restoration plan exactly when every path names
  where it goes; anything else is an error.\<close>

theorem readers_strict:
  "(stringsFrom data key = Inr xs \<longleftrightarrow> obj_get data key = Some (JArr (map JStr xs)))
   \<and> (stringFrom data key = Inr x \<longleftrightarrow> x \<noteq> [] \<and> obj_get data key = Some (JStr x))
   \<and> (mapFrom data key = Inr m \<longleftrightarrow>
        (\<exists>obj. obj_get data key = Some (JObj obj) \<and> obj_entries obj = map (\<lambda>(p, q). (p, JStr q)) m))
   \<and> (restorePlansFrom data = Inr m \<longleftrightarrow>
        (\<exists>obj. obj_get data ''restoration-paths'' = Some (JObj obj) \<and>
           list_all2 (\<lambda>(p, v) (q, d). p = q \<and> (\<exists>f. v = JObj f \<and> obj_get f ''restored-path'' = Some (JStr d)))
             (obj_entries obj) m))"
  by (intro conjI stringsFrom_iff stringFrom_iff mapFrom_iff restorePlansFrom_iff)


text \<open>C14.  A delete removes outright exactly what its task gives no place in the trash and moves
  the rest there, tagging each with where it came from, in the order of the request and stopping
  at the first failure.\<close>

theorem Delete_Run_calls:
  assumes "stringsFrom (task_data t) ''paths'' = Inr paths" "mapFrom (task_data t) ''trash-paths'' = Inr trash"
    and "Delete_Run (traced_deps deps) ctx t r = (x, r')"
  shows "\<exists>cs. calls r' = calls r @ cs
    \<and> prefix cs (concat (map (\<lambda>p. case map_of trash p of None \<Rightarrow> [DeleteCall p]
        | Some q \<Rightarrow> [MoveCall p q, TagCall q]) paths))
    \<and> (x = Inr () \<longrightarrow> cs = concat (map (\<lambda>p. case map_of trash p of None \<Rightarrow> [DeleteCall p]
        | Some q \<Rightarrow> [MoveCall p q, TagCall q]) paths))"
  using emitsD [OF emits_Delete_Run [OF assms(1,2)] assms(3)] unfolding delete_calls_def by auto

text \<open>What a call is allowed to be while task \<open>t\<close> holds its paths.\<close>

definition locked_call :: "task \<Rightarrow> call \<Rightarrow> bool" where
  "locked_call t c \<longleftrightarrow>
     (case c of
        MoveCall p q \<Rightarrow> p \<in> set (pathsOf t) \<and> q \<in> set (pathsOf t)
      | DeleteCall p \<Rightarrow> p \<in> set (pathsOf t)
      | TagCall p \<Rightarrow> p \<in> set (pathsOf t)
      | MakeCall p \<Rightarrow> \<exists>q \<in> set (pathsOf t). p = Dir q
      | OwnCall p \<Rightarrow> \<exists>q \<in> set (pathsOf t). \<exists>k. p = (Dir ^^ Suc k) q)"

lemma emits_locked:
  assumes "emits calls cs job" "total job r = Some (x, r')" "\<And>c. c \<in> set cs \<Longrightarrow> locked_call t c"
  shows "\<exists>ds. calls r' = calls r @ ds \<and> (\<forall>c \<in> set ds. locked_call t c)"
proof -
  have "job r = (x, r')"
    using assms(2) by (simp add: total_def)
  from emitsD [OF assms(1) this] obtain ds where "calls r' = calls r @ ds" "prefix ds cs"
    by blast
  with assms(3) show ?thesis
    using set_mono_prefix by blast
qed

lemma reading:
  obtains (unread) e where "r = Inl e" | (read) a where "r = Inr a"
  by (cases r) auto

lemma emits_unread: "emits L [] (bindM (ofM (Inl e)) f)"
  by (simp add: emits_def bindM_def)

lemma emits_unread_next: "emits L [] (bindM (ofM r) (\<lambda>a. bindM (ofM (Inl e)) (f a)))"
  by (rule emits_bindM_quiet [OF emits_ofM emits_unread])

lemma unlocked: "emits calls [] job \<Longrightarrow> total job r = Some (x, r') \<Longrightarrow>
    \<exists>ds. calls r' = calls r @ ds \<and> (\<forall>c \<in> set ds. locked_call t c)"
  by (erule emits_locked) simp_all

lemma Move_locked:
  assumes "task_type t = TypeMove" "[] \<notin> set (stringsAt (task_data t) ''sources'')"
    "total (Move_Run (traced_deps d) ctx t) r = Some (x, r')"
  shows "\<exists>ds. calls r' = calls r @ ds \<and> (\<forall>c \<in> set ds. locked_call t c)"
proof (cases "stringsFrom (task_data t) ''sources''" rule: reading)
  case (unread e)
  then have "emits calls [] (Move_Run (traced_deps d) ctx t)"
    by (simp add: Move_Run_def emits_unread)
  from unlocked [OF this assms(3)] show ?thesis .
next
  case sources: (read sources)
  show ?thesis
  proof (cases "stringFrom (task_data t) ''destination''" rule: reading)
    case (unread e)
    then have "emits calls [] (Move_Run (traced_deps d) ctx t)"
      by (simp add: Move_Run_def emits_unread_next)
    from unlocked [OF this assms(3)] show ?thesis .
  next
    case (read q)
    have "[] \<notin> set sources"
      using assms(2) stringsFrom_locked [OF sources] by simp
    then have all: "filter (\<lambda>p. p \<noteq> []) sources = sources"
      by (auto simp: filter_id_conv)
    have q: "q \<noteq> []" "stringAt (task_data t) ''destination'' = q"
      using stringFrom_locked [OF read] by simp_all
    have "pathsOf t = sources @ DestinationsUnder q sources"
      unfolding pathsOf_def Let_def assms(1) stringsFrom_locked [OF sources] q(2) if_True simp_thms if_not_P [OF q(1)] all ..
    then have "set (pathsOf t) = set sources \<union> set (DestinationsUnder q sources)"
      by simp
    then have "locked_call t c" if "c \<in> set (move_calls sources (DestinationsUnder q sources))" for c
      using that by (auto simp: move_calls_def locked_call_def elim!: in_set_zipE)
    from emits_locked [OF emits_Move_Run [OF sources read] assms(3) this] show ?thesis .
  qed
qed

lemma Rename_locked:
  assumes "task_type t = TypeRename" "total (Rename_Run (traced_deps d) ctx t) r = Some (x, r')"
  shows "\<exists>ds. calls r' = calls r @ ds \<and> (\<forall>c \<in> set ds. locked_call t c)"
proof (cases "stringFrom (task_data t) ''source''" rule: reading)
  case (unread e)
  then have "emits calls [] (Rename_Run (traced_deps d) ctx t)"
    by (simp add: Rename_Run_def emits_unread)
  from unlocked [OF this assms(2)] show ?thesis .
next
  case source: (read p)
  show ?thesis
  proof (cases "stringFrom (task_data t) ''destination''" rule: reading)
    case (unread e)
    then have "emits calls [] (Rename_Run (traced_deps d) ctx t)"
      by (simp add: Rename_Run_def emits_unread_next)
    from unlocked [OF this assms(2)] show ?thesis .
  next
    case (read q)
    have "set (pathsOf t) = {p, q}"
      using assms(1) stringFrom_locked [OF source] stringFrom_locked [OF read] by (simp add: pathsOf_def Let_def type_defs)
    then have "locked_call t c" if "c \<in> set [MoveCall p q]" for c
      using that by (auto simp: locked_call_def)
    from emits_locked [OF emits_Rename_Run [OF source read] assms(2) this] show ?thesis .
  qed
qed

lemma Delete_locked:
  assumes "task_type t = TypeDelete" "total (Delete_Run (traced_deps d) ctx t) r = Some (x, r')"
  shows "\<exists>ds. calls r' = calls r @ ds \<and> (\<forall>c \<in> set ds. locked_call t c)"
proof (cases "stringsFrom (task_data t) ''paths''" rule: reading)
  case (unread e)
  then have "emits calls [] (Delete_Run (traced_deps d) ctx t)"
    by (simp add: Delete_Run_def emits_unread)
  from unlocked [OF this assms(2)] show ?thesis .
next
  case paths: (read paths)
  show ?thesis
  proof (cases "mapFrom (task_data t) ''trash-paths''" rule: reading)
    case (unread e)
    then have "emits calls [] (Delete_Run (traced_deps d) ctx t)"
      by (simp add: Delete_Run_def emits_unread_next)
    from unlocked [OF this assms(2)] show ?thesis .
  next
    case (read trash)
    have "set (pathsOf t) = set paths \<union> snd ` set trash"
      using assms(1) stringsFrom_locked [OF paths] mapFrom_locked [OF read] by (simp add: pathsOf_def Let_def type_defs)
    then have "locked_call t c" if "c \<in> set (delete_calls trash paths)" for c
      using that by (force simp: delete_calls_def locked_call_def split: option.splits dest: map_of_SomeD)
    from emits_locked [OF emits_Delete_Run [OF paths read] assms(2) this] show ?thesis .
  qed
qed

lemma EmptyTrash_locked:
  assumes "task_type t = TypeDeleteTrash" "total (EmptyTrash_Run (traced_deps d) ctx t) r = Some (x, r')"
  shows "\<exists>ds. calls r' = calls r @ ds \<and> (\<forall>c \<in> set ds. locked_call t c)"
proof (cases "stringsFrom (task_data t) ''trash-paths''" rule: reading)
  case (unread e)
  then have "emits calls [] (EmptyTrash_Run (traced_deps d) ctx t)"
    by (simp add: EmptyTrash_Run_def emits_unread)
  from unlocked [OF this assms(2)] show ?thesis .
next
  case (read paths)
  have "set (pathsOf t) = set paths"
    using assms(1) stringsFrom_locked [OF read] by (simp add: pathsOf_def Let_def type_defs)
  then have "locked_call t c" if "c \<in> set (map DeleteCall paths)" for c
    using that by (auto simp: locked_call_def)
  from emits_locked [OF emits_EmptyTrash_Run [OF read] assms(2) this] show ?thesis .
qed

lemma Restore_locked:
  assumes "task_type t = TypeRestore" "Restore_Run (traced_deps d) ctx t r = Some (x, r')"
  shows "\<exists>ds. calls r' = calls r @ ds \<and> (\<forall>c \<in> set ds. locked_call t c)"
proof (cases "stringsFrom (task_data t) ''paths''" rule: reading)
  case (unread e)
  with assms(2) show ?thesis
    by (auto simp: Restore_Run_def bindP_def total_def)
next
  case paths: (read paths)
  show ?thesis
  proof (cases "restorePlansFrom (task_data t)" rule: reading)
    case (unread e)
    with assms(2) paths show ?thesis
      by (auto simp: Restore_Run_def bindP_def total_def)
  next
    case (read plans)
    have "set (pathsOf t) = set paths \<union> set (fieldOfValues (task_data t) ''restoration-paths'' ''restored-path'')"
      using assms(1) stringsFrom_locked [OF paths] by (simp add: pathsOf_def Let_def type_defs)
    then have held: "set paths \<union> snd ` set plans \<subseteq> set (pathsOf t)"
      using restorePlansFrom_locked [OF read] by auto
    obtain y u where "Restore_Run (traced_deps d) ctx t r = Some (y, u)" "lift_rel (made (restoring paths plans)) r u"
      using returnsD [OF Restore_calls [OF paths read]] by blast
    with assms(2) have "lift_rel (made (restoring paths plans)) r r'"
      by simp
    then obtain cs where cs: "calls r' = calls r @ cs" "\<forall>c \<in> set cs. restoring paths plans c"
      by (auto simp: lift_rel_def made_def)
    have "locked_call t c" if "restoring paths plans c" for c
      using that held by (cases c) (force simp: restoring_def locked_call_def)+
    with cs show ?thesis by blast
  qed
qed

text \<open>C13.  Everything a job moves, removes or tags is a path its task keeps locked, and what a
  restore creates or gives to its user lies above one; a task whose data cannot be read touches
  nothing.\<close>

theorem jobs_stay_locked:
  assumes "(task_type t, job) \<in> {(TypeMove, total (Move_Run (traced_deps d) ctx t)),
      (TypeRename, total (Rename_Run (traced_deps d) ctx t)), (TypeDelete, total (Delete_Run (traced_deps d) ctx t)),
      (TypeDeleteTrash, total (EmptyTrash_Run (traced_deps d) ctx t)), (TypeRestore, Restore_Run (traced_deps d) ctx t)}"
    and "[] \<notin> set (stringsAt (task_data t) ''sources'')" and "job r = Some (x, r')"
  shows "\<exists>cs. calls r' = calls r @ cs \<and> (\<forall>c \<in> set cs. locked_call t c)"
  using assms Move_locked [of t d ctx r x r'] Rename_locked [of t d ctx r x r'] Delete_locked [of t d ctx r x r']
    EmptyTrash_locked [of t d ctx r x r'] Restore_locked [of t d ctx r x r'] by auto

section \<open>Jobs at work\<close>

text \<open>A store on which everything succeeds and nobody holds anything.\<close>

definition quiet_store :: "unit job_store" where
  "quiet_store =
     \<lparr>ps_ACL = \<lambda>_. returnM [], ps_ACLs = \<lambda>_. returnM [], ps_Inherits = \<lambda>_. returnM True,
      ps_Children = \<lambda>_. returnM [], ps_SetPermission = \<lambda>_ _ _ _. returnM (),
      ss_Stat = \<lambda>p. returnM \<lparr>st_path = p, st_type = ObjectTypeDir, st_uuid = [], st_info_type = [], st_size = 0,
        st_created = 0, st_modified = 0, st_permission = PermissionOwn, st_checksum = None, st_exists = True\<rparr>,
      ss_SetInherit = \<lambda>_ _ _. returnM (), js_AVUs = \<lambda>_. returnM [], js_SetAVU = \<lambda>_ _. returnM (),
      js_Move = \<lambda>_ _. returnM (), js_Delete = \<lambda>_ _. returnM (), js_MakeDir = \<lambda>_ _. returnM (),
      js_SetOwner = \<lambda>_ _ _. returnM (), js_Tickets = returnM [], js_DeleteTicket = \<lambda>_. returnM ()\<rparr>"

definition quiet_deps :: "unit job_deps" where
  "quiet_deps =
     \<lparr>jd_open = \<lambda>_. returnM 0, jd_close = \<lambda>_. returnM (), jd_store = \<lambda>_. quiet_store,
      jd_notifies = False, jd_publishes = False,
      jd_layout = \<lparr>Zone = ''z'', Home = ''/z/home'', CommunityData = ''/z/home/shared''\<rparr>,
      jd_admins = [], jd_proxy = ''rods''\<rparr>"

definition at_rest :: "unit recorded running" where
  "at_rest = \<lparr>rn_store = ((), []), rn_log = []\<rparr>"

definition sample_delete :: task where
  "sample_delete = \<lparr>task_id = ''t2'', task_type = TypeDelete, task_user = ''a'',
     task_data = [(''paths'', JArr [JStr ''/z/a/f'', JStr ''/z/trash/g'']),
       (''trash-paths'', JObj [(''/z/a/f'', JStr ''/z/trash/f.0'')])],
     task_ended = False, task_behaviors = [], task_statuses = []\<rparr>"


theorem Delete_Run_calls_witness:
  "calls (snd (Delete_Run (traced_deps quiet_deps) (\<lambda>_. None) sample_delete at_rest))
    = [MoveCall ''/z/a/f'' ''/z/trash/f.0'', TagCall ''/z/trash/f.0'', DeleteCall ''/z/trash/g'']"
proof -
  let ?run = "Delete_Run (traced_deps quiet_deps) (\<lambda>_. None) sample_delete at_rest"
  have "fst ?run = Inr ()"
    by code_simp
  moreover have read: "stringsFrom (task_data sample_delete) ''paths'' = Inr [''/z/a/f'', ''/z/trash/g'']"
    "mapFrom (task_data sample_delete) ''trash-paths'' = Inr [(''/z/a/f'', ''/z/trash/f.0'')]"
    by code_simp+
  ultimately show ?thesis
    using Delete_Run_calls [OF read prod.collapse [symmetric], of quiet_deps "\<lambda>_. None" at_rest]
    by (auto simp: at_rest_def)
qed

theorem jobs_stay_locked_witness:
  "\<exists>cs. calls (snd (Delete_Run (traced_deps quiet_deps) (\<lambda>_. None) sample_delete at_rest)) = cs
    \<and> (\<forall>c \<in> set cs. locked_call sample_delete c)"
proof -
  have "task_type sample_delete = TypeDelete" "stringsAt (task_data sample_delete) ''sources'' = []"
    by code_simp+
  then show ?thesis
    using jobs_stay_locked [of sample_delete "total (Delete_Run (traced_deps quiet_deps) (\<lambda>_. None) sample_delete)"
        quiet_deps "\<lambda>_. None" at_rest "fst (Delete_Run (traced_deps quiet_deps) (\<lambda>_. None) sample_delete at_rest)"
        "snd (Delete_Run (traced_deps quiet_deps) (\<lambda>_. None) sample_delete at_rest)"]
    by (simp add: total_def at_rest_def)
qed

end
