(* ===== verification/Worker.thy ===== *)
theory Worker
  imports AsyncTasks
begin

text \<open>
  Package \<open>internal/worker\<close>: the runner that sees every task it starts to a terminal status.
  One task's run is a state machine: the goroutine of the job, the goroutines a job may report
  from, the goroutine that posts its progress, and the runner waiting for them interleave in any
  order.  A post is one step here; \<open>post\<close> is that step's retries.  Time is a choice: a timer that
  may fire is a step that may be taken.
\<close>

section \<open>Posting a status\<close>

definition progressRetries :: nat where "progressRetries = 3"
definition terminalRetries :: nat where "terminalRetries = 100"
definition progressBuffer :: nat where "progressBuffer = 64"

text \<open>\<open>Tasks\<close>: the calls on the async-tasks service.\<close>

record 's tasks_service =
  GetByID :: "string \<Rightarrow> ('s, task) op"
  AddStatus :: "string \<Rightarrow> status_update \<Rightarrow> ('s, unit) op"
  AddCompletedStatus :: "string \<Rightarrow> status_update \<Rightarrow> ('s, unit) op"

datatype posted = Recorded | Abandoned | GaveUp

text \<open>The loop over the attempts, from attempt \<open>n\<close> with \<open>left\<close> to go; \<open>finished n\<close> says that the
  context was done when the pause before attempt \<open>n\<close> was to begin.\<close>

primrec post_loop ::
    "(nat \<Rightarrow> bool) \<Rightarrow> bool \<Rightarrow> ('s, unit) op \<Rightarrow> nat \<Rightarrow> nat \<Rightarrow> 's \<Rightarrow> posted \<times> 's" where
  "post_loop finished terminal call n 0 s = (GaveUp, s)"
| "post_loop finished terminal call n (Suc left) s =
     (if n > 0 \<and> finished n then (if terminal then GaveUp else Abandoned, s)
      else case call s of
        (Inr _, s') \<Rightarrow> (Recorded, s')
      | (Inl err, s') \<Rightarrow> post_loop finished terminal call (Suc n) left s')"

definition post ::
    "'s tasks_service \<Rightarrow> (nat \<Rightarrow> bool) \<Rightarrow> string \<Rightarrow> status_update \<Rightarrow> bool \<Rightarrow> nat \<Rightarrow> 's \<Rightarrow> posted \<times> 's" where
  "post svc finished taskID status terminal attempts s =
     post_loop finished terminal
       ((if terminal then AddCompletedStatus svc else AddStatus svc) taskID status) 0 attempts s"

section \<open>Statuses\<close>

text \<open>What a job's \<open>Run\<close> may do, and \<open>runJob\<close>, which turns a panic into an error.\<close>

datatype job_outcome = Returned "gerror + unit" | PanickedWith string

definition runJob :: "job_outcome \<Rightarrow> gerror + unit" where
  "runJob x = (case x of Returned r \<Rightarrow> r | PanickedWith v \<Rightarrow> Inl (Panicked v))"

definition in_brackets :: "string \<Rightarrow> string" where
  "in_brackets instance_name = ''['' @ instance_name @ '']''"

definition fetch_failed :: "(gerror \<Rightarrow> string) \<Rightarrow> string \<Rightarrow> gerror \<Rightarrow> status_update" where
  "fetch_failed render instance_name err =
     \<lparr>status_name = StatusFailed,
      status_detail = in_brackets instance_name @ '' could not read the task: '' @ render err\<rparr>"

definition started_status :: status_update where
  "started_status = \<lparr>status_name = StatusStarted, status_detail = []\<rparr>"

definition running_status :: "string \<Rightarrow> string \<Rightarrow> string \<Rightarrow> status_update" where
  "running_status instance_name path action =
     \<lparr>status_name = StatusRunning,
      status_detail = in_brackets instance_name @ '' '' @ path @ '': '' @ action\<rparr>"

definition heartbeat_status :: "string \<Rightarrow> string \<Rightarrow> status_update" where
  "heartbeat_status instance_name lastDetail =
     \<lparr>status_name = StatusRunning,
      status_detail = in_brackets instance_name @ '' still working; last reported '' @ lastDetail\<rparr>"

definition terminal_status :: "(gerror \<Rightarrow> string) \<Rightarrow> string \<Rightarrow> bool \<Rightarrow> gerror + unit \<Rightarrow> status_update" where
  "terminal_status render instance_name shut_down runErr =
     (case runErr of
        Inl err \<Rightarrow>
          \<lparr>status_name = StatusFailed,
           status_detail = in_brackets instance_name @
             (if shut_down then '' interrupted by shutdown; iRODS may have finished part of the work: '' else '' '') @
             render err\<rparr>
      | Inr _ \<Rightarrow> \<lparr>status_name = StatusCompleted, status_detail = in_brackets instance_name\<rparr>)"

section \<open>One task's run\<close>

datatype run_phase = Fetching | Working | Flushing | Ending | Finished

text \<open>The goroutine of \<open>send\<close>: waiting in its select, posting a progress status or a heartbeat, or
  gone.\<close>

datatype sender = Waiting | Posting status_update | Beating status_update | Gone

datatype post_kind = StartPost | ProgressPost | HeartbeatPost | TerminalPost

record run_state =
  rs_phase :: run_phase
  rs_shutdown :: bool              \<comment> \<open>the runner's context is cancelled\<close>
  rs_queue :: "status_update list" \<comment> \<open>the channel \<open>updates\<close>\<close>
  rs_closed :: bool
  rs_stopped :: bool
  rs_sender :: sender
  rs_last :: string                \<comment> \<open>\<open>lastDetail\<close>\<close>
  rs_result :: "gerror + unit"     \<comment> \<open>\<open>runErr\<close>, once the job has returned\<close>
  rs_reported :: "status_update list" \<comment> \<open>what the job asked to report while it could\<close>
  rs_posts :: "(post_kind \<times> status_update) list" \<comment> \<open>what was posted so far\<close>
  rs_notified :: bool

definition run_start :: run_state where
  "run_start =
     \<lparr>rs_phase = Fetching, rs_shutdown = False, rs_queue = [], rs_closed = False, rs_stopped = False,
      rs_sender = Gone, rs_last = ''starting'', rs_result = Inr (), rs_reported = [], rs_posts = [],
      rs_notified = False\<rparr>"

definition posting :: "post_kind \<Rightarrow> status_update \<Rightarrow> run_state \<Rightarrow> run_state" where
  "posting kind st s = s\<lparr>rs_posts := rs_posts s @ [(kind, st)]\<rparr>"

text \<open>\<open>Progress\<close>: nothing once closed, dropped when the buffer is full.\<close>

definition report :: "status_update \<Rightarrow> run_state \<Rightarrow> run_state" where
  "report st s =
     (if rs_closed s then s
      else (if length (rs_queue s) < progressBuffer then s\<lparr>rs_queue := rs_queue s @ [st]\<rparr> else s)
        \<lparr>rs_reported := rs_reported s @ [st]\<rparr>)"

text \<open>\<open>strings.TrimPrefix(status.Detail, "[instance] ")\<close>.\<close>

definition detail_of :: "string \<Rightarrow> status_update \<Rightarrow> string" where
  "detail_of instance_name st = trim_prefix (status_detail st) (in_brackets instance_name @ '' '')"

text \<open>The loop of \<open>send\<close>: a queued status is taken and posted, or dropped once flushing was given up;
  with nothing to post and the job still going, a heartbeat may be due; a closed and empty queue
  ends it.\<close>

inductive send_step :: "string \<Rightarrow> run_state \<Rightarrow> run_state \<Rightarrow> bool"
  for instance_name :: string where
  takes:
    "rs_sender s = Waiting \<Longrightarrow> rs_queue s = st # rest \<Longrightarrow>
     send_step instance_name s
       (s\<lparr>rs_queue := rest, rs_sender := if rs_stopped s then Waiting else Posting st\<rparr>)"
| posts:
    "rs_sender s = Posting st \<Longrightarrow>
     send_step instance_name s
       (posting ProgressPost st (s\<lparr>rs_sender := Waiting, rs_last := detail_of instance_name st\<rparr>))"
| beats:
    "rs_sender s = Waiting \<Longrightarrow> \<not> rs_closed s \<Longrightarrow>
     send_step instance_name s
       (s\<lparr>rs_sender := Beating (heartbeat_status instance_name (rs_last s))\<rparr>)"
| beaten:
    "rs_sender s = Beating st \<Longrightarrow>
     send_step instance_name s (posting HeartbeatPost st (s\<lparr>rs_sender := Waiting\<rparr>))"
| ends:
    "rs_sender s = Waiting \<Longrightarrow> rs_closed s \<Longrightarrow> rs_queue s = [] \<Longrightarrow>
     send_step instance_name s (s\<lparr>rs_sender := Gone\<rparr>)"

text \<open>The wait of \<open>stop\<close> for the sender, which its deadline only turns to dropping.\<close>

inductive stop_step :: "run_state \<Rightarrow> run_state \<Rightarrow> bool" where
  gives_up_flushing:
    "rs_phase s = Flushing \<Longrightarrow> \<not> rs_stopped s \<Longrightarrow> stop_step s (s\<lparr>rs_stopped := True\<rparr>)"
| flushed:
    "rs_phase s = Flushing \<Longrightarrow> rs_sender s = Gone \<Longrightarrow> stop_step s (s\<lparr>rs_phase := Ending\<rparr>)"

text \<open>\<open>run\<close>, with a job that reports as it likes, also from goroutines that outlive it.\<close>

inductive run_step :: "(gerror \<Rightarrow> string) \<Rightarrow> string \<Rightarrow> run_state \<Rightarrow> run_state \<Rightarrow> bool"
  for render :: "gerror \<Rightarrow> string" and instance_name :: string where
  fetch_error:
    "rs_phase s = Fetching \<Longrightarrow>
     run_step render instance_name s
       (posting TerminalPost (fetch_failed render instance_name err) (s\<lparr>rs_phase := Finished\<rparr>))"
| fetched:
    "rs_phase s = Fetching \<Longrightarrow>
     run_step render instance_name s
       (posting StartPost started_status (s\<lparr>rs_phase := Working, rs_sender := Waiting\<rparr>))"
| reports:
    "rs_phase s = Working \<or> rs_closed s \<Longrightarrow>
     run_step render instance_name s (report (running_status instance_name path action) s)"
| shuts_down:
    "run_step render instance_name s (s\<lparr>rs_shutdown := True\<rparr>)"
| sends:
    "send_step instance_name s s' \<Longrightarrow> run_step render instance_name s s'"
| job_returns:
    "rs_phase s = Working \<Longrightarrow>
     run_step render instance_name s
       (s\<lparr>rs_phase := Flushing, rs_result := runJob out, rs_closed := True\<rparr>)"
| stops:
    "stop_step s s' \<Longrightarrow> run_step render instance_name s s'"
| finishes:
    "rs_phase s = Ending \<Longrightarrow>
     run_step render instance_name s
       (posting TerminalPost (terminal_status render instance_name (rs_shutdown s) (rs_result s))
         (s\<lparr>rs_phase := Finished, rs_notified := True\<rparr>))"

abbreviation run_steps :: "(gerror \<Rightarrow> string) \<Rightarrow> string \<Rightarrow> run_state \<Rightarrow> run_state \<Rightarrow> bool" where
  "run_steps render instance_name \<equiv> (run_step render instance_name)\<^sup>*\<^sup>*"

section \<open>The runner\<close>

record runner =
  ru_stopping :: bool
  ru_cancelled :: bool
  ru_running :: "string list"

definition Start :: "string \<Rightarrow> string \<Rightarrow> (runner, unit) op" where
  "Start taskID name = (\<lambda>r.
     if ru_stopping r then (Inl (Plain (''worker: refusing to start '' @ name @ '': this instance is shutting down'')), r)
     else (Inr (), r\<lparr>ru_running := taskID # ru_running r\<rparr>))"

text \<open>\<open>Shutdown\<close> stops and cancels, then waits; \<open>all_done\<close> is the count of running jobs reaching
  zero before its deadline.\<close>

definition Shutdown :: "bool \<Rightarrow> (runner, unit) op" where
  "Shutdown all_done = (\<lambda>r.
     let r' = r\<lparr>ru_stopping := True, ru_cancelled := True\<rparr> in
     if all_done then (Inr (), r'\<lparr>ru_running := []\<rparr>)
     else (Inl (Wrap ''worker: jobs were still running at shutdown'' DeadlineExceeded), r'))"

section \<open>Facts\<close>

text \<open>What a sender step and a stop step leave alone.\<close>

lemma send_step_frame:
  "send_step instance_name s s' \<Longrightarrow> rs_phase s' = rs_phase s \<and> rs_sender s \<noteq> Gone"
  by (induction rule: send_step.induct) (auto simp: posting_def)

lemma stop_step_frame:
  "stop_step s s' \<Longrightarrow> rs_posts s' = rs_posts s \<and> rs_phase s = Flushing \<and> rs_phase s' \<in> {Flushing, Ending}"
  by (induction rule: stop_step.induct) auto

definition run_ok :: "run_state \<Rightarrow> bool" where
  "run_ok s \<longleftrightarrow>
     (rs_phase s \<in> {Fetching, Ending, Finished} \<longrightarrow> rs_sender s = Gone) \<and>
     (rs_phase s \<in> {Fetching, Working} \<longrightarrow> \<not> rs_closed s) \<and>
     (rs_phase s \<in> {Flushing, Ending} \<longrightarrow> rs_closed s) \<and>
     length (rs_queue s) \<le> progressBuffer \<and>
     (rs_phase s \<noteq> Finished \<longrightarrow> TerminalPost \<notin> fst ` set (rs_posts s)) \<and>
     (rs_phase s = Finished \<longrightarrow> (\<exists>ps st. rs_posts s = ps @ [(TerminalPost, st)] \<and> TerminalPost \<notin> fst ` set ps))"

lemma run_ok_start: "run_ok run_start"
  by (simp add: run_ok_def run_start_def)

lemma run_ok_send: "send_step instance_name s s' \<Longrightarrow> run_ok s \<Longrightarrow> run_ok s'"
  by (induction rule: send_step.induct) (auto simp: run_ok_def posting_def)

lemma run_ok_stop: "stop_step s s' \<Longrightarrow> run_ok s \<Longrightarrow> run_ok s'"
  by (induction rule: stop_step.induct) (auto simp: run_ok_def)

lemma run_ok_step: "run_step render instance_name s s' \<Longrightarrow> run_ok s \<Longrightarrow> run_ok s'"
  by (induction rule: run_step.induct)
    (auto simp: run_ok_send run_ok_stop, auto simp: run_ok_def posting_def report_def)

lemma run_ok_reachable: "run_steps render instance_name run_start s \<Longrightarrow> run_ok s"
  by (induction rule: rtranclp_induct) (auto intro: run_ok_start run_ok_step)

text \<open>What is still to be posted of the job's reports, in order.\<close>

definition in_flight :: "run_state \<Rightarrow> status_update list" where
  "in_flight s = (case rs_sender s of Posting st \<Rightarrow> [st] | _ \<Rightarrow> [])"

definition progress_posts :: "run_state \<Rightarrow> status_update list" where
  "progress_posts s = map snd (filter (\<lambda>p. fst p = ProgressPost) (rs_posts s))"

definition in_order :: "run_state \<Rightarrow> bool" where
  "in_order s \<longleftrightarrow> subseq (progress_posts s @ in_flight s @ rs_queue s) (rs_reported s)"

lemma subseq_drop_mid: "subseq (xs @ y # zs) ws \<Longrightarrow> subseq (xs @ zs) ws"
  by (rule subseq_order.order_trans [of _ "xs @ y # zs"]) (auto intro: list_emb_append_mono)

lemma in_order_report: "in_order s \<Longrightarrow> in_order (report st s)"
proof -
  assume "in_order s"
  then have base: "subseq (progress_posts s @ in_flight s @ rs_queue s) (rs_reported s)"
    by (simp add: in_order_def)
  then have "subseq ((progress_posts s @ in_flight s @ rs_queue s) @ [st]) (rs_reported s @ [st])"
    by (rule list_emb_append_mono) simp
  then have "subseq (progress_posts s @ in_flight s @ rs_queue s @ [st]) (rs_reported s @ [st])"
    by (simp only: append_assoc)
  note full = this [unfolded progress_posts_def in_flight_def]
  have more: "subseq (progress_posts s @ in_flight s @ rs_queue s) (rs_reported s @ [st])"
    using base by (rule subseq_order.order_trans) (rule prefix_imp_subseq, simp)
  show ?thesis
    using base more by (simp add: in_order_def report_def progress_posts_def in_flight_def full)
qed

lemma in_order_send: "send_step instance_name s s' \<Longrightarrow> in_order s \<Longrightarrow> in_order s'"
  by (induction rule: send_step.induct)
    (auto simp: in_order_def progress_posts_def in_flight_def posting_def dest: subseq_drop_mid)

lemma in_order_stop: "stop_step s s' \<Longrightarrow> in_order s \<Longrightarrow> in_order s'"
  by (induction rule: stop_step.induct) (auto simp: in_order_def progress_posts_def in_flight_def)

lemma in_order_step:
  "run_step render instance_name s s' \<Longrightarrow> run_ok s \<Longrightarrow> in_order s \<Longrightarrow> in_order s'"
  by (induction rule: run_step.induct)
    (auto simp: in_order_report in_order_send in_order_stop,
      auto simp: in_order_def run_ok_def posting_def progress_posts_def in_flight_def)

lemma in_order_reachable: "run_steps render instance_name run_start s \<Longrightarrow> in_order s"
proof (induction rule: rtranclp_induct)
  case base
  show ?case by (simp add: in_order_def run_start_def progress_posts_def in_flight_def)
next
  case (step s s')
  then show ?case
    using in_order_step run_ok_reachable by blast
qed

text \<open>How far a run is from its end once the job has returned.\<close>

definition drain :: "run_state \<Rightarrow> nat" where
  "drain s =
     (case rs_phase s of
        Flushing \<Rightarrow> 2 * length (rs_queue s) + (case rs_sender s of Gone \<Rightarrow> 0 | Waiting \<Rightarrow> 1 | _ \<Rightarrow> 2)
          + (if rs_stopped s then 0 else 1) + 2
      | Ending \<Rightarrow> 1
      | _ \<Rightarrow> 0)"

lemma drain_send:
  "send_step instance_name s s' \<Longrightarrow> run_ok s \<Longrightarrow> rs_phase s \<in> {Flushing, Ending} \<Longrightarrow> drain s' < drain s"
  by (induction rule: send_step.induct) (auto simp: run_ok_def drain_def posting_def)

lemma drain_stop: "stop_step s s' \<Longrightarrow> drain s' < drain s"
  by (induction rule: stop_step.induct) (auto simp: drain_def)

lemma drain_step:
  "run_step render instance_name s s' \<Longrightarrow> run_ok s \<Longrightarrow> rs_phase s \<in> {Flushing, Ending} \<Longrightarrow>
   s' = s\<lparr>rs_shutdown := rs_shutdown s'\<rparr> \<or> drain s' < drain s"
  by (induction rule: run_step.induct)
    (auto simp: drain_send drain_stop, auto simp: run_ok_def report_def drain_def posting_def)

lemma drain_progress:
  assumes "run_ok s" "rs_phase s \<in> {Flushing, Ending}"
  shows "\<exists>s'. run_step render instance_name s s' \<and> drain s' < drain s"
proof (cases "rs_phase s = Ending")
  case True
  from finishes [OF this, of render instance_name] show ?thesis
    by (intro exI conjI) (auto simp: drain_def posting_def True)
next
  case False
  then have phase: "rs_phase s = Flushing" and closed: "rs_closed s"
    using assms by (auto simp: run_ok_def)
  show ?thesis
  proof (cases "rs_sender s")
    case Waiting
    show ?thesis
    proof (cases "rs_queue s")
      case Nil
      from sends [OF ends [OF Waiting closed Nil], of render instance_name] show ?thesis
        by (intro exI conjI) (auto simp: drain_def phase Waiting)
    next
      case (Cons st rest)
      from sends [OF takes [OF Waiting Cons], of render instance_name] show ?thesis
        by (intro exI conjI) (auto simp: drain_def phase Waiting Cons)
    qed
  next
    case (Posting st)
    from sends [OF posts [OF this], of render instance_name] show ?thesis
      by (intro exI conjI) (auto simp: drain_def phase Posting posting_def)
  next
    case (Beating st)
    from sends [OF beaten [OF this], of render instance_name] show ?thesis
      by (intro exI conjI) (auto simp: drain_def phase Beating posting_def)
  next
    case Gone
    from stops [OF flushed [OF phase Gone], of render instance_name] show ?thesis
      by (intro exI conjI) (auto simp: drain_def phase Gone)
  qed
qed

section \<open>Properties\<close>

text \<open>C1.  In every interleaving a task gets at most one terminal status; nothing is posted after
  it, and a run that has finished has posted it.\<close>

theorem one_terminal_status_last:
  assumes "run_steps render instance_name run_start s"
  shows "(\<forall>i < length (rs_posts s). fst (rs_posts s ! i) = TerminalPost \<longrightarrow>
           rs_phase s = Finished \<and> Suc i = length (rs_posts s))
    \<and> (rs_phase s = Finished \<longrightarrow> rs_posts s \<noteq> [] \<and> fst (last (rs_posts s)) = TerminalPost)
    \<and> (rs_phase s = Finished \<longrightarrow> (\<forall>s'. run_step render instance_name s s' \<longrightarrow> rs_posts s' = rs_posts s))"
proof -
  have ok: "run_ok s"
    using assms by (rule run_ok_reachable)
  have "rs_phase s = Finished \<and> Suc i = length (rs_posts s)"
    if i: "i < length (rs_posts s)" "fst (rs_posts s ! i) = TerminalPost" for i
  proof -
    have "TerminalPost \<in> fst ` set (rs_posts s)"
      using i by (metis image_eqI nth_mem)
    with ok have fin: "rs_phase s = Finished"
      by (auto simp: run_ok_def)
    with ok obtain ps st where ps: "rs_posts s = ps @ [(TerminalPost, st)]" "TerminalPost \<notin> fst ` set ps"
      by (auto simp: run_ok_def)
    have "\<not> i < length ps"
      using i(2) ps by (metis image_eqI nth_append nth_mem)
    with i(1) ps fin show ?thesis by simp
  qed
  moreover have "rs_posts s \<noteq> [] \<and> fst (last (rs_posts s)) = TerminalPost" if "rs_phase s = Finished"
    using ok that by (auto simp: run_ok_def)
  moreover have "rs_posts s' = rs_posts s" if "rs_phase s = Finished" "run_step render instance_name s s'" for s'
    using that(2,1) ok by (induction rule: run_step.induct)
      (auto simp: run_ok_def report_def dest!: send_step_frame stop_step_frame)
  ultimately show ?thesis by blast
qed


text \<open>C38.  Progress is posted in the order it was reported, none of it invented or repeated, and
  never more than 64 reports wait.\<close>

theorem progress_in_order:
  assumes "run_steps render instance_name run_start s"
  shows "subseq (progress_posts s @ in_flight s @ rs_queue s) (rs_reported s) \<and> length (rs_queue s) \<le> 64"
  using in_order_reachable [OF assms] run_ok_reachable [OF assms]
  by (auto simp: in_order_def run_ok_def progressBuffer_def)

text \<open>The state before call \<open>j\<close> of a sequence of calls, and whether that call is refused.\<close>

definition before_call :: "('s, unit) op \<Rightarrow> 's \<Rightarrow> nat \<Rightarrow> 's" where
  "before_call call s j = ((\<lambda>t. snd (call t)) ^^ j) s"

definition refused :: "('s, unit) op \<Rightarrow> 's \<Rightarrow> nat \<Rightarrow> bool" where
  "refused call s j \<longleftrightarrow> isl (fst (call (before_call call s j)))"

lemma before_call_Suc: "call s = (q, t) \<Longrightarrow> before_call call s (Suc j) = before_call call t j"
  unfolding before_call_def funpow_Suc_right o_apply by simp

lemma refused_Suc: "call s = (q, t) \<Longrightarrow> refused call s (Suc j) = refused call t j"
  unfolding refused_def by (simp add: before_call_Suc)

lemma post_loop_tries:
  "post_loop finished terminal call n left s = (outcome, s') \<Longrightarrow>
   \<exists>k \<le> left. s' = before_call call s k
     \<and> (outcome = Recorded \<longrightarrow> (\<exists>j. k = Suc j \<and> \<not> refused call s j \<and> (\<forall>i < j. refused call s i)))
     \<and> (outcome \<noteq> Recorded \<longrightarrow> (\<forall>i < k. refused call s i) \<and> (k = left \<or> 0 < n + k \<and> finished (n + k)))"
proof (induction left arbitrary: n s)
  case 0
  then show ?case by (auto simp: before_call_def)
next
  case (Suc left)
  show ?case
  proof (cases "n > 0 \<and> finished n")
    case True
    with Suc.prems show ?thesis
      by (intro exI [of _ 0]) (auto simp: before_call_def split: if_splits)
  next
    case go: False
    obtain q t where t: "call s = (q, t)"
      by (cases "call s")
    show ?thesis
    proof (cases q)
      case (Inr a)
      with Suc.prems go t show ?thesis
        by (intro exI [of _ 1]) (auto simp: before_call_def refused_def)
    next
      case (Inl e)
      with Suc.prems go t have "post_loop finished terminal call (Suc n) left t = (outcome, s')"
        by simp
      from Suc.IH [OF this] obtain k where k: "k \<le> left" "s' = before_call call t k"
        and recorded: "outcome = Recorded \<longrightarrow> (\<exists>j. k = Suc j \<and> \<not> refused call t j \<and> (\<forall>i < j. refused call t i))"
        and failed: "outcome \<noteq> Recorded \<longrightarrow> (\<forall>i < k. refused call t i) \<and> (k = left \<or> 0 < Suc n + k \<and> finished (Suc n + k))"
        by blast
      have first: "refused call s 0"
        using t Inl by (simp add: refused_def before_call_def)
      have all: "\<forall>i < Suc j. refused call s i" if "\<forall>i < j. refused call t i" for j
        using that first refused_Suc [of call, OF t] by (metis less_Suc_eq_0_disj)
      have "\<exists>j. Suc k = Suc j \<and> \<not> refused call s j \<and> (\<forall>i < j. refused call s i)" if "outcome = Recorded"
        using recorded that all refused_Suc [of call, OF t] by blast
      moreover have "(\<forall>i < Suc k. refused call s i) \<and> (Suc k = Suc left \<or> 0 < n + Suc k \<and> finished (n + Suc k))"
        if "outcome \<noteq> Recorded"
        using failed that all by auto
      ultimately show ?thesis
        using k before_call_Suc [of call, OF t, of k] by (intro exI [of _ "Suc k"]) auto
    qed
  qed
qed

text \<open>A post makes at most its number of attempts, one after another, and stops at the first
  that is accepted; it gives up only after every one it made was refused, and before the last
  only because its context was done.\<close>

theorem post_retries:
  assumes "post svc finished taskID status terminal attempts s = (outcome, s')"
  defines "call \<equiv> (if terminal then AddCompletedStatus svc else AddStatus svc) taskID status"
  shows "\<exists>k \<le> attempts. s' = before_call call s k
    \<and> (outcome = Recorded \<longrightarrow> (\<exists>j. k = Suc j \<and> \<not> refused call s j \<and> (\<forall>i < j. refused call s i)))
    \<and> (outcome \<noteq> Recorded \<longrightarrow> (\<forall>i < k. refused call s i) \<and> (k = attempts \<or> 0 < k \<and> finished k))"
  using post_loop_tries [of finished terminal call 0 attempts s outcome s'] assms by (simp add: post_def)

section \<open>Runs\<close>

definition no_text :: "gerror \<Rightarrow> string" where
  "no_text err = ''error''"

text \<open>A run whose task could not be read, and one whose job reported once and then panicked.\<close>

definition unread_run :: run_state where
  "unread_run = posting TerminalPost (fetch_failed no_text ''pod'' Canceled) (run_start\<lparr>rs_phase := Finished\<rparr>)"

definition working_run :: run_state where
  "working_run = posting StartPost started_status (run_start\<lparr>rs_phase := Working, rs_sender := Waiting\<rparr>)"

definition reported_run :: run_state where
  "reported_run = report (running_status ''pod'' ''/z/a'' ''begin'') working_run"

definition panicked_run :: run_state where
  "panicked_run = reported_run\<lparr>rs_phase := Flushing, rs_result := runJob (PanickedWith ''boom''), rs_closed := True\<rparr>"

lemma unread_runs: "run_steps no_text ''pod'' run_start unread_run"
  unfolding unread_run_def by (intro r_into_rtranclp fetch_error) (simp add: run_start_def)

lemma reported_runs: "run_steps no_text ''pod'' run_start reported_run"
proof (rule rtranclp.rtrancl_into_rtrancl)
  show "run_steps no_text ''pod'' run_start working_run"
    unfolding working_run_def by (intro r_into_rtranclp fetched) (simp add: run_start_def)
  show "run_step no_text ''pod'' working_run reported_run"
    unfolding reported_run_def by (rule reports) (simp add: working_run_def posting_def)
qed

lemma panicked_runs: "run_steps no_text ''pod'' run_start panicked_run"
proof (rule rtranclp.rtrancl_into_rtrancl [OF reported_runs])
  show "run_step no_text ''pod'' reported_run panicked_run"
    unfolding panicked_run_def
    by (rule job_returns) (simp add: reported_run_def working_run_def posting_def report_def run_start_def)
qed

theorem one_terminal_status_last_witness:
  "fst (last (rs_posts unread_run)) = TerminalPost"
  using one_terminal_status_last [OF unread_runs] by (simp add: unread_run_def posting_def)


theorem progress_in_order_witness:
  "subseq (rs_queue panicked_run) [running_status ''pod'' ''/z/a'' ''begin'']"
  using progress_in_order [OF panicked_runs]
  by (simp add: panicked_run_def reported_run_def working_run_def posting_def report_def run_start_def
      progress_posts_def in_flight_def)

text \<open>A service that refuses its first call.\<close>

definition second_time :: "nat tasks_service" where
  "second_time =
     \<lparr>GetByID = \<lambda>_. failM Canceled, AddStatus = \<lambda>_ _. failM Canceled,
      AddCompletedStatus = \<lambda>_ _ n. (if n = 0 then Inl Canceled else Inr (), Suc n)\<rparr>"

theorem post_retries_witness:
  "post second_time (\<lambda>_. False) ''t1'' started_status True terminalRetries 0 = (Recorded, 2)
   \<and> (\<exists>k \<le> terminalRetries. (2 :: nat) = before_call (AddCompletedStatus second_time ''t1'' started_status) 0 k)"
proof -
  have run: "post second_time (\<lambda>_. False) ''t1'' started_status True terminalRetries 0 = (Recorded, 2)"
    by (simp add: post_def second_time_def terminalRetries_def numeral_eq_Suc)
  with post_retries [OF run] show ?thesis
    by auto
qed

end
