(* ===== verification/Pool.thy ===== *)
theory Pool
  imports IrodsClient
begin

text \<open>
  \<open>internal/irodsclient\<close>'s pool: sessions by user in \<open>pool.go\<close> and \<open>evict.go\<close>, room for
  connections in \<open>capacity.go\<close>.  Entries live in a heap, as the code shares them by pointer; the
  list is the LRU order, most recent first.  What the pool's mutex makes atomic is one function
  here, and \<open>pool_step\<close> interleaves them: callers opening, leasing and closing, the sweeper, the
  goroutines that tear a file system down, and the closing of the pool.  Instants are numbers and
  how many connections a file system has open is an argument.
\<close>

section \<open>State\<close>

record conn_usage =
  us_metadata :: int
  us_transfer :: int

datatype conn_kind = MetadataConn | TransferConn

record pool_config =
  MaxSessions :: nat
  MaxTotalConnections :: int
  IdleTimeout :: int
  cfg_ProxyUser :: string

text \<open>\<open>entry\<close>; \<open>en_fs\<close> says that it still has its file system.\<close>

record pool_entry =
  en_user :: string
  en_fs :: bool
  en_lastUsed :: int
  en_inUse :: int
  en_leased :: conn_usage
  en_dead :: bool

record pool =
  po_entries :: "string \<Rightarrow> nat option"
  po_lru :: "nat list"
  po_closed :: bool
  po_tracked :: "nat list"
  po_heap :: "nat \<Rightarrow> pool_entry"
  po_next :: nat
  po_tearing :: "nat list"   \<comment> \<open>entries whose file system a goroutine is releasing\<close>

definition adminKey :: string where "adminKey = []"

definition no_usage :: conn_usage where
  "no_usage = \<lparr>us_metadata = 0, us_transfer = 0\<rparr>"

definition NewPool :: pool where
  "NewPool =
     \<lparr>po_entries = (\<lambda>_. None), po_lru = [], po_closed = False, po_tracked = [],
      po_heap = (\<lambda>_. \<lparr>en_user = [], en_fs = False, en_lastUsed = 0, en_inUse = 0, en_leased = no_usage,
        en_dead = True\<rparr>),
      po_next = 0, po_tearing = []\<rparr>"

definition upd_entry :: "nat \<Rightarrow> (pool_entry \<Rightarrow> pool_entry) \<Rightarrow> pool \<Rightarrow> pool" where
  "upd_entry e f p = p\<lparr>po_heap := (po_heap p)(e := f (po_heap p e))\<rparr>"

section \<open>evict.go\<close>

definition releaseFSLocked :: "nat \<Rightarrow> pool \<Rightarrow> pool" where
  "releaseFSLocked e p =
     (if \<not> en_fs (po_heap p e) then p
      else (upd_entry e (\<lambda>x. x\<lparr>en_fs := False\<rparr>) p)\<lparr>po_tearing := e # po_tearing p\<rparr>)"

text \<open>The end of the goroutine of \<open>releaseFSLocked\<close>.\<close>

definition torn_down :: "nat \<Rightarrow> pool \<Rightarrow> pool" where
  "torn_down e p = p\<lparr>po_tracked := remove1 e (po_tracked p), po_tearing := remove1 e (po_tearing p)\<rparr>"

definition unlinkLocked :: "nat \<Rightarrow> pool \<Rightarrow> pool" where
  "unlinkLocked e p =
     (let p1 = (upd_entry e (\<lambda>x. x\<lparr>en_dead := True\<rparr>) p)
                 \<lparr>po_lru := remove1 e (po_lru p),
                  po_entries := (po_entries p)(en_user (po_heap p e) := None)\<rparr>
      in if en_inUse (po_heap p e) = 0 then releaseFSLocked e p1 else p1)"

definition evict_one :: "pool_config \<Rightarrow> int \<Rightarrow> nat \<Rightarrow> pool \<Rightarrow> pool" where
  "evict_one cfg now e p =
     (if en_inUse (po_heap p e) = 0 \<and>
         (length (po_lru p) > MaxSessions cfg \<or> en_lastUsed (po_heap p e) < now - IdleTimeout cfg)
      then unlinkLocked e p else p)"

definition evictLocked :: "pool_config \<Rightarrow> int \<Rightarrow> pool \<Rightarrow> pool" where
  "evictLocked cfg now p = fold (evict_one cfg now) (rev (po_lru p)) p"

definition pool_release :: "pool_config \<Rightarrow> int \<Rightarrow> nat \<Rightarrow> bool \<Rightarrow> pool \<Rightarrow> pool" where
  "pool_release cfg now e poisoned p0 =
     (let p = upd_entry e (\<lambda>x. x\<lparr>en_inUse := en_inUse x - 1, en_lastUsed := now\<rparr>) p0;
          x = po_heap p e in
      if poisoned \<and> \<not> en_dead x \<and> po_entries p (en_user x) = Some e then unlinkLocked e p
      else (let p = (if poisoned \<and> \<not> en_dead x then upd_entry e (\<lambda>x. x\<lparr>en_dead := True\<rparr>) p else p) in
        if en_dead (po_heap p e) then (if en_inUse x \<le> 0 then releaseFSLocked e p else p)
        else if po_closed p then
          (if en_inUse x \<le> 0 then releaseFSLocked e (upd_entry e (\<lambda>x. x\<lparr>en_dead := True\<rparr>) p) else p)
        else evictLocked cfg now p))"

definition sweep :: "pool_config \<Rightarrow> int \<Rightarrow> pool \<Rightarrow> pool" where
  "sweep cfg now p = (if po_closed p then p else evictLocked cfg now p)"

definition pool_Close :: "pool \<Rightarrow> pool" where
  "pool_Close p =
     (if po_closed p then p else fold unlinkLocked (po_lru p) (p\<lparr>po_closed := True\<rparr>))"

section \<open>pool.go\<close>

definition session_key :: "pool_config \<Rightarrow> string \<Rightarrow> gerror + string" where
  "session_key cfg user =
     (if user = [] then Inl (Plain ''a client user is required; use Admin for the proxy account'')
      else if user = cfg_ProxyUser cfg then Inr adminKey else Inr user)"

definition errPoolClosed :: gerror where
  "errPoolClosed = Plain ''irods pool is closed''"

definition borrow :: "int \<Rightarrow> nat \<Rightarrow> pool \<Rightarrow> pool" where
  "borrow now e p =
     (upd_entry e (\<lambda>x. x\<lparr>en_lastUsed := now, en_inUse := en_inUse x + 1\<rparr>) p)
       \<lparr>po_lru := e # remove1 e (po_lru p)\<rparr>"

text \<open>\<open>session\<close> holds the mutex twice: to look the key up, and, when a file system had to be built,
  to enter it unless another caller has entered one meanwhile.\<close>

definition session_lookup :: "int \<Rightarrow> string \<Rightarrow> pool \<Rightarrow> (gerror + nat option) \<times> pool" where
  "session_lookup now key p =
     (if po_closed p then (Inl errPoolClosed, p)
      else case po_entries p key of
        Some e \<Rightarrow> (Inr (Some e), borrow now e p)
      | None \<Rightarrow> (Inr None, p))"

definition session_enter :: "pool_config \<Rightarrow> int \<Rightarrow> string \<Rightarrow> pool \<Rightarrow> (gerror + nat) \<times> pool" where
  "session_enter cfg now key p =
     (if po_closed p then (Inl errPoolClosed, p)
      else case po_entries p key of
        Some e \<Rightarrow> (Inr e, borrow now e p)
      | None \<Rightarrow>
          (let e = po_next p in
           (Inr e, evictLocked cfg now
              (p\<lparr>po_next := Suc e, po_lru := e # po_lru p, po_tracked := e # po_tracked p,
                 po_entries := (po_entries p)(key \<mapsto> e),
                 po_heap := (po_heap p)(e := \<lparr>en_user = key, en_fs = True, en_lastUsed = now, en_inUse = 1,
                   en_leased = no_usage, en_dead = False\<rparr>)\<rparr>))))"

section \<open>capacity.go\<close>

definition metadataReserve :: int where "metadataReserve = 1"
definition MinTotalConnections :: int where "MinTotalConnections = metadataReserve + 1"

definition usage_total :: "conn_usage \<Rightarrow> int" where
  "usage_total u = us_metadata u + us_transfer u"

definition usage_add :: "conn_kind \<Rightarrow> conn_usage \<Rightarrow> conn_usage" where
  "usage_add kind u =
     (case kind of TransferConn \<Rightarrow> u\<lparr>us_transfer := us_transfer u + 1\<rparr>
      | MetadataConn \<Rightarrow> u\<lparr>us_metadata := us_metadata u + 1\<rparr>)"

definition usage_less :: "conn_kind \<Rightarrow> conn_usage \<Rightarrow> conn_usage" where
  "usage_less kind u =
     (case kind of TransferConn \<Rightarrow> u\<lparr>us_transfer := us_transfer u - 1\<rparr>
      | MetadataConn \<Rightarrow> u\<lparr>us_metadata := us_metadata u - 1\<rparr>)"

definition charge :: "conn_usage \<Rightarrow> conn_usage \<Rightarrow> int" where
  "charge open leased =
     max (us_metadata open) (us_metadata leased) + max (us_transfer open) (us_transfer leased)"

definition chargedConnections :: "(nat \<Rightarrow> conn_usage) \<Rightarrow> nat \<Rightarrow> pool \<Rightarrow> int" where
  "chargedConnections open e p =
     sum_list (map (\<lambda>te. charge (open te) (en_leased (po_heap p te))) (po_tracked p))
     + (if e \<in> set (po_tracked p) then 0 else usage_total (en_leased (po_heap p e)))"

text \<open>The loop of \<open>reclaimLocked\<close>: an entry and what is still to be reclaimed at a time.\<close>

definition reclaim_one :: "(nat \<Rightarrow> conn_usage) \<Rightarrow> nat \<Rightarrow> int \<times> pool \<Rightarrow> int \<times> pool" where
  "reclaim_one open e = (\<lambda>(excess, p).
     if excess > 0 \<and> en_inUse (po_heap p e) = 0 \<and> usage_total (open e) > 0
     then (excess - usage_total (open e), unlinkLocked e p) else (excess, p))"

definition reclaimLocked :: "(nat \<Rightarrow> conn_usage) \<Rightarrow> int \<Rightarrow> pool \<Rightarrow> pool" where
  "reclaimLocked open excess p = snd (fold (reclaim_one open) (rev (po_lru p)) (excess, p))"

definition lease_limit :: "pool_config \<Rightarrow> conn_kind \<Rightarrow> int" where
  "lease_limit cfg kind =
     (case kind of TransferConn \<Rightarrow> MaxTotalConnections cfg - metadataReserve
      | MetadataConn \<Rightarrow> MaxTotalConnections cfg)"

text \<open>One round of \<open>lease\<close> once the open connections are counted: whether the call was admitted.\<close>

definition lease_round ::
    "pool_config \<Rightarrow> (nat \<Rightarrow> conn_usage) \<Rightarrow> nat \<Rightarrow> conn_kind \<Rightarrow> pool \<Rightarrow> (gerror + bool) \<times> pool" where
  "lease_round cfg open e kind p =
     (if po_closed p then (Inl errPoolClosed, p)
      else (let leased = en_leased (po_heap p e);
                limit = lease_limit cfg kind;
                charged = chargedConnections open e p;
                need = charge (open e) (usage_add kind leased) - charge (open e) leased in
        if need = 0 \<or> charged + need \<le> limit \<or> charged = 0
        then (Inr True, upd_entry e (\<lambda>x. x\<lparr>en_leased := usage_add kind (en_leased x)\<rparr>) p)
        else (Inr False, reclaimLocked open (charged + need - limit) p)))"

definition lease_return :: "nat \<Rightarrow> conn_kind \<Rightarrow> pool \<Rightarrow> pool" where
  "lease_return e kind p = upd_entry e (\<lambda>x. x\<lparr>en_leased := usage_less kind (en_leased x)\<rparr>) p"

section \<open>waits\<close>

record wait_tally =
  wt_waits :: nat
  wt_gaveUp :: nat
  wt_longest :: int

record wait_report =
  wr_reported :: "int option"
  wr_pending :: wait_tally

definition no_waits :: wait_tally where
  "no_waits = \<lparr>wt_waits = 0, wt_gaveUp = 0, wt_longest = 0\<rparr>"

definition waitReportInterval :: int where "waitReportInterval = 60 * 10 ^ 9"

definition takeLocked :: "int \<Rightarrow> wait_report \<Rightarrow> wait_tally option \<times> wait_report" where
  "takeLocked now r =
     (if (case wr_reported r of None \<Rightarrow> False | Some t \<Rightarrow> now - t < waitReportInterval) then (None, r)
      else (Some (wr_pending r), \<lparr>wr_reported = Some now, wr_pending = no_waits\<rparr>))"

definition wait_record :: "int \<Rightarrow> int \<Rightarrow> bool \<Rightarrow> wait_report \<Rightarrow> wait_tally option \<times> wait_report" where
  "wait_record now waited gaveUp r =
     (let t = wr_pending r in
      takeLocked now (r\<lparr>wr_pending := \<lparr>wt_waits = wt_waits t + 1,
        wt_gaveUp = (if gaveUp then wt_gaveUp t + 1 else wt_gaveUp t),
        wt_longest = max (wt_longest t) waited\<rparr>\<rparr>))"

definition wait_flush :: "int \<Rightarrow> wait_report \<Rightarrow> wait_tally option \<times> wait_report" where
  "wait_flush now r = (if wt_waits (wr_pending r) = 0 then (None, r) else takeLocked now r)"

section \<open>The pool in use\<close>

inductive pool_step :: "pool_config \<Rightarrow> pool \<Rightarrow> pool \<Rightarrow> bool" for cfg :: pool_config where
  looks_up: "pool_step cfg p (snd (session_lookup now key p))"
| enters: "pool_step cfg p (snd (session_enter cfg now key p))"
| closes: "e < po_next p \<Longrightarrow> 0 < en_inUse (po_heap p e) \<Longrightarrow> pool_step cfg p (pool_release cfg now e poisoned p)"
| leases: "e < po_next p \<Longrightarrow> 0 < en_inUse (po_heap p e) \<Longrightarrow> pool_step cfg p (snd (lease_round cfg open e kind p))"
| gives_back: "e < po_next p \<Longrightarrow> pool_step cfg p (lease_return e kind p)"
| sweeps: "pool_step cfg p (sweep cfg now p)"
| tears_down: "e \<in> set (po_tearing p) \<Longrightarrow> pool_step cfg p (torn_down e p)"
| shuts: "pool_step cfg p (pool_Close p)"

section \<open>Facts\<close>

text \<open>The pool's bookkeeping: the map and the list hold the same entries, one a user; an entry is
  dead exactly when it is in neither; it has its file system exactly while the pool or a caller
  holds it, and is tracked exactly until that is torn down.\<close>

definition links_ok :: "pool \<Rightarrow> bool" where
  "links_ok p \<longleftrightarrow>
     distinct (po_lru p) \<and> distinct (po_tracked p) \<and> distinct (po_tearing p) \<and>
     (\<forall>k e. po_entries p k = Some e \<longleftrightarrow> e \<in> set (po_lru p) \<and> en_user (po_heap p e) = k) \<and>
     (\<forall>e \<in> set (po_lru p) \<union> set (po_tracked p) \<union> set (po_tearing p). e < po_next p)"

definition entry_ok :: "pool \<Rightarrow> nat \<Rightarrow> bool" where
  "entry_ok p e \<longleftrightarrow>
     (en_dead (po_heap p e) \<longleftrightarrow> e \<notin> set (po_lru p)) \<and> 0 \<le> en_inUse (po_heap p e) \<and>
     (en_fs (po_heap p e) \<longleftrightarrow> e \<in> set (po_lru p) \<or> 0 < en_inUse (po_heap p e)) \<and>
     (e \<in> set (po_tracked p) \<longleftrightarrow> en_fs (po_heap p e) \<or> e \<in> set (po_tearing p)) \<and>
     (e \<in> set (po_tearing p) \<longrightarrow> \<not> en_fs (po_heap p e))"

definition pool_wf :: "pool \<Rightarrow> bool" where
  "pool_wf p \<longleftrightarrow> links_ok p \<and> (\<forall>e < po_next p. entry_ok p e)"

definition pool_ok :: "pool \<Rightarrow> bool" where
  "pool_ok p \<longleftrightarrow> pool_wf p \<and> (po_closed p \<longrightarrow> po_lru p = [])"

lemma pool_ok_New: "pool_ok NewPool"
  by (simp add: pool_ok_def pool_wf_def links_ok_def NewPool_def)

lemma upd_entry_simps [simp]:
  "po_heap (upd_entry e f p) d = (if d = e then f (po_heap p e) else po_heap p d)"
  "po_lru (upd_entry e f p) = po_lru p" "po_closed (upd_entry e f p) = po_closed p"
  "po_next (upd_entry e f p) = po_next p" "po_tracked (upd_entry e f p) = po_tracked p"
  "po_tearing (upd_entry e f p) = po_tearing p" "po_entries (upd_entry e f p) = po_entries p"
  by (simp_all add: upd_entry_def)

lemma releaseFS_simps [simp]:
  "po_heap (releaseFSLocked e p) d = (if d = e then (po_heap p e)\<lparr>en_fs := False\<rparr> else po_heap p d)"
  "po_lru (releaseFSLocked e p) = po_lru p" "po_closed (releaseFSLocked e p) = po_closed p"
  "po_next (releaseFSLocked e p) = po_next p" "po_tracked (releaseFSLocked e p) = po_tracked p"
  "po_tearing (releaseFSLocked e p) = (if en_fs (po_heap p e) then e # po_tearing p else po_tearing p)"
  "po_entries (releaseFSLocked e p) = po_entries p"
  by (simp_all add: releaseFSLocked_def)

lemma unlink_simps [simp]:
  "po_heap (unlinkLocked e p) d = (if d = e then (po_heap p e)\<lparr>en_dead := True,
      en_fs := en_fs (po_heap p e) \<and> en_inUse (po_heap p e) \<noteq> 0\<rparr> else po_heap p d)"
  "po_lru (unlinkLocked e p) = remove1 e (po_lru p)" "po_closed (unlinkLocked e p) = po_closed p"
  "po_next (unlinkLocked e p) = po_next p" "po_tracked (unlinkLocked e p) = po_tracked p"
  "po_tearing (unlinkLocked e p) =
     (if en_inUse (po_heap p e) = 0 \<and> en_fs (po_heap p e) then e # po_tearing p else po_tearing p)"
  "po_entries (unlinkLocked e p) = (po_entries p)(en_user (po_heap p e) := None)"
  by (simp_all add: unlinkLocked_def Let_def)

lemma links_unlink:
  assumes "pool_wf p" "e \<in> set (po_lru p)"
  shows "links_ok (unlinkLocked e p)"
proof -
  have links: "links_ok p" and e: "e < po_next p" "entry_ok p e"
    using assms by (auto simp: pool_wf_def links_ok_def)
  then have "en_fs (po_heap p e)" "e \<notin> set (po_tearing p)"
    using assms(2) by (auto simp: entry_ok_def)
  moreover have "en_user (po_heap p d) = en_user (po_heap p e) \<longleftrightarrow> d = e" if "d \<in> set (po_lru p)" for d
    using links assms(2) that unfolding links_ok_def by (metis option.inject)
  ultimately show ?thesis
    using links e unfolding links_ok_def by (auto simp: set_remove1_eq)
qed

lemma entry_unlink:
  assumes "pool_wf p" "e \<in> set (po_lru p)" "d < po_next p"
  shows "entry_ok (unlinkLocked e p) d"
proof -
  have "distinct (po_lru p)" "entry_ok p d" "entry_ok p e"
    using assms by (auto simp: pool_wf_def links_ok_def)
  with assms(2) show ?thesis
    unfolding entry_ok_def by (cases "d = e") (auto simp: set_remove1_eq)
qed

lemma unlink_wf: "pool_wf p \<Longrightarrow> e \<in> set (po_lru p) \<Longrightarrow> pool_wf (unlinkLocked e p)"
  unfolding pool_wf_def [of "unlinkLocked e p"] by (simp add: links_unlink entry_unlink)

text \<open>A walk over the list that unlinks some of its entries.\<close>

definition shrinks :: "bool \<Rightarrow> pool \<Rightarrow> pool \<Rightarrow> bool" where
  "shrinks idle p q \<longleftrightarrow> po_closed q = po_closed p \<and> po_next q = po_next p \<and> po_tracked q = po_tracked p \<and>
     (\<forall>d. en_inUse (po_heap q d) = en_inUse (po_heap p d) \<and> en_user (po_heap q d) = en_user (po_heap p d) \<and>
        en_leased (po_heap q d) = en_leased (po_heap p d)) \<and>
     set (po_lru q) \<subseteq> set (po_lru p) \<and> (idle \<longrightarrow> (\<forall>d \<in> set (po_lru p). en_inUse (po_heap p d) \<noteq> 0 \<longrightarrow> d \<in> set (po_lru q)))"

lemma fold_unlink:
  assumes "\<And>x q. x \<in> set es \<Longrightarrow> prj (g x q) = prj q \<or> (idle \<longrightarrow> en_inUse (po_heap (prj q) x) = 0) \<and> prj (g x q) = unlinkLocked x (prj q)"
    and "pool_wf (prj q)" "distinct es" "set es \<subseteq> set (po_lru (prj q))"
  shows "pool_wf (prj (fold g es q)) \<and> shrinks idle (prj q) (prj (fold g es q))"
  using assms
proof (induction es arbitrary: q)
  case Nil
  then show ?case by (simp add: shrinks_def)
next
  case (Cons x es)
  let ?q = "g x q"
  have step: "prj ?q = prj q \<or> (idle \<longrightarrow> en_inUse (po_heap (prj q) x) = 0) \<and> prj ?q = unlinkLocked x (prj q)"
    using Cons.prems(1) [of x q] by auto
  have wf: "pool_wf (prj ?q)"
    using step Cons.prems(2,4) unlink_wf [of "prj q" x] by auto
  have one: "shrinks idle (prj q) (prj ?q)"
    using step Cons.prems(2) by (auto simp: shrinks_def pool_wf_def links_ok_def set_remove1_eq)
  have rest: "set es \<subseteq> set (po_lru (prj ?q))"
    using step Cons.prems(2,3,4) by (auto simp: pool_wf_def links_ok_def set_remove1_eq)
  have "pool_wf (prj (fold g es ?q)) \<and> shrinks idle (prj ?q) (prj (fold g es ?q))"
    by (rule Cons.IH [OF _ wf _ rest]) (use Cons.prems in auto)
  with one show ?case
    by (auto simp: shrinks_def)
qed

text \<open>An entry changed in what the bookkeeping does not read.\<close>

lemma pool_wf_heap:
  assumes "pool_wf p" "po_lru q = po_lru p" "po_entries q = po_entries p" "po_tracked q = po_tracked p"
    "po_tearing q = po_tearing p" "po_next q = po_next p"
    "\<And>d. en_user (po_heap q d) = en_user (po_heap p d)" "\<And>d. d < po_next p \<Longrightarrow> entry_ok q d"
  shows "pool_wf q"
  using assms by (simp add: pool_wf_def links_ok_def)

lemma evict_keeps:
  assumes "pool_wf p"
  shows "pool_wf (evictLocked cfg now p) \<and> shrinks True p (evictLocked cfg now p)"
  unfolding evictLocked_def
  by (rule fold_unlink [where prj = "\<lambda>q. q"]) (use assms in \<open>auto simp: evict_one_def pool_wf_def links_ok_def\<close>)

lemma reclaim_keeps:
  assumes "pool_wf p"
  shows "pool_wf (reclaimLocked open n p) \<and> shrinks True p (reclaimLocked open n p)"
proof -
  have "pool_wf (snd (fold (reclaim_one open) (rev (po_lru p)) (n, p))) \<and>
      shrinks True (snd (n, p)) (snd (fold (reclaim_one open) (rev (po_lru p)) (n, p)))"
    by (rule fold_unlink [where prj = snd])
       (use assms in \<open>auto simp: reclaim_one_def pool_wf_def links_ok_def split: prod.split\<close>)
  then show ?thesis by (simp add: reclaimLocked_def)
qed

lemma shrinks_ok: "pool_ok p \<Longrightarrow> pool_wf q \<Longrightarrow> shrinks b p q \<Longrightarrow> pool_ok q"
  by (auto simp: pool_ok_def shrinks_def)

lemma evict_ok: "pool_ok p \<Longrightarrow> pool_ok (evictLocked cfg now p)"
  using evict_keeps shrinks_ok pool_ok_def by blast

lemma reclaim_ok: "pool_ok p \<Longrightarrow> pool_ok (reclaimLocked open n p)"
  using reclaim_keeps shrinks_ok pool_ok_def by blast

lemma unlink_ok: "pool_ok p \<Longrightarrow> e \<in> set (po_lru p) \<Longrightarrow> pool_ok (unlinkLocked e p)"
  by (auto simp: pool_ok_def unlink_wf)

lemma borrow_simps [simp]:
  "po_heap (borrow now e p) d =
     (if d = e then (po_heap p e)\<lparr>en_lastUsed := now, en_inUse := en_inUse (po_heap p e) + 1\<rparr> else po_heap p d)"
  "po_lru (borrow now e p) = e # remove1 e (po_lru p)" "po_closed (borrow now e p) = po_closed p"
  "po_next (borrow now e p) = po_next p" "po_tracked (borrow now e p) = po_tracked p"
  "po_tearing (borrow now e p) = po_tearing p" "po_entries (borrow now e p) = po_entries p"
  by (simp_all add: borrow_def)

lemma borrow_ok:
  assumes "pool_ok p" "po_entries p key = Some e"
  shows "pool_ok (borrow now e p)"
proof -
  have wf: "pool_wf p" and e: "e \<in> set (po_lru p)" "e < po_next p" and D: "distinct (po_lru p)"
    using assms by (auto simp: pool_ok_def pool_wf_def links_ok_def)
  have lru: "set (po_lru (borrow now e p)) = set (po_lru p)" "distinct (po_lru (borrow now e p))"
    using e D by (auto simp: set_remove1_eq)
  have links: "links_ok (borrow now e p)"
    using wf lru(2) unfolding pool_wf_def links_ok_def lru(1) by simp
  have "entry_ok (borrow now e p) d" if "d < po_next p" for d
  proof -
    have "entry_ok p d" using wf that by (simp add: pool_wf_def)
    with e(1) show ?thesis unfolding entry_ok_def lru(1) by (cases "d = e") auto
  qed
  with links assms e show ?thesis
    by (auto simp: pool_ok_def pool_wf_def)
qed

text \<open>A new session for a user who has none.\<close>

lemma fresh_ok:
  assumes "pool_ok p" "po_entries p key = None" "\<not> po_closed p"
    and q: "q = p\<lparr>po_next := Suc (po_next p), po_lru := po_next p # po_lru p,
       po_tracked := po_next p # po_tracked p, po_entries := (po_entries p)(key \<mapsto> po_next p),
       po_heap := (po_heap p)(po_next p := \<lparr>en_user = key, en_fs = True, en_lastUsed = now, en_inUse = 1,
         en_leased = no_usage, en_dead = False\<rparr>)\<rparr>"
  shows "pool_ok q"
proof -
  let ?n = "po_next p"
  have wf: "links_ok p" "\<forall>d < ?n. entry_ok p d"
    using assms by (auto simp: pool_ok_def pool_wf_def)
  then have fresh: "?n \<notin> set (po_lru p)" "?n \<notin> set (po_tracked p)" "?n \<notin> set (po_tearing p)"
    by (auto simp: links_ok_def)
  have other: "en_user (po_heap p e) \<noteq> key" if "e \<in> set (po_lru p)" for e
    using wf(1) assms(2) that unfolding links_ok_def by (metis option.distinct(1))
  have "links_ok q"
    using wf(1) fresh other unfolding links_ok_def q by (simp add: less_SucI)
  moreover have "entry_ok q d" if "d < po_next q" for d
  proof (cases "d = ?n")
    case False
    then have "entry_ok p d" using wf(2) that by (simp add: q)
    with False fresh show ?thesis unfolding entry_ok_def q by auto
  qed (use fresh in \<open>simp add: entry_ok_def q\<close>)
  ultimately show ?thesis
    using assms(3) by (simp add: pool_ok_def pool_wf_def q)
qed

text \<open>The last holder of a session no longer in the pool gives it up.\<close>

lemma release_dead_ok:
  assumes "pool_ok p" "e < po_next p" "e \<notin> set (po_lru p)" "0 < en_inUse (po_heap p e)"
    and q: "q = upd_entry e (\<lambda>x. x\<lparr>en_inUse := en_inUse x - 1, en_lastUsed := now\<rparr>) p"
  shows "pool_ok (if en_inUse (po_heap q e) \<le> 0 then releaseFSLocked e q else q)"
proof -
  have wf: "links_ok p" "\<forall>d < po_next p. entry_ok p d" "po_closed p \<longrightarrow> po_lru p = []"
    using assms by (auto simp: pool_ok_def pool_wf_def)
  let ?r = "if en_inUse (po_heap q e) \<le> 0 then releaseFSLocked e q else q"
  have e: "entry_ok p e" using wf(2) assms(2) by simp
  have free: "en_fs (po_heap p e)" "e \<notin> set (po_tearing p)"
    using e assms(3,4) unfolding entry_ok_def by auto
  have "links_ok ?r"
    using wf(1) free assms(2) unfolding links_ok_def q by simp
  moreover have "entry_ok ?r d" if "d < po_next p" for d
  proof -
    have "entry_ok p d" using wf(2) that by simp
    with assms(3,4) free show ?thesis
      unfolding entry_ok_def q by (cases "d = e") auto
  qed
  ultimately show ?thesis
    using wf(3) by (cases "en_inUse (po_heap p e) \<le> 1") (simp_all add: pool_ok_def pool_wf_def q)
qed

lemma release_ok:
  assumes ok: "pool_ok p" and e: "e < po_next p" "0 < en_inUse (po_heap p e)"
  shows "pool_ok (pool_release cfg now e poisoned p)"
proof -
  define q where "q = upd_entry e (\<lambda>x. x\<lparr>en_inUse := en_inUse x - 1, en_lastUsed := now\<rparr>) p"
  have ent: "entry_ok p e" using ok e by (simp add: pool_ok_def pool_wf_def)
  have live: "po_entries p (en_user (po_heap p e)) = Some e \<longleftrightarrow> e \<in> set (po_lru p)"
    using ok by (simp add: pool_ok_def pool_wf_def links_ok_def)
  show ?thesis
  proof (cases "e \<in> set (po_lru p)")
    case True
    have "entry_ok q d" if "d < po_next p" for d
    proof -
      have "entry_ok p d" using ok that by (simp add: pool_ok_def pool_wf_def)
      with True e show ?thesis unfolding entry_ok_def q_def by (cases "d = e") auto
    qed
    then have "pool_wf q"
      using ok by (intro pool_wf_heap [of p q]) (auto simp: pool_ok_def q_def)
    then have "pool_ok q" using ok by (simp add: pool_ok_def q_def)
    moreover have "\<not> po_closed p" "\<not> en_dead (po_heap p e)"
      using ok True ent by (auto simp: pool_ok_def entry_ok_def)
    ultimately show ?thesis
      using True live unlink_ok [of q e] evict_ok [of q]
      by (simp add: pool_release_def Let_def q_def)
  next
    case False
    then have "en_dead (po_heap p e)" using ent by (simp add: entry_ok_def)
    then show ?thesis
      using release_dead_ok [OF ok e(1) False e(2) q_def]
      by (cases "en_inUse (po_heap p e) \<le> 1") (simp_all add: pool_release_def Let_def q_def)
  qed
qed

lemma leased_ok:
  assumes "pool_ok p"
  shows "pool_ok (upd_entry e (\<lambda>x. x\<lparr>en_leased := f x\<rparr>) p)"
proof -
  let ?q = "upd_entry e (\<lambda>x. x\<lparr>en_leased := f x\<rparr>) p"
  have "entry_ok ?q d = entry_ok p d" for d
    by (cases "d = e") (simp_all add: entry_ok_def)
  then have "pool_wf ?q"
    using assms by (intro pool_wf_heap [of p ?q]) (auto simp: pool_ok_def pool_wf_def)
  then show ?thesis using assms by (simp add: pool_ok_def)
qed

lemma torn_down_ok:
  assumes "pool_ok p" "e \<in> set (po_tearing p)"
  shows "pool_ok (torn_down e p)"
proof -
  have wf: "links_ok p" "\<forall>d < po_next p. entry_ok p d"
    using assms by (auto simp: pool_ok_def pool_wf_def)
  have "links_ok (torn_down e p)"
    using wf(1) unfolding links_ok_def torn_down_def by (auto simp: set_remove1_eq)
  moreover have "entry_ok (torn_down e p) d" if "d < po_next p" for d
  proof -
    have "entry_ok p d" "distinct (po_tracked p)" "distinct (po_tearing p)"
      using wf that by (auto simp: links_ok_def)
    with assms(2) show ?thesis
      unfolding entry_ok_def torn_down_def by (cases "d = e") (auto simp: set_remove1_eq)
  qed
  ultimately show ?thesis
    using assms(1) by (simp add: pool_ok_def pool_wf_def torn_down_def)
qed

lemma fold_unlink_lru:
  "fold remove1 es es = ([] :: 'a list)" 
  by (induction es) simp_all

lemma fold_unlink_all: "po_lru (fold unlinkLocked es p) = fold remove1 es (po_lru p)"
  by (induction es arbitrary: p) simp_all

lemma Close_ok:
  assumes "pool_ok p"
  shows "pool_ok (pool_Close p)"
proof (cases "po_closed p")
  case False
  let ?p = "p\<lparr>po_closed := True\<rparr>"
  have "entry_ok ?p d = entry_ok p d" for d
    by (simp add: entry_ok_def)
  then have "pool_wf ?p"
    using assms by (intro pool_wf_heap [of p ?p]) (auto simp: pool_ok_def pool_wf_def)
  then have "pool_wf (fold unlinkLocked (po_lru p) ?p)"
    using fold_unlink [where prj = "\<lambda>q. q" and q = ?p and idle = False and es = "po_lru p" and g = unlinkLocked]
    by (simp add: pool_wf_def links_ok_def)
  then show ?thesis
    using False by (simp add: pool_Close_def pool_ok_def fold_unlink_all fold_unlink_lru)
qed (use assms in \<open>simp add: pool_Close_def\<close>)

lemma pool_step_ok: "pool_step cfg p q \<Longrightarrow> pool_ok p \<Longrightarrow> pool_ok q"
proof (induction rule: pool_step.induct)
  case (looks_up p now key)
  then show ?case by (auto simp: session_lookup_def borrow_ok split: option.splits)
next
  case (enters p now key)
  then show ?case
    by (auto simp: session_enter_def Let_def borrow_ok intro!: evict_ok fresh_ok [OF _ _ _ refl] split: option.splits)
next
  case (leases e p opened kind)
  then show ?case by (simp add: lease_round_def Let_def leased_ok reclaim_ok)
qed (simp_all add: release_ok lease_return_def leased_ok sweep_def evict_ok torn_down_ok Close_ok)

section \<open>Properties\<close>

lemma reachable_ok: "(pool_step cfg)\<^sup>*\<^sup>* NewPool p \<Longrightarrow> pool_ok p"
  by (induction rule: rtranclp_induct) (auto simp: pool_ok_New pool_step_ok)

lemma reachable_entry: "(pool_step cfg)\<^sup>*\<^sup>* NewPool p \<Longrightarrow> e < po_next p \<Longrightarrow> entry_ok p e"
  using reachable_ok by (auto simp: pool_ok_def pool_wf_def)

lemma used_tracked: "pool_ok p \<Longrightarrow> e < po_next p \<Longrightarrow> 0 < en_inUse (po_heap p e) \<Longrightarrow> e \<in> set (po_tracked p)"
  by (auto simp: pool_ok_def pool_wf_def entry_ok_def)

definition charged :: "(nat \<Rightarrow> conn_usage) \<Rightarrow> pool \<Rightarrow> int" where
  "charged open p = (\<Sum>e \<in> set (po_tracked p). charge (open e) (en_leased (po_heap p e)))"

lemma charged_eq:
  assumes "pool_ok p" "e \<in> set (po_tracked p)"
  shows "chargedConnections open e p = charged open p"
  using assms
  by (simp add: chargedConnections_def charged_def sum_list_distinct_conv_sum_set pool_ok_def pool_wf_def links_ok_def)

lemma charged_lease:
  assumes "pool_ok p" "e \<in> set (po_tracked p)"
  shows "charged open (upd_entry e (\<lambda>x. x\<lparr>en_leased := u\<rparr>) p) =
    charged open p + (charge (open e) u - charge (open e) (en_leased (po_heap p e)))"
  using assms(2) by (simp add: charged_def sum.remove [of "set (po_tracked p)" e])

text \<open>Among the sessions a walk has passed, those still in the pool and idle are recent and within
  the number allowed.\<close>

lemma fold_evict_passed:
  assumes "distinct (po_lru p)" "\<forall>e \<in> D. e \<in> set (po_lru p) \<longrightarrow> en_inUse (po_heap p e) = 0 \<longrightarrow>
      length (po_lru p) \<le> MaxSessions cfg \<and> now - IdleTimeout cfg \<le> en_lastUsed (po_heap p e)"
  defines "q es \<equiv> fold (evict_one cfg now) es p"
  shows "\<forall>e \<in> D \<union> set es. e \<in> set (po_lru (q es)) \<longrightarrow> en_inUse (po_heap (q es) e) = 0 \<longrightarrow>
      length (po_lru (q es)) \<le> MaxSessions cfg \<and> now - IdleTimeout cfg \<le> en_lastUsed (po_heap (q es) e)"
  using assms(1,2) unfolding q_def
proof (induction es arbitrary: p D)
  case (Cons x es)
  let ?p = "evict_one cfg now x p"
  have D: "distinct (po_lru ?p)" using Cons.prems(1) by (simp add: evict_one_def)
  have "\<forall>e \<in> insert x D. e \<in> set (po_lru ?p) \<longrightarrow> en_inUse (po_heap ?p e) = 0 \<longrightarrow>
      length (po_lru ?p) \<le> MaxSessions cfg \<and> now - IdleTimeout cfg \<le> en_lastUsed (po_heap ?p e)"
    using Cons.prems by (auto simp: evict_one_def set_remove1_eq length_remove1)
  from Cons.IH [OF D this] show ?case by simp
qed simp

lemma reclaim_one_eq:
  "reclaim_one opened e (n, p) =
     (if n > 0 \<and> en_inUse (po_heap p e) = 0 \<and> usage_total (opened e) > 0
      then (n - usage_total (opened e), unlinkLocked e p) else (n, p))"
  by (simp add: reclaim_one_def)

lemma fold_reclaim_lru:
  "set (po_lru (snd (fold (reclaim_one opened) es (n, p)))) \<subseteq> set (po_lru p)"
proof (induction es arbitrary: n p)
  case (Cons x es)
  show ?case
    using Cons.IH [of n p] Cons.IH [of "n - usage_total (opened x)" "unlinkLocked x p"]
      set_remove1_subset [of x "po_lru p"]
    by (auto simp: reclaim_one_eq)
qed simp

text \<open>What a reclaim has reclaimed, and that it has either reclaimed enough or left nothing to.\<close>

lemma fold_reclaim_enough:
  assumes "distinct (po_lru p)" "distinct es" "set es \<subseteq> set (po_lru p)"
    and "\<forall>e \<in> D. e \<in> set (po_lru p) \<longrightarrow> 0 < n \<longrightarrow> en_inUse (po_heap p e) = 0 \<longrightarrow> usage_total (opened e) \<le> 0"
  defines "q \<equiv> fold (reclaim_one opened) es (n, p)"
  shows "fst q = n - (\<Sum>e \<in> set (po_lru p) - set (po_lru (snd q)). usage_total (opened e)) \<and>
    (\<forall>e \<in> D \<union> set es. e \<in> set (po_lru (snd q)) \<longrightarrow> 0 < fst q \<longrightarrow>
      en_inUse (po_heap (snd q) e) = 0 \<longrightarrow> usage_total (opened e) \<le> 0)"
  using assms(1-4) unfolding q_def
proof (induction es arbitrary: n p D)
  case (Cons x es)
  let ?u = "usage_total (opened x)"
  show ?case
  proof (cases "n > 0 \<and> en_inUse (po_heap p x) = 0 \<and> ?u > 0")
    case True
    let ?r = "fold (reclaim_one opened) es (n - ?u, unlinkLocked x p)"
    have step: "fold (reclaim_one opened) (x # es) (n, p) = ?r"
      using True by (simp add: reclaim_one_eq)
    have sub: "set (po_lru (snd ?r)) \<subseteq> set (po_lru p) - {x}"
      using fold_reclaim_lru [of opened es "n - ?u" "unlinkLocked x p"] Cons.prems(1) by (simp add: set_remove1_eq)
    then have split: "set (po_lru p) - set (po_lru (snd ?r)) =
        insert x (set (po_lru p) - {x} - set (po_lru (snd ?r)))"
      using Cons.prems(3) by auto
    have "fst ?r = n - ?u - (\<Sum>e \<in> set (po_lru p) - {x} - set (po_lru (snd ?r)). usage_total (opened e)) \<and>
        (\<forall>e \<in> insert x D \<union> set es. e \<in> set (po_lru (snd ?r)) \<longrightarrow> 0 < fst ?r \<longrightarrow>
          en_inUse (po_heap (snd ?r) e) = 0 \<longrightarrow> usage_total (opened e) \<le> 0)"
      using Cons.IH [of "unlinkLocked x p" "insert x D" "n - ?u"] Cons.prems True
      by (auto simp: set_remove1_eq)
    then show ?thesis unfolding step split by simp
  next
    case False
    then have step: "fold (reclaim_one opened) (x # es) (n, p) = fold (reclaim_one opened) es (n, p)"
      by (simp only: fold_simps reclaim_one_eq if_False)
    have dist: "distinct es" "set es \<subseteq> set (po_lru p)"
      and passed: "\<forall>e \<in> insert x D. e \<in> set (po_lru p) \<longrightarrow> 0 < n \<longrightarrow> en_inUse (po_heap p e) = 0 \<longrightarrow>
        usage_total (opened e) \<le> 0"
      using Cons.prems False by auto
    show ?thesis
      using Cons.IH [OF Cons.prems(1) dist passed] unfolding step by simp
  qed
qed simp

definition small_cap :: pool_config where
  "small_cap = \<lparr>MaxSessions = 1, MaxTotalConnections = 2, IdleTimeout = 10, cfg_ProxyUser = ''rods''\<rparr>"

definition one_session :: pool where
  "one_session = snd (session_enter small_cap 0 ''ann'' NewPool)"

lemma one_session_reachable: "(pool_step small_cap)\<^sup>*\<^sup>* NewPool one_session"
  unfolding one_session_def by (rule r_into_rtranclp, rule pool_step.enters)

lemma one_session_simps:
  "po_entries one_session ''ann'' = Some 0" "po_next one_session = 1" "po_lru one_session = [0]"
  "en_inUse (po_heap one_session 0) = 1" "po_closed one_session = False"
  "po_tracked one_session = [0]" "en_leased (po_heap one_session 0) = no_usage"
  by (simp_all add: one_session_def session_enter_def NewPool_def Let_def evictLocked_def evict_one_def)

text \<open>C7. However callers, the sweeper, the closing of the pool and the goroutines that tear file
  systems down interleave: the session a user is found under is his, alive and connected; a session
  somebody holds keeps its file system; one nobody holds and the pool has let go of has given its
  file system up, and counts against the cap only while that is being torn down; and a closed pool
  finds nobody a session.\<close>

theorem pool_bookkeeping:
  assumes "(pool_step cfg)\<^sup>*\<^sup>* NewPool p"
  shows "(\<forall>user e. po_entries p user = Some e \<longrightarrow>
            en_user (po_heap p e) = user \<and> en_fs (po_heap p e) \<and> \<not> en_dead (po_heap p e)) \<and>
         (\<forall>e < po_next p. 0 < en_inUse (po_heap p e) \<longrightarrow> en_fs (po_heap p e)) \<and>
         (\<forall>e < po_next p. en_inUse (po_heap p e) = 0 \<longrightarrow> en_dead (po_heap p e) \<longrightarrow>
            \<not> en_fs (po_heap p e) \<and> (e \<in> set (po_tracked p) \<longleftrightarrow> e \<in> set (po_tearing p))) \<and>
         (po_closed p \<longrightarrow> (\<forall>user. po_entries p user = None))"
proof -
  have links: "links_ok p" and ents: "\<And>e. e < po_next p \<Longrightarrow> entry_ok p e"
    and shut: "po_closed p \<longrightarrow> po_lru p = []"
    using reachable_ok [OF assms] by (auto simp: pool_ok_def pool_wf_def)
  have known: "e \<in> set (po_lru p) \<and> en_user (po_heap p e) = user \<and> e < po_next p"
    if "po_entries p user = Some e" for user e
    using links that by (auto simp: links_ok_def)
  have "po_entries p user = None" if "po_closed p" for user
    using known [of user] shut that by (cases "po_entries p user") auto
  with known ents show ?thesis
    by (auto simp: entry_ok_def)
qed

theorem pool_bookkeeping_witness:
  "po_entries one_session ''ann'' = Some 0 \<and> en_user (po_heap one_session 0) = ''ann'' \<and>
   en_fs (po_heap one_session 0)"
  using pool_bookkeeping [OF one_session_reachable] one_session_simps by blast

text \<open>C8. Evicting never touches a session somebody holds; of the others it leaves only sessions
  used within the idle time, and none at all while the pool is over its number of sessions.\<close>

theorem evict_exact:
  assumes "(pool_step cfg)\<^sup>*\<^sup>* NewPool p" and "q = evictLocked cfg now p"
  shows "set (po_lru q) \<subseteq> set (po_lru p) \<and>
    (\<forall>e < po_next p. 0 < en_inUse (po_heap p e) \<longrightarrow>
       en_fs (po_heap q e) \<and> (e \<in> set (po_lru p) \<longrightarrow> e \<in> set (po_lru q))) \<and>
    (\<forall>e \<in> set (po_lru q). en_inUse (po_heap q e) = 0 \<longrightarrow>
       length (po_lru q) \<le> MaxSessions cfg \<and> now - IdleTimeout cfg \<le> en_lastUsed (po_heap q e))"
proof -
  have ok: "pool_ok p" by (rule reachable_ok [OF assms(1)])
  then have D: "distinct (po_lru p)" by (simp add: pool_ok_def pool_wf_def links_ok_def)
  have sh: "shrinks True p q" and q: "pool_ok q"
    using evict_keeps [of p cfg now] evict_ok [OF ok] ok assms(2) by (auto simp: pool_ok_def)
  then have "entry_ok q e" if "e < po_next p" for e
    using that by (simp add: shrinks_def pool_ok_def pool_wf_def)
  moreover have "\<forall>e \<in> set (po_lru q). en_inUse (po_heap q e) = 0 \<longrightarrow>
      length (po_lru q) \<le> MaxSessions cfg \<and> now - IdleTimeout cfg \<le> en_lastUsed (po_heap q e)"
    using fold_evict_passed [of p "{}" cfg now "rev (po_lru p)"] D sh assms(2)
    by (auto simp: evictLocked_def shrinks_def)
  ultimately show ?thesis
    using sh by (auto simp: shrinks_def entry_ok_def)
qed

theorem evict_exact_witness:
  "0 \<in> set (po_lru (evictLocked small_cap 100 one_session)) \<and>
   en_fs (po_heap (evictLocked small_cap 100 one_session) 0)"
  using evict_exact [OF one_session_reachable refl, of 100] by (simp add: one_session_simps)

text \<open>C9. A call is given a connection only if it needs no new one, if what all sessions are charged
  still fits the cap with it, the reserve left free when it is a transfer, or if nothing is charged at
  all; and the charge rises by exactly what it needs.  A call turned away leaves every session in use
  alone, and either connections to the number missing are on their way to being closed or no idle
  session has one left.\<close>

theorem lease_round_exact:
  assumes "(pool_step cfg)\<^sup>*\<^sup>* NewPool p" and "e < po_next p" "0 < en_inUse (po_heap p e)"
    and "lease_round cfg open e kind p = (Inr admitted, q)"
  defines "need \<equiv> charge (open e) (usage_add kind (en_leased (po_heap p e))) - charge (open e) (en_leased (po_heap p e))"
  shows "if admitted
    then charged open q = charged open p + need \<and> po_lru q = po_lru p \<and>
      (need = 0 \<or> charged open p = 0 \<or>
       charged open q \<le> MaxTotalConnections cfg - (if kind = TransferConn then metadataReserve else 0))
    else (\<forall>d \<in> set (po_lru p). 0 < en_inUse (po_heap p d) \<longrightarrow> d \<in> set (po_lru q)) \<and>
      (charged open p + need - lease_limit cfg kind
         \<le> (\<Sum>d \<in> set (po_lru p) - set (po_lru q). usage_total (open d)) \<or>
       (\<forall>d \<in> set (po_lru q). en_inUse (po_heap q d) = 0 \<longrightarrow> usage_total (open d) \<le> 0))"
proof -
  have ok: "pool_ok p" by (rule reachable_ok [OF assms(1)])
  then have D: "distinct (po_lru p)" by (simp add: pool_ok_def pool_wf_def links_ok_def)
  have eq: "chargedConnections open e p = charged open p"
    and tr: "e \<in> set (po_tracked p)"
    using charged_eq used_tracked ok assms(2,3) by auto
  let ?l = "lease_limit cfg kind"
  have open_pool: "\<not> po_closed p" using assms(4) by (auto simp: lease_round_def)
  show ?thesis
  proof (cases admitted)
    case True
    then have q: "q = upd_entry e (\<lambda>x. x\<lparr>en_leased := usage_add kind (en_leased (po_heap p e))\<rparr>) p"
      and fits: "need = 0 \<or> charged open p + need \<le> ?l \<or> charged open p = 0"
      using assms(4) open_pool
      by (auto simp: lease_round_def Let_def eq need_def upd_entry_def split: if_splits)
    then show ?thesis
      using True fits charged_lease [OF ok tr] unfolding q need_def
      by (auto simp: lease_limit_def split: conn_kind.splits)
  next
    case False
    then have q: "q = reclaimLocked open (charged open p + need - ?l) p"
      using assms(4) open_pool by (auto simp: lease_round_def Let_def eq need_def split: if_splits)
    have "shrinks True p q" using reclaim_keeps ok q by (auto simp: pool_ok_def)
    moreover have "\<forall>d \<in> set (po_lru p). d \<in> set (po_lru q) \<longrightarrow>
        (\<Sum>d \<in> set (po_lru p) - set (po_lru q). usage_total (open d)) < charged open p + need - ?l \<longrightarrow>
        en_inUse (po_heap q d) = 0 \<longrightarrow> usage_total (open d) \<le> 0"
      using fold_reclaim_enough [of p "rev (po_lru p)" "{}" "charged open p + need - ?l" "open"] D
      unfolding q reclaimLocked_def by auto
    ultimately show ?thesis
      using False by (auto simp: shrinks_def not_le)
  qed
qed

theorem lease_round_exact_witness:
  "fst (lease_round small_cap (\<lambda>_. no_usage) 0 TransferConn one_session) = Inr True \<and>
   charged (\<lambda>_. no_usage) (snd (lease_round small_cap (\<lambda>_. no_usage) 0 TransferConn one_session)) = 1"
proof -
  have admitted: "lease_round small_cap (\<lambda>_. no_usage) 0 TransferConn one_session =
      (Inr True, snd (lease_round small_cap (\<lambda>_. no_usage) 0 TransferConn one_session))"
    by (simp add: lease_round_def one_session_simps Let_def chargedConnections_def charge_def no_usage_def)
  have "charged (\<lambda>_. no_usage) one_session = 0"
    by (simp add: charged_def one_session_simps charge_def no_usage_def)
  moreover have "fst (lease_round small_cap (\<lambda>_. no_usage) 0 TransferConn one_session) = Inr True"
    by (subst admitted) simp
  ultimately show ?thesis
    using lease_round_exact [OF one_session_reachable _ _ admitted]
    by (simp add: one_session_simps charge_def no_usage_def usage_add_def)
qed

end
