(* ===== verification/GoUrls.thy ===== *)
theory GoUrls
  imports GoStrings
begin

text \<open>
  Percent-encoding as Go's \<open>net/url\<close> does it: \<open>PathUnescape\<close>, \<open>QueryUnescape\<close> and \<open>QueryEscape\<close>
  on byte strings, and that the escaped form of a string is read back as that string.
\<close>

definition hex_digits :: string where
  "hex_digits = ''0123456789ABCDEF''"

definition hex_value :: "char \<Rightarrow> nat option" where
  "hex_value c =
     (let n = (of_char c :: nat)
      in if in_range 48 57 n then Some (n - 48)
         else if in_range 97 102 n then Some (n - 87)
         else if in_range 65 70 n then Some (n - 55)
         else None)"

fun unescape :: "bool \<Rightarrow> string \<Rightarrow> string option" where
  "unescape query [] = Some []"
| "unescape query (c # cs) =
     (if c = CHR ''%'' then
        (case cs of
           a # b # rest \<Rightarrow>
             (case (hex_value a, hex_value b) of
                (Some i, Some j) \<Rightarrow> map_option ((#) (char_of (16 * i + j))) (unescape query rest)
              | _ \<Rightarrow> None)
         | _ \<Rightarrow> None)
      else map_option ((#) (if query \<and> c = CHR ''+'' then CHR '' '' else c)) (unescape query cs))"

definition PathUnescape :: "string \<Rightarrow> string option" where
  "PathUnescape s = unescape False s"

definition QueryUnescape :: "string \<Rightarrow> string option" where
  "QueryUnescape s = unescape True s"

definition unreserved :: "char \<Rightarrow> bool" where
  "unreserved c \<longleftrightarrow>
     (let n = (of_char c :: nat)
      in in_range 97 122 n \<or> in_range 65 90 n \<or> in_range 48 57 n \<or> List.member ''-_.~'' c)"

definition percent :: "char \<Rightarrow> string" where
  "percent c = (let n = (of_char c :: nat) in [CHR ''%'', hex_digits ! (n div 16), hex_digits ! (n mod 16)])"

definition QueryEscape :: "string \<Rightarrow> string" where
  "QueryEscape s = concat (map (\<lambda>c. if unreserved c then [c] else if c = CHR '' '' then ''+'' else percent c) s)"

text \<open>What is read back: an escaped byte is the byte.\<close>

lemma hex_value_digit: "d < 16 \<Longrightarrow> hex_value (hex_digits ! d) = Some d"
proof -
  have "\<forall>d \<in> set [0..<16]. hex_value (hex_digits ! d) = Some d"
    by code_simp
  then show "d < 16 \<Longrightarrow> hex_value (hex_digits ! d) = Some d" by simp
qed

lemma unescape_percent: "unescape query (percent c @ rest) = map_option ((#) c) (unescape query rest)"
proof -
  have "(of_char c :: nat) < 256" by simp
  then have "hex_value (hex_digits ! (of_char c div 16)) = Some (of_char c div 16)"
    and "hex_value (hex_digits ! (of_char c mod 16)) = Some (of_char c mod 16)"
    by (simp_all add: hex_value_digit less_mult_imp_div_less)
  then show ?thesis
    by (simp add: percent_def Let_def)
qed

lemma unescape_plain: "c \<noteq> CHR ''%'' \<Longrightarrow> c \<noteq> CHR ''+'' \<Longrightarrow> unescape query (c # rest) = map_option ((#) c) (unescape query rest)"
  by (cases rest) auto

lemma unreserved_plain: "unreserved c \<Longrightarrow> c \<noteq> CHR ''%'' \<and> c \<noteq> CHR ''+'' \<and> c \<noteq> CHR ''*''"
  by (auto simp: unreserved_def in_range_def)

lemma QueryUnescape_QueryEscape: "QueryUnescape (QueryEscape s) = Some s"
  unfolding QueryUnescape_def QueryEscape_def
  by (induction s) (auto simp: unescape_percent unescape_plain unreserved_plain)

end
