(* ===== verification/Handlers.thy ===== *)
theory Handlers
  imports RodsScope Jobs Worker GoUrls
begin

text \<open>
  What the HTTP handlers share (\<open>internal/handlers\<close>: \<open>deps.go\<close>, \<open>validators.go\<close>, \<open>params.go\<close>,
  \<open>tasks.go\<close>).  A handler acts on the data store through request scopes (\<open>sv_env\<close>), on the
  async-tasks service (\<open>sv_board\<close>, whose operations are parameters) and on the worker
  (\<open>sv_runner\<close>); it answers an error or the JSON body of a 200.  Scope 0 is the caller's, scope 1
  the service account's, scope 2 the anonymous account's.  A request is what echo has decoded of it;
  \<open>rq_body\<close> is \<open>None\<close> when the body does not parse.
\<close>

section \<open>Requests and state\<close>

record 'b request =
  rq_query :: "(string \<times> string list) list"
  rq_params :: "(string \<times> string) list"
  rq_body :: "'b option"
  rq_escaped :: string   \<comment> \<open>the URL's path, still encoded\<close>
  rq_pattern :: string   \<comment> \<open>the route's pattern\<close>

definition QueryParam :: "'b request \<Rightarrow> string \<Rightarrow> string" where
  "QueryParam rq name = (case map_of (rq_query rq) name of Some (v # vs) \<Rightarrow> v | _ \<Rightarrow> [])"

definition Param :: "'b request \<Rightarrow> string \<Rightarrow> string" where
  "Param rq name = (case map_of (rq_params rq) name of Some v \<Rightarrow> v | None \<Rightarrow> [])"

record ('w, 'b) server =
  sv_env :: "'w env"
  sv_board :: 'b
  sv_runner :: runner

definition on_env :: "('w env, 'a) op \<Rightarrow> (('w, 'b) server, 'a) op" where
  "on_env m = (\<lambda>s. case m (sv_env s) of (r, e) \<Rightarrow> (r, s\<lparr>sv_env := e\<rparr>))"

definition on_board :: "('b, 'a) op \<Rightarrow> (('w, 'b) server, 'a) op" where
  "on_board m = (\<lambda>s. case m (sv_board s) of (r, b) \<Rightarrow> (r, s\<lparr>sv_board := b\<rparr>))"

definition on_runner :: "(runner, 'a) op \<Rightarrow> (('w, 'b) server, 'a) op" where
  "on_runner m = (\<lambda>s. case m (sv_runner s) of (r, u) \<Rightarrow> (r, s\<lparr>sv_runner := u\<rparr>))"

section \<open>deps.go\<close>

record ('w, 'b) handler_deps =
  hd_rods :: "'w deps"
  hd_Layout :: layout
  hd_MaxPathsInRequest :: int
  hd_PermsFilter :: "string list"
  hd_BadChars :: string
  hd_ProxyUser :: string
  hd_Tasks :: "(task_filter \<Rightarrow> ('b, task list) op) option"
  hd_Creator :: "(task \<Rightarrow> ('b, string) op) option"
  hd_Worker :: bool
  hd_InstanceID :: string
  hd_AdminUsers :: "string list"
  hd_AnonUser :: string
  hd_AnonBaseURL :: string
  hd_AnonMappings :: "(string \<times> string) list"
  hd_KifshareURL :: string
  hd_KifshareTemplate :: string

definition OpenScope :: "('w, 'b) handler_deps \<Rightarrow> nat \<Rightarrow> string \<Rightarrow> ('w env, unit) op" where
  "OpenScope d h user =
     wrapM (''opening a data store view for '' @ quoted user) (Open (hd_rods d) h user)"

definition OpenProxyScope :: "('w, 'b) handler_deps \<Rightarrow> ('w env, unit) op" where
  "OpenProxyScope d = OpenScope d 1 (hd_ProxyUser d)"

text \<open>Opening a scope and deferring its \<open>Close\<close>.\<close>

definition with_scope ::
    "('w, 'b) handler_deps \<Rightarrow> nat \<Rightarrow> string \<Rightarrow> (('w, 'b) server, 'a) op \<Rightarrow> (('w, 'b) server, 'a) op" where
  "with_scope d h user body = thenM (on_env (OpenScope d h user)) (finallyM body (on_env (Close h)))"

definition with_proxy ::
    "('w, 'b) handler_deps \<Rightarrow> (('w, 'b) server, 'a) op \<Rightarrow> (('w, 'b) server, 'a) op" where
  "with_proxy d body = thenM (on_env (OpenProxyScope d)) (finallyM body (on_env (Close 1)))"

definition strings_json :: "string list \<Rightarrow> json" where
  "strings_json xs = JArr (map JStr xs)"

definition schemaErrorM :: "string \<Rightarrow> ('s, 'a) op" where
  "schemaErrorM reason = failM (to_gerror (schemaError reason))"

definition RequireUnlocked :: "('w, 'b) handler_deps \<Rightarrow> string list \<Rightarrow> (('w, 'b) server, unit) op" where
  "RequireUnlocked d paths =
     (case hd_Tasks d of None \<Rightarrow> returnM () | Some ByFilter \<Rightarrow> on_board (Validate ByFilter paths))"

definition CheckPathCount :: "('w, 'b) handler_deps \<Rightarrow> nat \<Rightarrow> ('s, unit) op" where
  "CheckPathCount d n =
     (if hd_MaxPathsInRequest d > 0 \<and> int n > hd_MaxPathsInRequest d
      then failM (to_gerror (With ''limit'' (JInt (hd_MaxPathsInRequest d))
             (With ''count'' (JInt (int n)) (New ErrTooManyResults))))
      else returnM ())"

definition requireUser :: "'b request \<Rightarrow> ('s, string) op" where
  "requireUser rq =
     (let user = QueryParam rq ''user''
      in if blank user then schemaErrorM ''user must be a non-blank string'' else returnM user)"

definition requireKnownUser :: "'w deps \<Rightarrow> nat \<Rightarrow> string \<Rightarrow> bool \<Rightarrow> ('w env, unit) op" where
  "requireKnownUser deps h user plural =
     bindM (UserExists deps h user) (\<lambda>known.
       if known then returnM ()
       else if plural then failM (to_gerror (With ''users'' (strings_json [user]) (New ErrNotAUser)))
       else failM (to_gerror (With ''user'' (JStr user) (New ErrNotAUser))))"

definition bindBody :: "'b request \<Rightarrow> ('s, 'b) op" where
  "bindBody rq =
     (case rq_body rq of
        None \<Rightarrow> schemaErrorM ''the request body could not be parsed''
      | Some body \<Rightarrow> returnM body)"

text \<open>\<open>anonURL\<close>: the longest mapped prefix; the map lists each prefix once.\<close>

definition longest_prefix :: "string \<Rightarrow> string list \<Rightarrow> string" where
  "longest_prefix path known =
     foldl (\<lambda>best p. if length path > length p \<and> has_prefix path p \<and> length p > length best then p else best)
       [] known"

definition replace_plus :: "string \<Rightarrow> string" where
  "replace_plus s = concat (map (\<lambda>c. if c = CHR ''+'' then ''%20'' else [c]) s)"

definition anonURL :: "('w, 'b) handler_deps \<Rightarrow> string \<Rightarrow> string" where
  "anonURL d path =
     (let best = longest_prefix path (map fst (hd_AnonMappings d))
      in if best = [] then []
         else let mapped = the (map_of (hd_AnonMappings d) best) @ drop (length best) path
           in trim_right (hd_AnonBaseURL d) @ ''/'' @
              join_with ''/'' (map (\<lambda>seg. replace_plus (QueryEscape seg)) (split_on slash mapped)))"

fun permission_name :: "permission \<Rightarrow> string" where
  "permission_name PermissionNone = []"
| "permission_name PermissionRead = ''read''"
| "permission_name PermissionWrite = ''write''"
| "permission_name PermissionOwn = ''own''"

definition visiblePermissions :: "('w, 'b) handler_deps \<Rightarrow> acl_entry list \<Rightarrow> string \<Rightarrow> json list" where
  "visiblePermissions d acl user =
     map (\<lambda>e. JObj [(''user'', JStr (acl_user e)), (''permission'', JStr (permission_name (acl_permission e)))])
       (filter (\<lambda>e. \<not> (acl_user e = user \<or> List.member (hd_PermsFilter d) (acl_user e)) \<and>
          acl_permission e \<noteq> PermissionNone) acl)"

section \<open>params.go\<close>

definition boolParam :: "'b request \<Rightarrow> string \<Rightarrow> ('s, bool) op" where
  "boolParam rq name =
     (let raw = QueryParam rq name
      in if raw = [] then returnM False
         else if to_lower raw = ''true'' then returnM True
         else if to_lower raw = ''false'' then returnM False
         else schemaErrorM (name @ '' must be true or false''))"

definition requiredIntParam :: "'b request \<Rightarrow> string \<Rightarrow> ('s, int) op" where
  "requiredIntParam rq name =
     (let raw = trim_space (QueryParam rq name)
      in if raw = [] then schemaErrorM (name @ '' is required'')
         else case parse_int64 raw of
           None \<Rightarrow> schemaErrorM (name @ '' must be an integer'')
         | Some v \<Rightarrow> returnM v)"

definition presentParam :: "'b request \<Rightarrow> string \<Rightarrow> ('s, string) op" where
  "presentParam rq name =
     (case map_of (rq_query rq) name of
        Some (v # vs) \<Rightarrow> returnM v
      | _ \<Rightarrow> schemaErrorM (name @ '' is required''))"

section \<open>validators.go\<close>

text \<open>The two shapes of the validators: a batch lookup that collects what it refuses, and a lookup
  of one path.\<close>

definition refusing ::
    "'w deps \<Rightarrow> nat \<Rightarrow> string list \<Rightarrow> (stat option \<Rightarrow> bool) \<Rightarrow> (string list \<Rightarrow> api_error) \<Rightarrow> ('w env, unit) op" where
  "refusing deps h requested bad refusal =
     bindM (Stats deps h requested) (\<lambda>stats.
       let refused = filter (\<lambda>p. bad (map_of stats p)) requested
       in if refused = [] then returnM () else failM (to_gerror (refusal refused)))"

definition refusing_one ::
    "'w deps \<Rightarrow> nat \<Rightarrow> string \<Rightarrow> (stat \<Rightarrow> bool) \<Rightarrow> api_error \<Rightarrow> ('w env, unit) op" where
  "refusing_one deps h path bad refusal =
     bindM (Stat deps h path) (\<lambda>st. if bad st then failM (to_gerror refusal) else returnM ())"

definition with_paths :: "string list \<Rightarrow> api_error \<Rightarrow> api_error" where
  "with_paths ps = With ''paths'' (strings_json ps)"

definition with_path :: "string \<Rightarrow> api_error \<Rightarrow> api_error" where
  "with_path p = With ''path'' (JStr p)"

definition requireAllExist :: "'w deps \<Rightarrow> nat \<Rightarrow> string list \<Rightarrow> ('w env, unit) op" where
  "requireAllExist deps h requested =
     refusing deps h requested (\<lambda>st. case st of None \<Rightarrow> True | Some x \<Rightarrow> \<not> st_exists x)
       (\<lambda>missing. with_paths missing (New ErrDoesNotExist))"

definition requireNoneExist :: "'w deps \<Rightarrow> nat \<Rightarrow> string list \<Rightarrow> ('w env, unit) op" where
  "requireNoneExist deps h requested =
     refusing deps h requested (\<lambda>st. case st of None \<Rightarrow> False | Some x \<Rightarrow> st_exists x)
       (\<lambda>existing. with_paths existing (New ErrExists))"

definition requirePathExists :: "'w deps \<Rightarrow> nat \<Rightarrow> string \<Rightarrow> ('w env, unit) op" where
  "requirePathExists deps h path =
     refusing_one deps h path (\<lambda>st. \<not> st_exists st) (with_path path (New ErrDoesNotExist))"

definition requireIsDir :: "'w deps \<Rightarrow> nat \<Rightarrow> string \<Rightarrow> ('w env, unit) op" where
  "requireIsDir deps h path =
     refusing_one deps h path (\<lambda>st. st_type st \<noteq> ObjectTypeDir) (with_path path (New ErrNotAFolder))"

definition requireWriteable :: "'w deps \<Rightarrow> nat \<Rightarrow> string \<Rightarrow> ('w env, unit) op" where
  "requireWriteable deps h path =
     refusing_one deps h path (\<lambda>st. \<not> Permits (st_permission st) PermissionWrite)
       (with_path path (New ErrNotWriteable))"

definition requireOwnsAll :: "'w deps \<Rightarrow> nat \<Rightarrow> string \<Rightarrow> string list \<Rightarrow> ('w env, unit) op" where
  "requireOwnsAll deps h user requested =
     refusing deps h requested (\<lambda>st. case st of None \<Rightarrow> True | Some x \<Rightarrow> st_permission x \<noteq> PermissionOwn)
       (\<lambda>unowned. with_paths unowned (With ''user'' (JStr user) (New ErrNotOwner)))"

definition requireAllWriteable :: "'w deps \<Rightarrow> nat \<Rightarrow> string list \<Rightarrow> ('w env, unit) op" where
  "requireAllWriteable deps h requested =
     refusing deps h requested
       (\<lambda>st. case st of None \<Rightarrow> True | Some x \<Rightarrow> \<not> Permits (st_permission x) PermissionWrite)
       (\<lambda>refused. with_paths refused (New ErrNotWriteable))"

definition requireAllAreFiles :: "'w deps \<Rightarrow> nat \<Rightarrow> string list \<Rightarrow> ('w env, unit) op" where
  "requireAllAreFiles deps h requested =
     refusing deps h requested (\<lambda>st. case st of None \<Rightarrow> True | Some x \<Rightarrow> st_type x \<noteq> ObjectTypeFile)
       (\<lambda>refused. With ''path'' (strings_json refused) (New ErrNotAFile))"

definition requireOwns :: "'w deps \<Rightarrow> nat \<Rightarrow> string \<Rightarrow> string \<Rightarrow> ('w env, unit) op" where
  "requireOwns deps h user path =
     refusing_one deps h path (\<lambda>st. st_permission st \<noteq> PermissionOwn)
       (with_path path (With ''user'' (JStr user) (New ErrNotOwner)))"

definition requireExistsAndOwned :: "'w deps \<Rightarrow> nat \<Rightarrow> nat \<Rightarrow> string \<Rightarrow> string \<Rightarrow> ('w env, unit) op" where
  "requireExistsAndOwned deps admin h user path =
     thenM (refusing_one deps admin path (\<lambda>st. \<not> st_exists st) (with_path path (New ErrDoesNotExist)))
       (requireOwns deps h user path)"

definition requireDoesNotExist :: "'w deps \<Rightarrow> nat \<Rightarrow> string \<Rightarrow> ('w env, unit) op" where
  "requireDoesNotExist deps h path = refusing_one deps h path st_exists (with_path path (New ErrExists))"

definition resolveID :: "'w deps \<Rightarrow> nat \<Rightarrow> string \<Rightarrow> ('w env, string) op" where
  "resolveID deps h i =
     bindM (PathsForUUIDs deps h [i]) (\<lambda>found.
       case map_of found i of
         None \<Rightarrow> failM (to_gerror (With ''uuid'' (JStr i) (New ErrDoesNotExist)))
       | Some path \<Rightarrow> returnM path)"

definition requireRodsExists :: "'w deps \<Rightarrow> nat \<Rightarrow> string \<Rightarrow> ('w env, unit) op" where
  "requireRodsExists deps h path =
     refusing_one deps h path (\<lambda>st. \<not> st_exists st) (with_paths [path] (New ErrDoesNotExist))"

definition requireRodsIsFile :: "'w deps \<Rightarrow> nat \<Rightarrow> string \<Rightarrow> ('w env, unit) op" where
  "requireRodsIsFile deps h path =
     refusing_one deps h path (\<lambda>st. st_type st \<noteq> ObjectTypeFile) (with_paths [path] (New ErrNotAFile))"

definition requireRodsReadable :: "'w deps \<Rightarrow> nat \<Rightarrow> string \<Rightarrow> string \<Rightarrow> ('w env, unit) op" where
  "requireRodsReadable deps h user path =
     refusing_one deps h path (\<lambda>st. \<not> Permits (st_permission st) PermissionRead)
       (With ''user'' (JStr user) (with_paths [path] (New ErrNotReadable)))"

definition requirePathReadable :: "'w deps \<Rightarrow> nat \<Rightarrow> string \<Rightarrow> string \<Rightarrow> ('w env, unit) op" where
  "requirePathReadable deps h user path =
     refusing_one deps h path (\<lambda>st. \<not> Permits (st_permission st) PermissionRead)
       (With ''user'' (JStr user) (with_path path (New ErrNotReadable)))"

text \<open>\<open>requireAllReadable\<close> is in \<open>tickets.go\<close>.\<close>

definition requireAllReadable :: "'w deps \<Rightarrow> nat \<Rightarrow> string list \<Rightarrow> ('w env, unit) op" where
  "requireAllReadable deps h requested =
     refusing deps h requested
       (\<lambda>st. case st of None \<Rightarrow> True | Some x \<Rightarrow> \<not> Permits (st_permission x) PermissionRead)
       (\<lambda>refused. With ''path'' (strings_json refused) (New ErrNotReadable))"

section \<open>tasks.go\<close>

definition new_task :: "string \<Rightarrow> string \<Rightarrow> string \<Rightarrow> (string \<times> json) list \<Rightarrow> task" where
  "new_task inst taskType user data =
     \<lparr>task_id = [], task_type = taskType, task_user = user,
      task_data = (''instance-id'', JStr inst) # data, task_ended = False,
      task_behaviors = [StallBehavior],
      task_statuses = [\<lparr>status_name = StatusRegistered, status_detail = ''['' @ inst @ '']''\<rparr>]\<rparr>"

definition unavailable :: "string \<Rightarrow> gerror \<Rightarrow> gerror" where
  "unavailable reason cause =
     to_gerror (WithCause cause (With ''reason'' (JStr reason) (New ErrUnavailable)))"

definition startTask ::
    "('w, 'b) handler_deps \<Rightarrow> string \<Rightarrow> string \<Rightarrow> (string \<times> json) list \<Rightarrow> (('w, 'b) server, string) op" where
  "startTask d taskType user data = (\<lambda>s.
     case hd_Creator d of
       None \<Rightarrow> (Inl (Plain (''no async task machinery is configured, so '' @ taskType @ '' cannot be started'')), s)
     | Some create \<Rightarrow>
         if \<not> hd_Worker d then
           (Inl (Plain (''no async task machinery is configured, so '' @ taskType @ '' cannot be started'')), s)
         else (case on_board (create (new_task (hd_InstanceID d) taskType user data)) s of
           (Inl err, s') \<Rightarrow>
             (Inl (unavailable (''could not record the '' @ taskType @ '' task'')
                (Wrap (''recording a '' @ taskType @ '' task'') err)), s')
         | (Inr taskID, s') \<Rightarrow>
             (case on_runner (Start taskID taskType) s' of
                (Inl err, s'') \<Rightarrow>
                  (Inl (unavailable (''could not start the '' @ taskType @ '' job; retry the request'')
                     (Wrap (''starting the '' @ taskType @ '' job for '' @ taskID) err)), s'')
              | (Inr _, s'') \<Rightarrow> (Inr taskID, s''))))"

end
