(* ===== verification/TaskHandlers.thy ===== *)
theory TaskHandlers
  imports Handlers
begin

text \<open>
  The handlers that start a task: \<open>rename.go\<close> (moves and renames) and \<open>trash.go\<close> (deletions, the
  emptying of a trash, restores) of \<open>internal/handlers\<close>.
\<close>

definition trimAll :: "string list \<Rightarrow> string list" where
  "trimAll xs = map trim_right xs"

definition task_id_field :: "string \<Rightarrow> (string \<times> json) list" where
  "task_id_field taskID = (if taskID = [] then [] else [(''async-task-id'', JStr taskID)])"

section \<open>rename.go\<close>

record move_request =
  mq_sources :: "string list"
  mq_dest :: string

definition multiMoveResponse :: "string \<Rightarrow> string list \<Rightarrow> string \<Rightarrow> string \<Rightarrow> json" where
  "multiMoveResponse user sources dest taskID =
     JObj ([(''user'', JStr user), (''sources'', strings_json sources), (''dest'', JStr dest)] @ task_id_field taskID)"

definition moveResponse :: "string \<Rightarrow> string \<Rightarrow> string \<Rightarrow> string \<Rightarrow> json" where
  "moveResponse user source dest taskID =
     JObj ([(''user'', JStr user), (''source'', JStr source), (''dest'', JStr dest)] @ task_id_field taskID)"

definition move_data :: "string list \<Rightarrow> string \<Rightarrow> (string \<times> json) list" where
  "move_data sources dest = [(''sources'', strings_json sources), (''destination'', JStr dest)]"

definition startMove ::
    "('w, 'b) handler_deps \<Rightarrow> string \<Rightarrow> string list \<Rightarrow> string \<Rightarrow> (('w, 'b) server, string) op" where
  "startMove d user sources dest =
     (let r = hd_rods d; destinations = DestinationsUnder dest sources in
      thenM (RequireUnlocked d (sources @ destinations))
     (thenM (on_env (requireKnownUser r 0 user False))
     (thenM (on_env (requireAllExist r 0 sources))
     (thenM (on_env (requireAllExist r 0 [dest]))
     (thenM (on_env (requireIsDir r 0 dest))
     (thenM (on_env (requireOwnsAll r 0 user sources))
     (thenM (on_env (requireWriteable r 0 dest))
     (thenM (on_env (requireNoneExist r 0 destinations))
       (startTask d TypeMove user (move_data sources dest))))))))))"

definition rename_data :: "string \<Rightarrow> string \<Rightarrow> (string \<times> json) list" where
  "rename_data source destination = [(''source'', JStr source), (''destination'', JStr destination)]"

definition startRename ::
    "('w, 'b) handler_deps \<Rightarrow> string \<Rightarrow> string \<Rightarrow> string \<Rightarrow> (('w, 'b) server, string) op" where
  "startRename d user source destination =
     (let r = hd_rods d; destinationParent = Dir destination in
      if source = destination then returnM []
      else
      thenM (RequireUnlocked d [source, destination])
     (thenM (on_env (requireKnownUser r 0 user False))
     (thenM (on_env (requireAllExist r 0 [source, destinationParent]))
     (thenM (on_env (requireIsDir r 0 destinationParent))
     (thenM (on_env (requireOwns r 0 user source))
     (thenM (if Dir source \<noteq> destinationParent then on_env (requireWriteable r 0 destinationParent)
             else returnM ())
     (thenM (on_env (requireDoesNotExist r 0 destination))
       (startTask d TypeRename user (rename_data source destination)))))))))"

definition handle_Move :: "('w, 'b) handler_deps \<Rightarrow> move_request request \<Rightarrow> (('w, 'b) server, json) op" where
  "handle_Move d rq =
     bindM (requireUser rq) (\<lambda>user.
     bindM (bindBody rq) (\<lambda>body.
       if blank (mq_dest body) then schemaErrorM ''dest must be a non-blank string''
       else let sources = trimAll (mq_sources body); dest = trim_right (mq_dest body)
         in with_scope d 0 user (bindM (startMove d user sources dest)
              (\<lambda>taskID. returnM (multiMoveResponse user sources dest taskID)))))"

text \<open>\<open>moveOneByID\<close>; the two routes differ in the name of the field they read and in how the
  destination is built of it.\<close>

definition moveOneByID ::
    "('w, 'b) handler_deps \<Rightarrow> string \<Rightarrow> (string \<Rightarrow> string \<Rightarrow> string) \<Rightarrow> string request \<Rightarrow> (('w, 'b) server, json) op" where
  "moveOneByID d field destinationOf rq =
     bindM (requireUser rq) (\<lambda>user.
     bindM (bindBody rq) (\<lambda>target.
       if blank target then schemaErrorM (field @ '' must be a non-blank string'')
       else with_scope d 0 user
        (thenM (on_env (requireKnownUser (hd_rods d) 0 user False))
         (bindM (on_env (resolveID (hd_rods d) 0 (Param rq ''data-id''))) (\<lambda>path.
            let source = trim_right path; destination = trim_right (destinationOf source target)
            in bindM (startRename d user source destination)
                 (\<lambda>taskID. returnM (moveResponse user source destination taskID)))))))"

definition RenameByID :: "('w, 'b) handler_deps \<Rightarrow> string request \<Rightarrow> (('w, 'b) server, json) op" where
  "RenameByID d = moveOneByID d ''filename'' (\<lambda>source name. Join [Dir source, name])"

definition MoveByID :: "('w, 'b) handler_deps \<Rightarrow> string request \<Rightarrow> (('w, 'b) server, json) op" where
  "MoveByID d = moveOneByID d ''dirname'' (\<lambda>source dirname. Join [dirname, Base source])"

definition MoveChildrenByID :: "('w, 'b) handler_deps \<Rightarrow> string request \<Rightarrow> (('w, 'b) server, json) op" where
  "MoveChildrenByID d rq =
     bindM (requireUser rq) (\<lambda>user.
     bindM (bindBody rq) (\<lambda>dirname.
       if blank dirname then schemaErrorM ''dirname must be a non-blank string''
       else let dest = trim_right dirname in with_scope d 0 user
        (bindM (on_env (resolveID (hd_rods d) 0 (Param rq ''data-id''))) (\<lambda>path.
           let source = trim_right path in
           thenM (on_env (requireIsDir (hd_rods d) 0 source))
          (bindM (on_env (Children (hd_rods d) 0 source)) (\<lambda>sources.
           bindM (startMove d user sources dest)
             (\<lambda>taskID. returnM (multiMoveResponse user sources dest taskID))))))))"

section \<open>trash.go\<close>

text \<open>A Go map from paths as an association list with one entry a key, in the order of the first
  assignment; \<open>assoc_set\<close> is the assignment.\<close>

fun assoc_set :: "string \<Rightarrow> 'a \<Rightarrow> (string \<times> 'a) list \<Rightarrow> (string \<times> 'a) list" where
  "assoc_set k v [] = [(k, v)]"
| "assoc_set k v ((k', v') # m) = (if k' = k then (k, v) # m else (k', v') # assoc_set k v m)"

definition strings_map_json :: "(string \<times> string) list \<Rightarrow> json" where
  "strings_map_json m = JObj (map (\<lambda>(k, v). (k, JStr v)) m)"

definition trashResponse :: "string list \<Rightarrow> (string \<times> string) list \<Rightarrow> string \<Rightarrow> json" where
  "trashResponse paths trashPaths taskID =
     JObj ([(''paths'', strings_json paths), (''trash-paths'', strings_map_json trashPaths)] @ task_id_field taskID)"

definition emptyTrashResponse :: "string \<Rightarrow> string list \<Rightarrow> string \<Rightarrow> json" where
  "emptyTrashResponse trash paths taskID =
     JObj ([(''trash'', JStr trash), (''paths'', strings_json paths)] @ task_id_field taskID)"

definition plan_json :: "restore_plan \<Rightarrow> json" where
  "plan_json p = JObj [(''restored-path'', JStr (RestoredPath p)), (''partial-restore'', JBool (PartialRestore p))]"

definition plans_json :: "(string \<times> restore_plan) list \<Rightarrow> json" where
  "plans_json m = JObj (map (\<lambda>(k, p). (k, plan_json p)) m)"

definition restoreResponse :: "(string \<times> restore_plan) list \<Rightarrow> string \<Rightarrow> json" where
  "restoreResponse plans taskID = JObj ((''restored'', plans_json plans) # task_id_field taskID)"

definition requireNotHome :: "('w, 'b) handler_deps \<Rightarrow> string \<Rightarrow> string list \<Rightarrow> ('s, unit) op" where
  "requireNotHome d user requested =
     (let refused = filter (\<lambda>p. trim_right p = UserHome (hd_Layout d) user) requested
      in if refused = [] then returnM () else failM (to_gerror (with_paths refused (New ErrNotAuthorized))))"

text \<open>Where everything goes; \<open>random i\<close> is what the random source answers at the i-th path.\<close>

primrec trash_names ::
    "(nat \<Rightarrow> gerror + 8 word list) \<Rightarrow> layout \<Rightarrow> string \<Rightarrow> nat \<Rightarrow> (string \<times> string) list \<Rightarrow> string list
      \<Rightarrow> gerror + (string \<times> string) list" where
  "trash_names random l user i m [] = Inr m"
| "trash_names random l user i m (path # rest) =
     (if IsWithin path (UserTrash l user) then trash_names random l user (Suc i) m rest
      else case TrashPathFor (random i) l user path of
        Inl e \<Rightarrow> Inl e
      | Inr trashPath \<Rightarrow> trash_names random l user (Suc i) (assoc_set path trashPath m) rest)"

definition delete_data :: "string list \<Rightarrow> (string \<times> string) list \<Rightarrow> (string \<times> json) list" where
  "delete_data requested trashPaths =
     [(''paths'', strings_json requested), (''trash-paths'', strings_map_json trashPaths)]"

definition deletePaths ::
    "(nat \<Rightarrow> gerror + 8 word list) \<Rightarrow> ('w, 'b) handler_deps \<Rightarrow> string \<Rightarrow> string list \<Rightarrow> (('w, 'b) server, json) op" where
  "deletePaths random d user requested =
     thenM (on_env (requireKnownUser (hd_rods d) 0 user False))
     (with_proxy d
      (thenM (on_env (requireAllExist (hd_rods d) 1 requested))
      (thenM (on_env (requireOwnsAll (hd_rods d) 0 user requested))
      (thenM (requireNotHome d user requested)
      (bindM (ofM (trash_names random (hd_Layout d) user 0 [] requested)) (\<lambda>trashPaths.
       thenM (RequireUnlocked d (requested @ map snd trashPaths))
      (bindM (startTask d TypeDelete user (delete_data requested trashPaths)) (\<lambda>taskID.
         returnM (trashResponse requested trashPaths taskID)))))))))"

definition handle_Delete ::
    "(nat \<Rightarrow> gerror + 8 word list) \<Rightarrow> ('w, 'b) handler_deps \<Rightarrow> string list request \<Rightarrow> (('w, 'b) server, json) op" where
  "handle_Delete random d rq =
     bindM (requireUser rq) (\<lambda>user.
     bindM (bindBody rq) (\<lambda>paths.
       if paths = [] then schemaErrorM ''paths must not be empty''
       else with_scope d 0 user (deletePaths random d user (trimAll paths))))"

definition DeleteByID ::
    "(nat \<Rightarrow> gerror + 8 word list) \<Rightarrow> ('w, 'b) handler_deps \<Rightarrow> unit request \<Rightarrow> (('w, 'b) server, json) op" where
  "DeleteByID random d rq =
     bindM (requireUser rq) (\<lambda>user. with_scope d 0 user
       (bindM (on_env (resolveID (hd_rods d) 0 (Param rq ''data-id''))) (\<lambda>path.
          deletePaths random d user [trim_right path])))"

definition DeleteChildrenByID ::
    "(nat \<Rightarrow> gerror + 8 word list) \<Rightarrow> ('w, 'b) handler_deps \<Rightarrow> unit request \<Rightarrow> (('w, 'b) server, json) op" where
  "DeleteChildrenByID random d rq =
     bindM (requireUser rq) (\<lambda>user. with_scope d 0 user
       (bindM (on_env (resolveID (hd_rods d) 0 (Param rq ''data-id''))) (\<lambda>path.
          thenM (on_env (requireIsDir (hd_rods d) 0 (trim_right path)))
         (bindM (on_env (Children (hd_rods d) 0 (trim_right path))) (\<lambda>children.
            deletePaths random d user children)))))"

definition empty_data :: "string list \<Rightarrow> (string \<times> json) list" where
  "empty_data contents = [(''trash-paths'', strings_json contents)]"

definition handle_EmptyTrash :: "('w, 'b) handler_deps \<Rightarrow> unit request \<Rightarrow> (('w, 'b) server, json) op" where
  "handle_EmptyTrash d rq =
     bindM (requireUser rq) (\<lambda>user. with_scope d 0 user
       (thenM (on_env (requireKnownUser (hd_rods d) 0 user False))
       (let trash = UserTrash (hd_Layout d) user in
        bindM (on_env (Children (hd_rods d) 0 trash)) (\<lambda>contents.
        thenM (RequireUnlocked d contents)
       (bindM (startTask d TypeDeleteTrash user (empty_data contents)) (\<lambda>taskID.
          returnM (emptyTrashResponse trash contents taskID)))))))"

text \<open>A restore plans every path before it starts; planning a path may never end.\<close>

definition scope_restores :: "'w deps \<Rightarrow> nat \<Rightarrow> 'w env restore_store" where
  "scope_restores deps h = \<lparr>rs_Stat = Stat deps h, rs_AVUs = AVUs deps h\<rparr>"

definition on_env_P :: "('w env, 'a) pop \<Rightarrow> (('w, 'b) server, 'a) pop" where
  "on_env_P m = (\<lambda>s. map_option (\<lambda>(r, e). (r, s\<lparr>sv_env := e\<rparr>)) (m (sv_env s)))"

primrec planAll ::
    "('w, 'b) handler_deps \<Rightarrow> string \<Rightarrow> (string \<times> restore_plan) list \<Rightarrow> string list \<Rightarrow> string list
      \<Rightarrow> (('w, 'b) server, (string \<times> restore_plan) list \<times> string list) pop" where
  "planAll d user plans destinations [] = total (returnM (plans, destinations))"
| "planAll d user plans destinations (path # rest) =
     bindP (on_env_P (PlanRestore (scope_restores (hd_rods d) 0) (scope_restores (hd_rods d) 1) (hd_Layout d) user path))
       (\<lambda>plan. planAll d user (assoc_set path plan plans) (destinations @ [RestoredPath plan]) rest)"

definition restore_data :: "string list \<Rightarrow> (string \<times> restore_plan) list \<Rightarrow> (string \<times> json) list" where
  "restore_data requested plans = [(''paths'', strings_json requested), (''restoration-paths'', plans_json plans)]"

definition finallyP :: "('s, 'a) pop \<Rightarrow> ('s, 'b) op \<Rightarrow> ('s, 'a) pop" where
  "finallyP m k = (\<lambda>s. map_option (\<lambda>(r, s'). (r, snd (k s'))) (m s))"

definition restore_in_scope ::
    "('w, 'b) handler_deps \<Rightarrow> string \<Rightarrow> string list \<Rightarrow> (('w, 'b) server, json) pop" where
  "restore_in_scope d user asked =
     bindP (total (if asked = [] then on_env (Children (hd_rods d) 0 (UserTrash (hd_Layout d) user))
                   else returnM asked)) (\<lambda>requested.
       if requested = [] then total (returnM (restoreResponse [] []))
       else bindP (total (on_env (requireKnownUser (hd_rods d) 0 user False))) (\<lambda>_.
            bindP (total (on_env (OpenProxyScope d))) (\<lambda>_. finallyP
             (bindP (total (on_env (requireAllExist (hd_rods d) 1 requested))) (\<lambda>_.
              bindP (total (on_env (requireAllWriteable (hd_rods d) 0 requested))) (\<lambda>_.
              bindP (planAll d user [] [] requested) (\<lambda>(plans, destinations).
              bindP (total (RequireUnlocked d (requested @ destinations))) (\<lambda>_.
              bindP (total (startTask d TypeRestore user (restore_data requested plans))) (\<lambda>taskID.
                total (returnM (restoreResponse plans taskID))))))))
             (on_env (Close 1)))))"

definition handle_Restore :: "('w, 'b) handler_deps \<Rightarrow> string list request \<Rightarrow> (('w, 'b) server, json) pop" where
  "handle_Restore d rq =
     bindP (total (requireUser rq)) (\<lambda>user.
     bindP (total (bindBody rq)) (\<lambda>paths.
     bindP (total (on_env (OpenScope d 0 user))) (\<lambda>_.
       finallyP (restore_in_scope d user (trimAll paths)) (on_env (Close 0)))))"

end
