(* ===== verification/TaskLocks.thy ===== *)
theory TaskLocks
  imports TaskHandlers MemStore
begin

text \<open>
  The lock protocol as a whole: requests check their paths against the unfinished tasks and record a
  task before its job starts (\<open>TaskHandlers\<close>), and what an unfinished task holds is read from its
  own record (\<open>Locks\<close>).  Served one after another, requests never leave two unfinished tasks
  holding overlapping paths; and a job reads from its task what the handler wrote there.
\<close>

section \<open>The async-tasks service\<close>

text \<open>\<open>held\<close> are the unfinished tasks.  A filter that asks for unfinished tasks of the locking types
  answers all of them; creating a task records it, also perhaps when the answer is lost.\<close>

locale task_service =
  fixes ByFilter :: "task_filter \<Rightarrow> ('b, task list) op" and create :: "task \<Rightarrow> ('b, string) op"
    and held :: "'b \<Rightarrow> task list"
  assumes filter_frame: "ByFilter f b = (r, b') \<Longrightarrow> held b' = held b"
    and filter_complete: "ByFilter lock_filter b = (Inr ts, b') \<Longrightarrow> t \<in> set (held b) \<Longrightarrow>
      task_type t \<in> set lockingTypes \<Longrightarrow> t \<in> set ts"
    and create_adds: "create t b = (r', b') \<Longrightarrow>
      held b' = held b \<or> (\<exists>u. held b' = u # held b \<and> task_type u = task_type t \<and> task_data u = task_data t)"

section \<open>Exclusive holders\<close>

definition apart :: "task \<Rightarrow> task \<Rightarrow> bool" where
  "apart t u \<longleftrightarrow> (\<forall>p \<in> set (pathsOf t). \<forall>q \<in> set (pathsOf u). \<not> Conflicts p q)"

fun exclusive :: "task list \<Rightarrow> bool" where
  "exclusive [] = True"
| "exclusive (t # ts) \<longleftrightarrow> (\<forall>u \<in> set ts. apart t u) \<and> exclusive ts"

lemma exclusive_subseq: "subseq us ts \<Longrightarrow> exclusive ts \<Longrightarrow> exclusive us"
proof (induction ts arbitrary: us)
  case (Cons t ts)
  show ?case
  proof (cases us)
    case us: (Cons u us')
    show ?thesis
    proof (cases "u = t \<and> subseq us' ts")
      case True
      then have "set us' \<subseteq> set ts"
        by (auto elim: list_emb_set)
      then show ?thesis
        using us True Cons.prems(2) Cons.IH [of us'] by auto
    next
      case False
      then have "subseq us ts"
        using us Cons.prems(1) by (metis subseq_Cons2_iff)
      then show ?thesis
        using Cons.prems(2) Cons.IH [of us] by simp
    qed
  qed simp
qed (auto dest: list_emb_Nil2)

lemma pathsOf_cong: "task_type t = task_type u \<Longrightarrow> task_data t = task_data u \<Longrightarrow> pathsOf t = pathsOf u"
  by (simp only: pathsOf_def)

lemma pathsOf_locking: "pathsOf t \<noteq> [] \<Longrightarrow> task_type t \<in> set lockingTypes"
  by (rule ccontr) (simp add: pathsOf_def lockingTypes_def)

section \<open>What a handler keeps\<close>

lemma hoare_on_env: "hoare (\<lambda>s. P (sv_board s)) (on_env m) (\<lambda>_ s. P (sv_board s)) (\<lambda>s. P (sv_board s))"
  by (rule hoareI) (auto simp: on_env_def split: prod.splits)

lemma hoare_on_runner: "hoare (\<lambda>s. P (sv_board s)) (on_runner m) (\<lambda>_ s. P (sv_board s)) (\<lambda>s. P (sv_board s))"
  by (rule hoareI) (auto simp: on_runner_def split: prod.splits)

lemma hoare_finallyM:
  assumes "hoare P m Q E" "\<And>a. hoare (Q a) k (\<lambda>_. Q a) (Q a)" "hoare E k (\<lambda>_. E) E"
  shows "hoare P (finallyM m k) Q E"
proof (rule hoareI)
  fix s a s'
  assume "P s" "finallyM m k s = (Inr a, s')"
  then obtain t where "m s = (Inr a, t)" "s' = snd (k t)"
    by (auto simp: finallyM_def split: prod.splits)
  with assms(1,2) \<open>P s\<close> show "Q a s'"
    by (metis hoareD hoare_exit prod.collapse)
next
  fix s e s'
  assume "P s" "finallyM m k s = (Inl e, s')"
  then obtain t where "m s = (Inl e, t)" "s' = snd (k t)"
    by (auto simp: finallyM_def split: prod.splits)
  with assms(1,3) \<open>P s\<close> show "E s'"
    by (metis hoareD_err hoare_exit prod.collapse)
qed

text \<open>\<open>keeping P m\<close>: a property of the service's state survives every exit.\<close>

definition keeping :: "('b \<Rightarrow> bool) \<Rightarrow> (('w, 'b) server, 'a) op \<Rightarrow> bool" where
  "keeping P m \<longleftrightarrow> hoare (\<lambda>s. P (sv_board s)) m (\<lambda>_ s. P (sv_board s)) (\<lambda>s. P (sv_board s))"

named_theorems keeping_intros

lemma keeping_on_env [keeping_intros]: "keeping P (on_env m)"
  unfolding keeping_def by (rule hoare_on_env)

lemma keeping_returnM [keeping_intros]: "keeping P (returnM a)"
  unfolding keeping_def by (rule hoare_returnM)

lemma keeping_failM [keeping_intros]: "keeping P (failM e)"
  unfolding keeping_def by (rule hoare_failM)

lemma keeping_ofM [keeping_intros]: "keeping P (ofM r)"
  unfolding keeping_def by (rule hoareI) auto

lemma keeping_bindM [keeping_intros]:
  "keeping P m \<Longrightarrow> (\<And>a. keeping P (f a)) \<Longrightarrow> keeping P (bindM m f)"
  unfolding keeping_def by (rule hoare_bindM_inv)

lemma keeping_thenM [keeping_intros]: "keeping P m \<Longrightarrow> keeping P k \<Longrightarrow> keeping P (thenM m k)"
  unfolding thenM_def by (rule keeping_bindM)

lemma keeping_if [keeping_intros]: "(b \<Longrightarrow> keeping P m) \<Longrightarrow> (\<not> b \<Longrightarrow> keeping P k) \<Longrightarrow> keeping P (if b then m else k)"
  by simp

lemma keeping_finallyM [keeping_intros]: "keeping P m \<Longrightarrow> keeping P (finallyM m (on_env k))"
  unfolding keeping_def by (rule hoare_finallyM) (auto intro: hoare_on_env)

lemma keeping_with_scope [keeping_intros]: "keeping P m \<Longrightarrow> keeping P (with_scope d h user m)"
  unfolding with_scope_def by (intro keeping_intros)

lemma keeping_with_proxy [keeping_intros]: "keeping P m \<Longrightarrow> keeping P (with_proxy d m)"
  unfolding with_proxy_def by (intro keeping_intros)

lemma keeping_requireUser [keeping_intros]: "keeping P (requireUser rq)"
  unfolding requireUser_def Let_def schemaErrorM_def by (intro keeping_intros)

lemma keeping_bindBody [keeping_intros]: "keeping P (bindBody rq)"
  unfolding bindBody_def schemaErrorM_def by (auto split: option.splits intro: keeping_intros)

lemma keeping_schemaErrorM [keeping_intros]: "keeping P (schemaErrorM t)"
  unfolding schemaErrorM_def by (rule keeping_failM)

lemma keeping_requireNotHome [keeping_intros]: "keeping P (requireNotHome d user ps)"
  unfolding requireNotHome_def Let_def by (intro keeping_intros)

text \<open>The same for operations that may not end.\<close>

definition keepingP :: "('b \<Rightarrow> bool) \<Rightarrow> (('w, 'b) server, 'a) pop \<Rightarrow> bool" where
  "keepingP P m \<longleftrightarrow> (\<forall>s r s'. P (sv_board s) \<longrightarrow> m s = Some (r, s') \<longrightarrow> P (sv_board s'))"

lemma keepingP_total [keeping_intros]: "keeping P m \<Longrightarrow> keepingP P (total m)"
  unfolding keeping_def keepingP_def total_def by (auto dest: hoare_exit)

lemma keepingP_bindP [keeping_intros]:
  assumes "keepingP P m" "\<And>a. keepingP P (f a)"
  shows "keepingP P (bindP m f)"
  unfolding keepingP_def
proof (intro allI impI)
  fix s r s'
  assume "P (sv_board s)" and run: "bindP m f s = Some (r, s')"
  then obtain q t where m: "m s = Some (q, t)"
    by (auto simp: bindP_def split: option.splits)
  with assms(1) \<open>P (sv_board s)\<close> have t: "P (sv_board t)"
    unfolding keepingP_def by blast
  show "P (sv_board s')"
  proof (cases q)
    case (Inl e)
    with run m t show ?thesis by (simp add: bindP_def)
  next
    case (Inr a)
    with run m have "f a t = Some (r, s')" by (simp add: bindP_def)
    with assms(2) t show ?thesis unfolding keepingP_def by blast
  qed
qed

lemma sv_board_on_env [simp]: "sv_board (snd (on_env m s)) = sv_board s"
  by (simp add: on_env_def split: prod.split)

lemma keepingP_finallyP [keeping_intros]: "keepingP P m \<Longrightarrow> keepingP P (finallyP m (on_env k))"
  unfolding keepingP_def finallyP_def by auto

lemma keepingP_on_env_P [keeping_intros]: "keepingP P (on_env_P m)"
  unfolding keepingP_def on_env_P_def by auto

lemma keepingP_if [keeping_intros]: "(b \<Longrightarrow> keepingP P m) \<Longrightarrow> (\<not> b \<Longrightarrow> keepingP P k) \<Longrightarrow> keepingP P (if b then m else k)"
  by simp

lemma keepingP_planAll [keeping_intros]: "keepingP P (planAll d user plans destinations rest)"
  by (induction rest arbitrary: plans destinations) (auto intro!: keeping_intros)

section \<open>What the tasks of the handlers hold\<close>

lemma map_of_assoc_set: "map_of (assoc_set k v m) = (map_of m)(k \<mapsto> v)"
  by (induction m rule: assoc_set.induct) auto

lemma keys_assoc_set: "fst ` set (assoc_set k v m) = insert k (fst ` set m)"
  by (induction k v m rule: assoc_set.induct) auto

lemma distinct_assoc_set: "distinct (map fst m) \<Longrightarrow> distinct (map fst (assoc_set k v m))"
proof (induction k v m rule: assoc_set.induct)
  case (2 k v k' v' m)
  then show ?case using keys_assoc_set [of k v m] by auto
qed simp

lemma in_assoc_set: "x \<in> set (assoc_set k v m) \<Longrightarrow> x = (k, v) \<or> x \<in> set m"
  by (induction k v m rule: assoc_set.induct) (auto split: if_splits)

lemma obj_get_data [simp]:
  "obj_get ((k, v) # m) k' = (if k = k' then Some v else obj_get m k')" "obj_get [] k = None"
  by (auto simp: obj_get_def)

lemma map_of_map_pairs: "map_of (map (\<lambda>(k, v). (k, f v)) m) k = map_option f (map_of m k)"
  by (induction m) auto

lemma fst_map_pairs: "map fst (map (\<lambda>(k, v). (k, f v)) m) = map fst m"
  by (induction m) auto

lemma obj_entries_distinct: "distinct (map fst m) \<Longrightarrow> obj_entries m = m"
  by (auto simp: obj_entries_def distinct_remdups_id comp_def intro!: map_idI)

lemma in_obj_entries: "(k, v) \<in> set (obj_entries m) \<Longrightarrow> map_of m k = Some v"
  by (auto simp: obj_entries_def map_of_eq_None_iff split: option.splits)
     (metis domI domIff fst_conv image_eqI map_of_eq_None_iff option.collapse)

lemma in_obj_entries_map:
  "(k, w) \<in> set (obj_entries (map (\<lambda>(k, v). (k, f v)) m)) \<Longrightarrow> \<exists>v. (k, v) \<in> set m \<and> w = f v"
  by (drule in_obj_entries) (auto simp: map_of_map_pairs dest: map_of_SomeD)

lemma valuesOf_map:
  assumes "obj_get data key = Some (strings_map_json m)"
  shows "set (valuesOf data key) \<subseteq> snd ` set m"
proof
  fix x assume "x \<in> set (valuesOf data key)"
  then obtain k w where "(k, w) \<in> set (obj_entries (map (\<lambda>(k, v). (k, JStr v)) m))" "as_string w = Some x"
    using assms by (auto simp: valuesOf_def strings_map_json_def List.map_filter_def)
  then show "x \<in> snd ` set m"
    by (auto dest!: in_obj_entries_map intro: rev_image_eqI)
qed

lemma strings_json_at [simp]: "obj_get data key = Some (strings_json xs) \<Longrightarrow> stringsAt data key = xs"
  by (simp add: strings_json_def)

lemma move_paths:
  "set (pathsOf (new_task i TypeMove user (move_data sources dest))) \<subseteq> set (sources @ DestinationsUnder dest sources)"
  by (auto simp: pathsOf_def new_task_def move_data_def Let_def stringAt_def DestinationsUnder_def)

lemma rename_paths: "set (pathsOf (new_task i TypeRename user (rename_data source dest))) \<subseteq> set [source, dest]"
  by (simp add: pathsOf_def new_task_def rename_data_def Let_def stringAt_def type_defs)

lemma delete_paths:
  "set (pathsOf (new_task i TypeDelete user (delete_data requested trashPaths))) \<subseteq> set (requested @ map snd trashPaths)"
proof -
  have "set (valuesOf ((''instance-id'', JStr i) # delete_data requested trashPaths) ''trash-paths'') \<subseteq> snd ` set trashPaths"
    by (rule valuesOf_map) (simp add: delete_data_def)
  then show ?thesis
    by (auto simp: pathsOf_def new_task_def Let_def delete_data_def type_defs)
qed

lemma empty_paths: "set (pathsOf (new_task i TypeDeleteTrash user (empty_data contents))) \<subseteq> set contents"
  by (simp add: pathsOf_def new_task_def empty_data_def Let_def type_defs)

lemma restore_paths:
  assumes "RestoredPath ` snd ` set plans \<subseteq> set destinations"
  shows "set (pathsOf (new_task i TypeRestore user (restore_data requested plans))) \<subseteq> set (requested @ destinations)"
proof -
  let ?data = "(''instance-id'', JStr i) # restore_data requested plans"
  have "x \<in> RestoredPath ` snd ` set plans" if x: "x \<in> set (fieldOfValues ?data ''restoration-paths'' ''restored-path'')" for x
  proof -
    have "obj_get ?data ''restoration-paths'' = Some (JObj (map (\<lambda>(k, p). (k, plan_json p)) plans))"
      by (simp add: restore_data_def plans_json_def)
    with x obtain k w fs where "(k, w) \<in> set (obj_entries (map (\<lambda>(k, p). (k, plan_json p)) plans))"
      "w = JObj fs" "Option.bind (obj_get fs ''restored-path'') as_string = Some x"
      by (auto simp: fieldOfValues_def List.map_filter_def split: json.splits)
    then show ?thesis
      by (auto simp: plan_json_def dest!: in_obj_entries_map intro!: rev_image_eqI)
  qed
  with assms have "set (fieldOfValues ?data ''restoration-paths'' ''restored-path'') \<subseteq> set destinations"
    by blast
  then show ?thesis
    by (auto simp: pathsOf_def new_task_def Let_def restore_data_def type_defs)
qed

section \<open>The protocol\<close>

context task_service
begin

text \<open>What holds of the service between requests, and between a check of paths and the record.\<close>

abbreviation apart_all :: "'b \<Rightarrow> bool" where
  "apart_all b \<equiv> exclusive (held b)"

definition free :: "string list \<Rightarrow> 'b \<Rightarrow> bool" where
  "free ps b \<longleftrightarrow> exclusive (held b) \<and>
     (\<forall>p \<in> set ps. \<forall>t \<in> set (held b). \<forall>q \<in> set (pathsOf t). \<not> Conflicts p q)"

lemma Validate_free:
  assumes "Validate ByFilter ps b = (Inr (), b')" "exclusive (held b)"
  shows "free ps b'"
proof (cases "ps = []")
  case True
  with assms show ?thesis by (simp add: Validate_def free_def)
next
  case False
  with assms(1) obtain ts where read: "ByFilter lock_filter b = (Inr ts, b')"
    and ok: "LockedPaths ts = [] \<or> filter (\<lambda>p. trim_right p \<noteq> [] \<and> conflictsAny p (LockedPaths ts)) ps = []"
    by (auto simp: Validate_def Let_def split: prod.splits sum.splits if_splits)
  have same: "held b' = held b"
    by (rule filter_frame [OF read])
  have "\<not> Conflicts p q" if p: "p \<in> set ps" and t: "t \<in> set (held b)" and q: "q \<in> set (pathsOf t)" for p t q
  proof
    assume c: "Conflicts p q"
    then have nonempty: "trim_right p \<noteq> []" "q \<noteq> []"
      by (auto simp: Conflicts_eq trim_right_def)
    have "t \<in> set ts"
      using filter_complete [OF read t] pathsOf_locking q by (metis empty_iff empty_set)
    with q nonempty have "q \<in> set (LockedPaths ts)"
      by (auto simp: set_LockedPaths)
    with ok p c nonempty show False
      by (auto simp: conflictsAny_iff filter_empty_conv)
  qed
  with assms(2) same show ?thesis
    by (auto simp: free_def)
qed

lemma Validate_frame: "Validate ByFilter ps b = (r, b') \<Longrightarrow> held b' = held b"
  by (auto simp: Validate_def Let_def returnM_def dest: filter_frame split: if_splits prod.splits sum.splits)

lemma hoare_RequireUnlocked:
  assumes "hd_Tasks d = Some ByFilter"
  shows "hoare (\<lambda>s. apart_all (sv_board s)) (RequireUnlocked d ps) (\<lambda>_ s. free ps (sv_board s)) (\<lambda>s. apart_all (sv_board s))"
proof (rule hoareI)
  fix s a s'
  assume ok: "apart_all (sv_board s)" and "RequireUnlocked d ps s = (Inr a, s')"
  then have "Validate ByFilter ps (sv_board s) = (Inr (), sv_board s')"
    using assms by (auto simp: RequireUnlocked_def on_board_def split: prod.splits)
  then show "free ps (sv_board s')"
    using ok by (rule Validate_free)
next
  fix s e s'
  assume ok: "apart_all (sv_board s)" and "RequireUnlocked d ps s = (Inl e, s')"
  then have "Validate ByFilter ps (sv_board s) = (Inl e, sv_board s')"
    using assms by (auto simp: RequireUnlocked_def on_board_def split: prod.splits)
  then show "apart_all (sv_board s')"
    using ok Validate_frame by metis
qed

lemma create_exclusive:
  assumes "create t b = (r, b')" "free ps b" "set (pathsOf t) \<subseteq> set ps"
  shows "exclusive (held b')"
proof -
  consider "held b' = held b" | u where "held b' = u # held b" "pathsOf u = pathsOf t"
    using create_adds [OF assms(1)] pathsOf_cong by metis
  then show ?thesis
    using assms(2,3) by cases (auto simp: free_def apart_def)
qed

lemma hoare_startTask:
  assumes "hd_Creator d = Some create" and "set (pathsOf (new_task (hd_InstanceID d) ty user data)) \<subseteq> set ps"
  shows "hoare (\<lambda>s. free ps (sv_board s)) (startTask d ty user data)
    (\<lambda>_ s. apart_all (sv_board s)) (\<lambda>s. apart_all (sv_board s))"
proof -
  have "apart_all (sv_board s')" if pre: "free ps (sv_board s)" and run: "startTask d ty user data s = (r, s')" for s r s'
  proof -
    let ?t = "new_task (hd_InstanceID d) ty user data"
    have "sv_board s' = sv_board s \<or> sv_board s' = snd (create ?t (sv_board s))"
      using run assms(1)
      by (auto simp: startTask_def on_board_def on_runner_def split: if_splits prod.splits sum.splits)
    then show ?thesis
      using pre create_exclusive [of ?t "sv_board s" _ _ ps] assms(2) prod.collapse
      by (metis free_def)
  qed
  then show ?thesis by (intro hoareI) auto
qed

text \<open>A check, then anything that leaves the service alone, then the record.\<close>

lemma free_apart: "free ps b \<Longrightarrow> apart_all b"
  by (simp add: free_def)

lemma keeping_weaken:
  assumes "keeping (free ps) m" "\<And>a. hoare (\<lambda>s. free ps (sv_board s)) (f a) (\<lambda>_ s. apart_all (sv_board s)) (\<lambda>s. apart_all (sv_board s))"
  shows "hoare (\<lambda>s. free ps (sv_board s)) (bindM m f) (\<lambda>_ s. apart_all (sv_board s)) (\<lambda>s. apart_all (sv_board s))"
  by (rule hoare_bindM [where R = "\<lambda>_ s. free ps (sv_board s)"], rule hoare_conseq [OF assms(1) [unfolded keeping_def]])
     (auto simp: free_apart intro: assms(2))

lemma hoare_startMove:
  assumes "hd_Tasks d = Some ByFilter" "hd_Creator d = Some create"
  shows "keeping apart_all (startMove d user sources dest)"
  unfolding startMove_def Let_def thenM_def keeping_def
  by (rule hoare_bindM [OF hoare_RequireUnlocked [OF assms(1)]])
     ((rule keeping_weaken, rule keeping_on_env)+, rule hoare_startTask [OF assms(2) move_paths])

lemma hoare_startRename:
  assumes "hd_Tasks d = Some ByFilter" "hd_Creator d = Some create"
  shows "keeping apart_all (startRename d user source dest)"
proof (cases "source = dest")
  case False
  show ?thesis
    unfolding startRename_def Let_def thenM_def keeping_def if_not_P [OF False]
    by (rule hoare_bindM [OF hoare_RequireUnlocked [OF assms(1)]])
       ((rule keeping_weaken, intro keeping_intros)+, rule hoare_startTask [OF assms(2) rename_paths])
qed (simp add: startRename_def keeping_returnM)

lemma hoare_check_start:
  assumes "hd_Tasks d = Some ByFilter" "hd_Creator d = Some create"
    and "set (pathsOf (new_task (hd_InstanceID d) ty user data)) \<subseteq> set ps"
  shows "keeping apart_all (thenM (RequireUnlocked d ps) (bindM (startTask d ty user data) (\<lambda>i. returnM (f i))))"
  unfolding thenM_def keeping_def
  by (rule hoare_bindM [OF hoare_RequireUnlocked [OF assms(1)]], rule hoare_bindM [OF hoare_startTask [OF assms(2,3)]])
     (rule hoare_returnM)

lemma keeping_deletePaths:
  assumes "hd_Tasks d = Some ByFilter" "hd_Creator d = Some create"
  shows "keeping apart_all (deletePaths random d user requested)"
  unfolding deletePaths_def
  by (intro keeping_intros hoare_check_start [OF assms delete_paths])

lemma keeping_EmptyTrash:
  assumes "hd_Tasks d = Some ByFilter" "hd_Creator d = Some create"
  shows "keeping apart_all (handle_EmptyTrash d rq)"
  unfolding handle_EmptyTrash_def Let_def
  by (intro keeping_intros hoare_check_start [OF assms empty_paths])

lemma keepingP_bindP_result:
  assumes "keepingP P m" "\<And>a s s'. m s = Some (Inr a, s') \<Longrightarrow> keepingP P (f a)"
  shows "keepingP P (bindP m f)"
  unfolding keepingP_def
proof (intro allI impI)
  fix s r s'
  assume "P (sv_board s)" and run: "bindP m f s = Some (r, s')"
  then obtain q t where m: "m s = Some (q, t)"
    by (auto simp: bindP_def split: option.splits)
  with assms(1) \<open>P (sv_board s)\<close> have t: "P (sv_board t)"
    unfolding keepingP_def by blast
  show "P (sv_board s')"
  proof (cases q)
    case (Inl e)
    with run m t show ?thesis by (simp add: bindP_def)
  next
    case (Inr a)
    with run m have "f a t = Some (r, s')" by (simp add: bindP_def)
    with assms(2) m Inr t show ?thesis unfolding keepingP_def by blast
  qed
qed

lemma planAll_covers:
  "planAll d user plans destinations rest s = Some (Inr (plans', destinations'), s') \<Longrightarrow>
   RestoredPath ` snd ` set plans \<subseteq> set destinations \<Longrightarrow> RestoredPath ` snd ` set plans' \<subseteq> set destinations'"
proof (induction rest arbitrary: plans destinations s)
  case Nil
  then show ?case by (simp add: total_def)
next
  case (Cons path rest)
  from Cons.prems(1) obtain plan t where
    onward: "planAll d user (assoc_set path plan plans) (destinations @ [RestoredPath plan]) rest t = Some (Inr (plans', destinations'), s')"
    by (auto simp: bindP_def split: option.splits prod.splits sum.splits)
  have "RestoredPath ` snd ` set (assoc_set path plan plans) \<subseteq> set (destinations @ [RestoredPath plan])"
    using Cons.prems(2) in_assoc_set [of _ path plan plans] by fastforce
  with onward show ?case by (rule Cons.IH)
qed

lemma total_bind:
  "bindP (total m) (\<lambda>_. bindP (total n) (\<lambda>a. total (returnM (f a)))) = total (thenM m (bindM n (\<lambda>a. returnM (f a))))"
  by (rule ext) (auto simp: bindP_def total_def thenM_def bindM_def split: prod.splits sum.splits)

lemma keepingP_restore_in_scope:
  fixes d :: "('w, 'b) handler_deps"
  assumes "hd_Tasks d = Some ByFilter" "hd_Creator d = Some create"
  shows "keepingP apart_all (restore_in_scope d user asked)"
proof -
  have start: "keepingP apart_all (case x of (plans, destinations) \<Rightarrow>
      bindP (total (RequireUnlocked d (requested @ destinations))) (\<lambda>_.
      bindP (total (startTask d TypeRestore user (restore_data requested plans))) (\<lambda>taskID.
        total (returnM (restoreResponse plans taskID)))))"
    if "planAll d user [] [] requested s = Some (Inr x, s')" for x requested and s s' :: "('w, 'b) server"
  proof (cases x)
    case (Pair plans destinations)
    have "RestoredPath ` snd ` set plans \<subseteq> set destinations"
      using planAll_covers [OF that [unfolded Pair]] by simp
    then show ?thesis
      unfolding Pair prod.case total_bind
      by (intro keepingP_total hoare_check_start [OF assms restore_paths])
  qed
  have tail: "keepingP apart_all (bindP (planAll d user [] [] requested) (\<lambda>(plans, destinations).
      bindP (total (RequireUnlocked d (requested @ destinations))) (\<lambda>_.
      bindP (total (startTask d TypeRestore user (restore_data requested plans))) (\<lambda>taskID.
        total (returnM (restoreResponse plans taskID))))))" for requested
    by (rule keepingP_bindP_result [OF keepingP_planAll start])
  show ?thesis
    unfolding restore_in_scope_def by ((rule tail | rule keeping_intros)+)
qed

lemma keepingP_Restore:
  assumes "hd_Tasks d = Some ByFilter" "hd_Creator d = Some create"
  shows "keepingP apart_all (handle_Restore d rq)"
  unfolding handle_Restore_def by (intro keeping_intros keepingP_restore_in_scope [OF assms])

end

section \<open>The service under load\<close>

text \<open>One request served, or a task finishing, or anything that leaves the unfinished tasks alone.\<close>

inductive server_step ::
    "('w, 'b) handler_deps \<Rightarrow> ('b \<Rightarrow> task list) \<Rightarrow> ('w, 'b) server \<Rightarrow> ('w, 'b) server \<Rightarrow> bool"
  for d :: "('w, 'b) handler_deps" and held :: "'b \<Rightarrow> task list" where
  moves: "server_step d held s (snd (handle_Move d rq s))"
| renames_by_id: "server_step d held s (snd (RenameByID d rq s))"
| moves_by_id: "server_step d held s (snd (MoveByID d rq s))"
| moves_children: "server_step d held s (snd (MoveChildrenByID d rq s))"
| deletes: "server_step d held s (snd (handle_Delete random d rq s))"
| deletes_by_id: "server_step d held s (snd (DeleteByID random d rq s))"
| deletes_children: "server_step d held s (snd (DeleteChildrenByID random d rq s))"
| empties: "server_step d held s (snd (handle_EmptyTrash d rq s))"
| restores: "handle_Restore d rq s = Some (r, s') \<Longrightarrow> server_step d held s s'"
| elsewhere: "held (sv_board s') = held (sv_board s) \<Longrightarrow> server_step d held s s'"
| finishes: "subseq (held b) (held (sv_board s)) \<Longrightarrow> server_step d held s (s\<lparr>sv_board := b\<rparr>)"

context task_service
begin

lemma keepingD: "keeping P m \<Longrightarrow> P (sv_board s) \<Longrightarrow> P (sv_board (snd (m s)))"
  unfolding keeping_def by (metis hoare_exit prod.collapse)

lemma server_step_exclusive:
  assumes tasks: "hd_Tasks d = Some ByFilter" "hd_Creator d = Some create"
    and "server_step d held s s'" "apart_all (sv_board s)"
  shows "apart_all (sv_board s')"
  using assms(3,4)
proof (induction rule: server_step.induct)
  case (moves s rq)
  have "keeping apart_all (handle_Move d rq)"
    unfolding handle_Move_def Let_def by (intro keeping_intros hoare_startMove [OF tasks])
  then show ?case using moves by (rule keepingD)
next
  case (renames_by_id s rq)
  have "keeping apart_all (RenameByID d rq)"
    unfolding RenameByID_def moveOneByID_def Let_def by (intro keeping_intros hoare_startRename [OF tasks])
  then show ?case using renames_by_id by (rule keepingD)
next
  case (moves_by_id s rq)
  have "keeping apart_all (MoveByID d rq)"
    unfolding MoveByID_def moveOneByID_def Let_def by (intro keeping_intros hoare_startRename [OF tasks])
  then show ?case using moves_by_id by (rule keepingD)
next
  case (moves_children s rq)
  have "keeping apart_all (MoveChildrenByID d rq)"
    unfolding MoveChildrenByID_def Let_def by (intro keeping_intros hoare_startMove [OF tasks])
  then show ?case using moves_children by (rule keepingD)
next
  case (deletes s random rq)
  have "keeping apart_all (handle_Delete random d rq)"
    unfolding handle_Delete_def by (intro keeping_intros keeping_deletePaths [OF tasks])
  then show ?case using deletes by (rule keepingD)
next
  case (deletes_by_id s random rq)
  have "keeping apart_all (DeleteByID random d rq)"
    unfolding DeleteByID_def by (intro keeping_intros keeping_deletePaths [OF tasks])
  then show ?case using deletes_by_id by (rule keepingD)
next
  case (deletes_children s random rq)
  have "keeping apart_all (DeleteChildrenByID random d rq)"
    unfolding DeleteChildrenByID_def by (intro keeping_intros keeping_deletePaths [OF tasks])
  then show ?case using deletes_children by (rule keepingD)
next
  case (empties s rq)
  show ?case using keeping_EmptyTrash [OF tasks] empties by (rule keepingD)
next
  case (restores rq s r s')
  then show ?case
    using keepingP_Restore [OF tasks] unfolding keepingP_def by blast
next
  case (finishes b s)
  then show ?case by (simp add: exclusive_subseq)
qed simp

end

text \<open>A service in memory.\<close>

definition mem_filter :: "task_filter \<Rightarrow> (task list, task list) op" where
  "mem_filter f = (\<lambda>ts. (Inr (filter (\<lambda>t. task_type t \<in> set (Types f) \<and> (IncludeNullEnd f \<or> task_ended t)) ts), ts))"

definition mem_create :: "task \<Rightarrow> (task list, string) op" where
  "mem_create t = (\<lambda>ts. (Inr (''/tasks/'' @ itoa (length ts)), t # ts))"

interpretation board: task_service mem_filter mem_create "\<lambda>ts. ts"
  by unfold_locales (auto simp: mem_filter_def mem_create_def lock_filter_def)


text \<open>A service with an empty data store and no tasks.\<close>

definition sample_handlers :: "(mem_world, task list) handler_deps" where
  "sample_handlers =
     \<lparr>hd_rods = mem_deps, hd_Layout = sample_layout, hd_MaxPathsInRequest = 10, hd_PermsFilter = [],
      hd_BadChars = ''*'', hd_ProxyUser = ''rods'', hd_Tasks = Some mem_filter, hd_Creator = Some mem_create,
      hd_Worker = True, hd_InstanceID = ''i'', hd_AdminUsers = [], hd_AnonUser = ''anonymous'',
      hd_AnonBaseURL = ''https://anon'', hd_AnonMappings = [], hd_KifshareURL = [], hd_KifshareTemplate = []\<rparr>"

definition quiet_server :: "(mem_world, task list) server" where
  "quiet_server =
     \<lparr>sv_env = \<lparr>env_world = \<lparr>mw_acls = [], mw_inherits = [], mw_avus = [], mw_tickets = []\<rparr>,
        env_scopes = (\<lambda>_. empty_scope ''a'')\<rparr>,
      sv_board = [], sv_runner = \<lparr>ru_stopping = False, ru_cancelled = False, ru_running = []\<rparr>\<rparr>"

definition ask_for :: "string \<Rightarrow> 'a \<Rightarrow> 'a request" where
  "ask_for user body = \<lparr>rq_query = [(''user'', [user])], rq_params = [(''data-id'', ''u1'')], rq_body = Some body,
     rq_escaped = [], rq_pattern = []\<rparr>"

abbreviation served_once :: "(mem_world, task list) server" where
  "served_once \<equiv> snd (handle_EmptyTrash sample_handlers (ask_for ''a'' ()) quiet_server)"

abbreviation served_twice :: "(mem_world, task list) server" where
  "served_twice \<equiv> snd (handle_Move sample_handlers
     (ask_for ''a'' \<lparr>mq_sources = [''/z/h/a/f''], mq_dest = ''/z/h/a/d''\<rparr>) served_once)"


section \<open>From the handler to the job\<close>

lemma traverse_Inr_map: "(\<And>x. f (g x) = Inr (h x)) \<Longrightarrow> traverse f (map g xs) = Inr (map h xs)"
  by (simp add: traverse_Inr)

lemma enumerate_map: "enumerate n (map f xs) = map (\<lambda>(i, x). (i, f x)) (enumerate n xs)"
  by (induction xs arbitrary: n) auto

lemma stringsFrom_strings:
  assumes "obj_get data key = Some (strings_json xs)"
  shows "stringsFrom data key = Inr xs"
  using assms unfolding stringsFrom_def strings_json_def
  by (simp add: enumerate_map) (subst traverse_Inr_map [where h = snd], auto)

lemma mapFrom_map:
  assumes "obj_get data key = Some (strings_map_json m)" "distinct (map fst m)"
  shows "mapFrom data key = Inr m"
proof -
  have entries: "obj_entries (map (\<lambda>(k, v). (k, JStr v)) m) = map (\<lambda>(k, v). (k, JStr v)) m"
    using assms(2) by (intro obj_entries_distinct) (simp only: fst_map_pairs)
  show ?thesis
    using assms(1) unfolding mapFrom_def strings_map_json_def
    by (simp add: entries) (subst traverse_Inr_map [where h = "\<lambda>x. x"], auto)
qed

lemma restorePlansFrom_plans:
  assumes "obj_get data ''restoration-paths'' = Some (plans_json m)" "distinct (map fst m)"
  shows "restorePlansFrom data = Inr (map (\<lambda>(k, p). (k, RestoredPath p)) m)"
proof -
  have entries: "obj_entries (map (\<lambda>(k, p). (k, plan_json p)) m) = map (\<lambda>(k, p). (k, plan_json p)) m"
    using assms(2) by (intro obj_entries_distinct) (simp only: fst_map_pairs)
  show ?thesis
    using assms(1) unfolding restorePlansFrom_def plans_json_def
    by (simp add: entries) (subst traverse_Inr_map [where h = "\<lambda>(k, p). (k, RestoredPath p)"], auto simp: plan_json_def)
qed

lemma distinct_trash_names:
  "trash_names random l user i m requested = Inr m' \<Longrightarrow> distinct (map fst m) \<Longrightarrow> distinct (map fst m')"
  by (induction requested arbitrary: i m) (auto split: if_splits sum.splits simp: distinct_assoc_set)

lemma distinct_planAll:
  "planAll d user plans destinations rest s = Some (Inr (plans', destinations'), s') \<Longrightarrow>
   distinct (map fst plans) \<Longrightarrow> distinct (map fst plans')"
proof (induction rest arbitrary: plans destinations s)
  case (Cons path rest)
  from Cons.prems(1) obtain plan t where
    "planAll d user (assoc_set path plan plans) (destinations @ [RestoredPath plan]) rest t = Some (Inr (plans', destinations'), s')"
    by (auto simp: bindP_def split: option.splits prod.splits sum.splits)
  then show ?case
    by (rule Cons.IH) (rule distinct_assoc_set [OF Cons.prems(2)])
qed (simp add: total_def)


definition sample_names :: "gerror + (string \<times> string) list" where
  "sample_names = trash_names (\<lambda>_. Inr [0, 1, 2, 3, 4, 5, 6]) sample_layout ''a'' 0 [] [''/z/home/a/f'']"


end
