(* ===== verification/ServiceStats.thy ===== *)
theory ServiceStats
  imports Handlers MemStore
begin

text \<open>
  What the API reports of a path: the media type its name implies (\<open>internal/mediatype\<close>), the
  fields a request selects (\<open>service/statfields.go\<close>), the status of a path built from the request
  scope (\<open>service/stat.go\<close>) and the entries of a folder listing (\<open>service/listing.go\<close>).  A bulk
  status dispatches its paths concurrently; here they are resolved one after another.
\<close>

section \<open>mediatype.go\<close>

definition DefaultMediaType :: string where
  "DefaultMediaType = ''application/octet-stream''"

definition extensions :: "(string \<times> string) list" where
  "extensions =
     [(''.txt'', ''text/plain''),
      (''.log'', ''text/x-log''),
      (''.md'', ''text/markdown''),
      (''.markdown'', ''text/markdown''),
      (''.html'', ''text/html''),
      (''.htm'', ''text/html''),
      (''.xml'', ''application/xml''),
      (''.json'', ''application/json''),
      (''.pdf'', ''application/pdf''),
      (''.csv'', ''text/csv''),
      (''.tsv'', ''text/tab-separated-values''),
      (''.yml'', ''text/x-yaml''),
      (''.yaml'', ''text/x-yaml''),
      (''.png'', ''image/png''),
      (''.jpg'', ''image/jpeg''),
      (''.jpeg'', ''image/jpeg''),
      (''.gif'', ''image/gif''),
      (''.svg'', ''image/svg+xml''),
      (''.gz'', ''application/gzip''),
      (''.zip'', ''application/zip''),
      (''.tar'', ''application/x-tar''),
      (''.sh'', ''application/x-sh''),
      (''.py'', ''text/x-python''),
      (''.pl'', ''text/x-perl''),
      (''.r'', ''text/x-rsrc''),
      (''.rmd'', ''text/plain''),
      (''.ipynb'', ''text/plain''),
      (''.bam'', ''application/gzip''),
      (''.bed'', ''text/plain''),
      (''.fasta'', ''text/plain''),
      (''.fa'', ''text/plain''),
      (''.fastq'', ''text/plain''),
      (''.fq'', ''text/plain''),
      (''.gff'', ''text/plain''),
      (''.gff3'', ''text/plain''),
      (''.gtf'', ''text/plain''),
      (''.newick'', ''text/plain''),
      (''.nwk'', ''text/plain''),
      (''.sam'', ''text/plain''),
      (''.vcf'', ''text/x-vcard'')]"

definition OfName :: "string \<Rightarrow> string" where
  "OfName p =
     (let ext = to_lower (path_Ext (trim_right p))
      in if ext = [] then DefaultMediaType
         else case map_of extensions ext of Some known \<Rightarrow> known | None \<Rightarrow> DefaultMediaType)"

section \<open>statfields.go\<close>

definition AllStatFields :: "string list" where
  "AllStatFields =
     [''id'', ''path'', ''type'', ''label'', ''date-created'', ''date-modified'', ''permission'',
      ''share-count'', ''file-count'', ''dir-count'', ''file-size'', ''content-type'', ''infoType'', ''md5'']"

definition splitFields :: "string \<Rightarrow> string list" where
  "splitFields xs = filter (\<lambda>p. p \<noteq> []) (map trim_space (split_on CHR '','' xs))"

text \<open>A field set is the list of the fields it holds.\<close>

type_synonym field_set = "string list"

definition ParseFieldSet :: "string \<Rightarrow> string \<Rightarrow> field_set" where
  "ParseFieldSet incl excl =
     (let included = (if trim_space incl \<noteq> [] then filter (List.member AllStatFields) (splitFields incl)
                      else AllStatFields)
      in if trim_space excl \<noteq> [] then filter (\<lambda>f. \<not> List.member (splitFields excl) f) included
         else included)"

definition Has :: "field_set \<Rightarrow> string \<Rightarrow> bool" where
  "Has chosen f = List.member chosen f"

definition HasAny :: "field_set \<Rightarrow> string list \<Rightarrow> bool" where
  "HasAny chosen fs = list_ex (Has chosen) fs"

section \<open>stat.go\<close>

text \<open>A \<open>Stat\<close> as its JSON has it: empty strings and nil pointers are omitted.\<close>

record status =
  so_ID :: string
  so_Path :: string
  so_Type :: string
  so_Label :: string
  so_DateCreated :: "int option"
  so_DateModified :: "int option"
  so_Permission :: string
  so_ShareCount :: "int option"
  so_FileCount :: "int option"
  so_DirCount :: "int option"
  so_FileSize :: "int option"
  so_ContentType :: string
  so_InfoType :: "string option"
  so_MD5 :: "string option"

definition text_field :: "string \<Rightarrow> string \<Rightarrow> (string \<times> json) list" where
  "text_field key v = (if v = [] then [] else [(key, JStr v)])"

definition opt_field :: "('a \<Rightarrow> json) \<Rightarrow> string \<Rightarrow> 'a option \<Rightarrow> (string \<times> json) list" where
  "opt_field f key v = (case v of None \<Rightarrow> [] | Some x \<Rightarrow> [(key, f x)])"

definition status_fields :: "status \<Rightarrow> (string \<times> json) list" where
  "status_fields st =
     text_field ''id'' (so_ID st) @ text_field ''path'' (so_Path st) @ text_field ''type'' (so_Type st) @
     text_field ''label'' (so_Label st) @ opt_field JInt ''date-created'' (so_DateCreated st) @
     opt_field JInt ''date-modified'' (so_DateModified st) @ text_field ''permission'' (so_Permission st) @
     opt_field JInt ''share-count'' (so_ShareCount st) @ opt_field JInt ''file-count'' (so_FileCount st) @
     opt_field JInt ''dir-count'' (so_DirCount st) @ opt_field JInt ''file-size'' (so_FileSize st) @
     text_field ''content-type'' (so_ContentType st) @ opt_field JStr ''infoType'' (so_InfoType st) @
     opt_field JStr ''md5'' (so_MD5 st)"

definition status_json :: "status \<Rightarrow> json" where
  "status_json st = JObj (status_fields st)"

fun type_name :: "object_type \<Rightarrow> string" where
  "type_name ObjectTypeFile = ''file''"
| "type_name ObjectTypeDir = ''dir''"
| "type_name ObjectTypeNone = ''none''"

definition UnknownInfoType :: string where
  "UnknownInfoType = ''unknown''"

definition FileInfoType :: "string \<Rightarrow> string" where
  "FileInfoType infoType = (if infoType = [] then UnknownInfoType else infoType)"

record stat_options =
  op_Fields :: field_set
  op_Layout :: layout
  op_PermsFilter :: "string list"

definition countShares :: "acl_entry list \<Rightarrow> string \<Rightarrow> string list \<Rightarrow> int" where
  "countShares acl user filtered =
     int (length (filter (\<lambda>e. \<not> (acl_user e = user \<or> List.member filtered (acl_user e))) acl))"

text \<open>The fields that need no further lookup.\<close>

definition base_status :: "string \<Rightarrow> stat_options \<Rightarrow> stat \<Rightarrow> status" where
  "base_status user opts base =
     (let has = Has (op_Fields opts); file = (st_type base \<noteq> ObjectTypeDir)
      in \<lparr>so_ID = (if has ''id'' then st_uuid base else []),
          so_Path = (if has ''path'' then st_path base else []),
          so_Type = (if has ''type'' then type_name (st_type base) else []),
          so_Label = (if has ''label'' then Label (op_Layout opts) user (st_path base) else []),
          so_DateCreated = (if has ''date-created'' then Some (st_created base) else None),
          so_DateModified = (if has ''date-modified'' then Some (st_modified base) else None),
          so_Permission = (if has ''permission'' then permission_name (st_permission base) else []),
          so_ShareCount = None, so_FileCount = None, so_DirCount = None,
          so_FileSize = (if file \<and> has ''file-size'' then Some (st_size base) else None),
          so_ContentType = (if file \<and> has ''content-type'' then OfName (st_path base) else []),
          so_InfoType = (if file \<and> has ''infoType'' then Some (FileInfoType (st_info_type base)) else None),
          so_MD5 = (if file \<and> has ''md5'' then st_checksum base else None)\<rparr>)"

definition with_shares ::
    "'w deps \<Rightarrow> nat \<Rightarrow> string \<Rightarrow> stat_options \<Rightarrow> stat \<Rightarrow> status \<Rightarrow> ('w env, status) op" where
  "with_shares deps h user opts base out =
     (if Has (op_Fields opts) ''share-count'' \<and> st_permission base = PermissionOwn then
        bindM (ACL deps h (st_path base)) (\<lambda>acl.
          returnM (out\<lparr>so_ShareCount := Some (countShares acl user (op_PermsFilter opts))\<rparr>))
      else returnM out)"

definition with_counts ::
    "'w deps \<Rightarrow> nat \<Rightarrow> stat_options \<Rightarrow> stat \<Rightarrow> status \<Rightarrow> ('w env, status) op" where
  "with_counts deps h opts base out =
     (if st_type base = ObjectTypeDir \<and> HasAny (op_Fields opts) [''file-count'', ''dir-count''] then
        bindM (ChildCounts deps h (st_path base)) (\<lambda>(files, dirs).
          returnM (out\<lparr>so_FileCount := (if Has (op_Fields opts) ''file-count'' then Some files else so_FileCount out),
                       so_DirCount := (if Has (op_Fields opts) ''dir-count'' then Some dirs else so_DirCount out)\<rparr>))
      else returnM out)"

definition StatOf :: "'w deps \<Rightarrow> nat \<Rightarrow> string \<Rightarrow> string \<Rightarrow> stat_options \<Rightarrow> ('w env, status) op" where
  "StatOf deps h user path opts =
     bindM (Stat deps h path) (\<lambda>base.
     bindM (with_shares deps h user opts base (base_status user opts base)) (\<lambda>out.
       with_counts deps h opts base out))"

definition StatsOfLoaded ::
    "'w deps \<Rightarrow> nat \<Rightarrow> string \<Rightarrow> string list \<Rightarrow> stat_options \<Rightarrow> ('w env, (string \<times> status) list) op" where
  "StatsOfLoaded deps h user paths opts =
     (if paths = [] then returnM []
      else thenM (if Has (op_Fields opts) ''share-count''
                  then bindM (ACLs deps h paths) (\<lambda>_. returnM ()) else returnM ())
          (thenM (if HasAny (op_Fields opts) [''file-count'', ''dir-count'']
                  then bindM (ChildCountsFor deps h paths) (\<lambda>_. returnM ()) else returnM ())
            (mapM (\<lambda>p. bindM (StatOf deps h user p opts) (\<lambda>st. returnM (p, st))) (remdups paths))))"

definition StatsOf ::
    "'w deps \<Rightarrow> nat \<Rightarrow> string \<Rightarrow> string list \<Rightarrow> stat_options \<Rightarrow> ('w env, (string \<times> status) list) op" where
  "StatsOf deps h user paths opts =
     (if paths = [] then returnM []
      else bindM (Stats deps h paths) (\<lambda>_. StatsOfLoaded deps h user paths opts))"

section \<open>listing.go\<close>

record listing_entry =
  le_ID :: string
  le_DateCreated :: int
  le_DateModified :: int
  le_BadName :: bool
  le_InfoType :: "string option"
  le_Name :: string
  le_Path :: string
  le_Permission :: string
  le_Size :: int

record listing =
  li_self :: listing_entry
  li_Files :: "listing_entry list"
  li_Folders :: "listing_entry list"
  li_Total :: "int option"
  li_Readme :: "listing_entry option"

definition ReadmeNames :: "string list" where
  "ReadmeNames = [''README.md'', ''README.txt'', ''README'', ''readme.md'', ''readme.txt'', ''readme'']"

text \<open>The rule's \<open>br_EqualFold\<close> is \<open>strings.EqualFold\<close>, with its Unicode case-folding table.\<close>

record bad_name_rule =
  br_Chars :: string
  br_Names :: "string list"
  br_Paths :: "string list"
  br_EqualFold :: "string \<Rightarrow> string \<Rightarrow> bool"

definition Matches :: "bad_name_rule \<Rightarrow> string \<Rightarrow> string \<Rightarrow> bool" where
  "Matches r path name \<longleftrightarrow>
     (br_Chars r \<noteq> [] \<and> contains_any name (br_Chars r)) \<or>
     list_ex (br_EqualFold r name) (br_Names r) \<or> List.member (br_Paths r) path"

definition EntryOf :: "row \<Rightarrow> bad_name_rule \<Rightarrow> listing_entry" where
  "EntryOf r rule =
     \<lparr>le_ID = null_string (row_uuid r), le_DateCreated = CreatedMillis r, le_DateModified = ModifiedMillis r,
      le_BadName = Matches rule (row_full_path r) (row_base_name r),
      le_InfoType = (if \<not> IsCollection r then Some (FileInfoType (null_string (row_info_type r)))
                     else if null_string (row_info_type r) \<noteq> [] then Some (null_string (row_info_type r))
                     else None),
      le_Name = row_base_name r, le_Path = row_full_path r, le_Permission = permission_name (row_permission r),
      le_Size = row_data_size r\<rparr>"

definition ListingOf :: "listing_entry \<Rightarrow> row list \<Rightarrow> bad_name_rule \<Rightarrow> listing" where
  "ListingOf self rows rule =
     foldl (\<lambda>out r.
         let entry = EntryOf r rule;
             out' = (if IsCollection r then out\<lparr>li_Folders := li_Folders out @ [entry]\<rparr>
                     else out\<lparr>li_Files := li_Files out @ [entry]\<rparr>)
         in (case row_total_count r of Some n \<Rightarrow> out'\<lparr>li_Total := Some n\<rparr> | None \<Rightarrow> out'))
       \<lparr>li_self = self\<lparr>le_InfoType := None, le_Size := 0\<rparr>, li_Files = [], li_Folders = [],
        li_Total = None, li_Readme = None\<rparr> rows"

definition entry_fields :: "listing_entry \<Rightarrow> (string \<times> json) list" where
  "entry_fields e =
     [(''id'', JStr (le_ID e)), (''dateCreated'', JInt (le_DateCreated e)), (''dateModified'', JInt (le_DateModified e)),
      (''badName'', JBool (le_BadName e)),
      (''infoType'', case le_InfoType e of None \<Rightarrow> JNull | Some t \<Rightarrow> JStr t),
      (''name'', JStr (le_Name e)), (''path'', JStr (le_Path e)), (''permission'', JStr (le_Permission e)),
      (''size'', JInt (le_Size e))]"

definition listing_json :: "listing \<Rightarrow> json" where
  "listing_json li = JObj (entry_fields (li_self li) @
     [(''files'', JArr (map (\<lambda>e. JObj (entry_fields e)) (li_Files li))),
      (''folders'', JArr (map (\<lambda>e. JObj (entry_fields e)) (li_Folders li))),
      (''total'', case li_Total li of None \<Rightarrow> JNull | Some n \<Rightarrow> JInt n), (''totalBad'', JInt 0),
      (''readme'', case li_Readme li of None \<Rightarrow> JBool False | Some e \<Rightarrow> JObj (entry_fields e))])"

definition FolderEntryOf :: "row \<Rightarrow> string \<Rightarrow> layout \<Rightarrow> (string \<times> json) list" where
  "FolderEntryOf r user l =
     [(''id'', JStr (null_string (row_uuid r))), (''path'', JStr (row_full_path r)),
      (''label'', JStr (Label l user (row_full_path r))), (''permission'', JStr (permission_name (row_permission r))),
      (''date-created'', JInt (CreatedMillis r)), (''date-modified'', JInt (ModifiedMillis r))]"

section \<open>The fields of a status\<close>

definition status_keys :: "status \<Rightarrow> string set" where
  "status_keys out = fst ` set (status_fields out)"

lemma text_field_keys: "f \<in> fst ` set (text_field k v) \<longleftrightarrow> f = k \<and> v \<noteq> []"
  by (simp add: text_field_def)

lemma opt_field_keys: "f \<in> fst ` set (opt_field g k v) \<longleftrightarrow> f = k \<and> v \<noteq> None"
  by (cases v) (simp_all add: opt_field_def)

lemma status_key_iff:
  "f \<in> status_keys out \<longleftrightarrow>
     f = ''id'' \<and> so_ID out \<noteq> [] \<or>
     f = ''path'' \<and> so_Path out \<noteq> [] \<or>
     f = ''type'' \<and> so_Type out \<noteq> [] \<or>
     f = ''label'' \<and> so_Label out \<noteq> [] \<or>
     f = ''date-created'' \<and> so_DateCreated out \<noteq> None \<or>
     f = ''date-modified'' \<and> so_DateModified out \<noteq> None \<or>
     f = ''permission'' \<and> so_Permission out \<noteq> [] \<or>
     f = ''share-count'' \<and> so_ShareCount out \<noteq> None \<or>
     f = ''file-count'' \<and> so_FileCount out \<noteq> None \<or>
     f = ''dir-count'' \<and> so_DirCount out \<noteq> None \<or>
     f = ''file-size'' \<and> so_FileSize out \<noteq> None \<or>
     f = ''content-type'' \<and> so_ContentType out \<noteq> [] \<or>
     f = ''infoType'' \<and> so_InfoType out \<noteq> None \<or>
     f = ''md5'' \<and> so_MD5 out \<noteq> None"
  unfolding status_keys_def status_fields_def by (simp only: set_append image_Un Un_iff text_field_keys opt_field_keys)

lemma base_keys:
  assumes "f \<in> status_keys (base_status user opts base)"
  shows "Has (op_Fields opts) f" "f \<notin> {''share-count'', ''file-count'', ''dir-count''}"
    and "f \<in> {''file-size'', ''content-type'', ''infoType'', ''md5''} \<Longrightarrow> st_type base \<noteq> ObjectTypeDir"
  using assms unfolding status_key_iff base_status_def Let_def
  by - (elim disjE conjE; simp split: if_splits)+

lemma share_count_keys: "f \<in> status_keys (out\<lparr>so_ShareCount := n\<rparr>) \<Longrightarrow> f = ''share-count'' \<or> f \<in> status_keys out"
  by (cases out, simp only: status_key_iff status.simps) (elim disjE conjE; simp only: simp_thms)

lemma file_count_keys: "f \<in> status_keys (out\<lparr>so_FileCount := n\<rparr>) \<Longrightarrow> f = ''file-count'' \<or> f \<in> status_keys out"
  by (cases out, simp only: status_key_iff status.simps) (elim disjE conjE; simp only: simp_thms)

lemma dir_count_keys: "f \<in> status_keys (out\<lparr>so_DirCount := n\<rparr>) \<Longrightarrow> f = ''dir-count'' \<or> f \<in> status_keys out"
  by (cases out, simp only: status_key_iff status.simps) (elim disjE conjE; simp only: simp_thms)

lemma shares_keys:
  assumes "with_shares deps h user opts base out s = (Inr out', s')" "f \<in> status_keys out'"
  shows "f \<in> status_keys out \<or>
    (f = ''share-count'' \<and> Has (op_Fields opts) f \<and> st_permission base = PermissionOwn)"
proof (cases "Has (op_Fields opts) ''share-count'' \<and> st_permission base = PermissionOwn")
  case True
  then obtain n where "out' = out\<lparr>so_ShareCount := Some n\<rparr>"
    using assms(1) by (auto simp: with_shares_def bindM_eq_Inr)
  with assms(2) True share_count_keys [where out = out and n = "Some n"] show ?thesis
    by blast
next
  case False
  with assms show ?thesis
    by (auto simp: with_shares_def)
qed

lemma counts_keys:
  assumes "with_counts deps h opts base out s = (Inr out', s')" "f \<in> status_keys out'"
  shows "f \<in> status_keys out \<or>
    (f \<in> {''file-count'', ''dir-count''} \<and> Has (op_Fields opts) f \<and> st_type base = ObjectTypeDir)"
proof (cases "st_type base = ObjectTypeDir \<and> HasAny (op_Fields opts) [''file-count'', ''dir-count'']")
  case True
  then obtain files dirs where out':
    "out' = out\<lparr>so_FileCount := (if Has (op_Fields opts) ''file-count'' then Some files else so_FileCount out),
                so_DirCount := (if Has (op_Fields opts) ''dir-count'' then Some dirs else so_DirCount out)\<rparr>"
    using assms(1) by (auto simp: with_counts_def bindM_eq_Inr)
  define mid where "mid = out\<lparr>so_FileCount := (if Has (op_Fields opts) ''file-count'' then Some files else so_FileCount out)\<rparr>"
  have "out' = (if Has (op_Fields opts) ''dir-count'' then mid\<lparr>so_DirCount := Some dirs\<rparr> else mid)"
    by (simp add: out' mid_def)
  with assms(2) dir_count_keys [where out = mid and n = "Some dirs"]
  have dir: "f \<in> status_keys mid \<or> (f = ''dir-count'' \<and> Has (op_Fields opts) f)"
    by (cases "Has (op_Fields opts) ''dir-count''") (simp, blast, simp)
  have "mid = (if Has (op_Fields opts) ''file-count'' then out\<lparr>so_FileCount := Some files\<rparr> else out)"
    by (simp add: mid_def)
  with file_count_keys [where out = out and n = "Some files"]
  have "f \<in> status_keys mid \<Longrightarrow> f \<in> status_keys out \<or> (f = ''file-count'' \<and> Has (op_Fields opts) f)"
    by (cases "Has (op_Fields opts) ''file-count''") (simp, blast, simp)
  with dir True show ?thesis by blast
next
  case False
  with assms show ?thesis
    by (auto simp: with_counts_def)
qed

lemma ParseFieldSet_chosen:
  "Has (ParseFieldSet incl excl) f \<longleftrightarrow>
     f \<in> set AllStatFields \<and> (trim_space incl = [] \<or> f \<in> set (splitFields incl)) \<and>
     (trim_space excl = [] \<or> f \<notin> set (splitFields excl))"
  by (auto simp: Has_def ParseFieldSet_def Let_def)

lemma distinct_subseq: "subseq xs ys \<Longrightarrow> distinct ys \<Longrightarrow> distinct xs"
  by (auto simp: subseq_conv_nths)

lemma text_field_subseq: "subseq (map fst (text_field k v)) [k]"
  by (simp add: text_field_def)

lemma opt_field_subseq: "subseq (map fst (opt_field f k v)) [k]"
  by (simp add: opt_field_def split: option.split)

lemma status_keys_distinct: "distinct (map fst (status_fields out))"
proof -
  have "subseq (map fst (status_fields out))
      ([''id''] @ [''path''] @ [''type''] @ [''label''] @ [''date-created''] @ [''date-modified''] @ [''permission''] @
       [''share-count''] @ [''file-count''] @ [''dir-count''] @ [''file-size''] @ [''content-type''] @ [''infoType''] @ [''md5''])"
    unfolding status_fields_def map_append
    by (intro list_emb_append_mono text_field_subseq opt_field_subseq)
  then show ?thesis
    by (rule distinct_subseq) simp
qed

lemma status_key_typed:
  assumes "with_shares deps h user opts base (base_status user opts base) s1 = (Inr out1, s2)"
    and "with_counts deps h opts base out1 s2 = (Inr out, s')" and "f \<in> status_keys out"
  shows "Has (op_Fields opts) f \<and> (f = ''share-count'' \<longrightarrow> st_permission base = PermissionOwn) \<and>
      (f \<in> {''file-size'', ''content-type'', ''infoType'', ''md5''} \<longrightarrow> st_type base \<noteq> ObjectTypeDir) \<and>
      (f \<in> {''file-count'', ''dir-count''} \<longrightarrow> st_type base = ObjectTypeDir)"
proof -
  consider (base) "f \<in> status_keys (base_status user opts base)"
    | (shares) "f = ''share-count''" "Has (op_Fields opts) f" "st_permission base = PermissionOwn"
    | (counts) "f \<in> {''file-count'', ''dir-count''}" "Has (op_Fields opts) f" "st_type base = ObjectTypeDir"
    using counts_keys [OF assms(2,3)] shares_keys [OF assms(1)] by blast
  then show ?thesis
  proof cases
    case base
    from base_keys [OF this] show ?thesis by blast
  next
    case shares
    then show ?thesis by simp
  next
    case counts
    then show ?thesis by (elim insertE emptyE) simp_all
  qed
qed

text \<open>C25.  A status has each key at most once and only keys the request selected: known fields,
  named by the filter when it names any and not excluded.  How many it is shared with is reported
  to owners only, a file's size, type and checksum for files only, and counts for folders only.\<close>

theorem status_fields_typed:
  assumes "StatOf deps h user path opts s = (Inr out, s')" "op_Fields opts = ParseFieldSet incl excl"
  shows "distinct (map fst (status_fields out)) \<and>
    (\<exists>base s1. Stat deps h path s = (Inr base, s1) \<and>
      (\<forall>f \<in> status_keys out.
         f \<in> set AllStatFields \<and> (blank incl \<or> f \<in> set (splitFields incl)) \<and>
         (blank excl \<or> f \<notin> set (splitFields excl)) \<and>
         (f = ''share-count'' \<longrightarrow> st_permission base = PermissionOwn) \<and>
         (f \<in> {''file-size'', ''content-type'', ''infoType'', ''md5''} \<longrightarrow> st_type base \<noteq> ObjectTypeDir) \<and>
         (f \<in> {''file-count'', ''dir-count''} \<longrightarrow> st_type base = ObjectTypeDir)))"
proof -
  obtain base s1 out1 s2 where st: "Stat deps h path s = (Inr base, s1)"
    and steps: "with_shares deps h user opts base (base_status user opts base) s1 = (Inr out1, s2)"
      "with_counts deps h opts base out1 s2 = (Inr out, s')"
    using assms(1) by (auto simp: StatOf_def bindM_eq_Inr)
  have "\<forall>f \<in> status_keys out.
      f \<in> set AllStatFields \<and> (blank incl \<or> f \<in> set (splitFields incl)) \<and>
      (blank excl \<or> f \<notin> set (splitFields excl)) \<and>
      (f = ''share-count'' \<longrightarrow> st_permission base = PermissionOwn) \<and>
      (f \<in> {''file-size'', ''content-type'', ''infoType'', ''md5''} \<longrightarrow> st_type base \<noteq> ObjectTypeDir) \<and>
      (f \<in> {''file-count'', ''dir-count''} \<longrightarrow> st_type base = ObjectTypeDir)"
  proof
    fix f
    assume "f \<in> status_keys out"
    note typed = status_key_typed [OF steps this]
    from typed have "Has (op_Fields opts) f" by (rule conjunct1)
    then show "f \<in> set AllStatFields \<and> (blank incl \<or> f \<in> set (splitFields incl)) \<and>
        (blank excl \<or> f \<notin> set (splitFields excl)) \<and>
        (f = ''share-count'' \<longrightarrow> st_permission base = PermissionOwn) \<and>
        (f \<in> {''file-size'', ''content-type'', ''infoType'', ''md5''} \<longrightarrow> st_type base \<noteq> ObjectTypeDir) \<and>
        (f \<in> {''file-count'', ''dir-count''} \<longrightarrow> st_type base = ObjectTypeDir)"
      unfolding assms(2) ParseFieldSet_chosen blank_def
      using typed [THEN conjunct2] by (elim conjE) (intro conjI; assumption)
  qed
  with st status_keys_distinct show ?thesis
    by blast
qed

definition sample_view :: "mem_world env" where
  "sample_view =
     \<lparr>env_world = \<lparr>mw_acls = [(''/z/h/a'', [(''a'', PermissionOwn), (''b'', PermissionRead)])],
        mw_inherits = [], mw_avus = [], mw_tickets = []\<rparr>,
      env_scopes = (\<lambda>_. empty_scope ''a'')\<rparr>"

definition sample_options :: stat_options where
  "sample_options =
     \<lparr>op_Fields = AllStatFields,
      op_Layout = \<lparr>Zone = ''z'', Home = ''/z/h'', CommunityData = ''/z/c''\<rparr>, op_PermsFilter = []\<rparr>"

definition sample_status :: "(gerror + status) \<times> mem_world env" where
  "sample_status = StatOf mem_deps 0 ''a'' ''/z/h/a'' sample_options sample_view"

theorem status_fields_typed_witness:
  "map_of (status_fields (projr (fst sample_status))) ''share-count'' = Some (JInt 1) \<and>
   status_keys (projr (fst sample_status)) \<subseteq> set AllStatFields"
proof -
  have out: "fst sample_status = Inr (projr (fst sample_status))"
    by code_simp
  have ran: "StatOf mem_deps 0 ''a'' ''/z/h/a'' sample_options sample_view =
      (Inr (projr (fst sample_status)), snd sample_status)"
    unfolding sample_status_def [symmetric] by (subst out [symmetric]) simp
  have "op_Fields sample_options = ParseFieldSet [] []"
    by (simp add: sample_options_def ParseFieldSet_def trim_space_def strip_any.simps space_encodings_def)
  from status_fields_typed [OF ran this]
  have "status_keys (projr (fst sample_status)) \<subseteq> set AllStatFields"
    by - (erule conjE, erule exE, erule exE, erule conjE, rule subsetI, drule (1) bspec, erule conjE, assumption)
  moreover have "map_of (status_fields (projr (fst sample_status))) ''share-count'' = Some (JInt 1)"
    by code_simp
  ultimately show ?thesis by blast
qed

end
