(* ===== verification/Streams.thy ===== *)
theory Streams
  imports RodsScope Jobs
begin

text \<open>
  Reading and writing the contents of data objects: the streaming calls of \<open>internal/irodsclient\<close>
  (\<open>read.go\<close>, \<open>write.go\<close>) and the operations of the request scope over them (\<open>rods/read.go\<close>,
  \<open>rods/write.go\<close>).  The library's file handles are a parameter, numbered by it.  A source to copy
  from is its contents with the failure it ends in, if any.
\<close>

record 'w streams =
  st_open :: "string \<Rightarrow> string \<Rightarrow> ('w, nat) op"
  st_create :: "string \<Rightarrow> string \<Rightarrow> string \<Rightarrow> ('w, nat) op"
  st_read_at :: "nat \<Rightarrow> int \<Rightarrow> int \<Rightarrow> ('w, string) op"
  st_read_limited :: "nat \<Rightarrow> int \<Rightarrow> ('w, string) op"
  st_write :: "nat \<Rightarrow> string \<Rightarrow> ('w, unit) op"
  st_close :: "nat \<Rightarrow> ('w, unit) op"

type_synonym source = "string \<times> gerror option"

text \<open>\<open>strconv.FormatInt(n, 10)\<close>.\<close>

definition FormatInt :: "int \<Rightarrow> string" where
  "FormatInt n = (if n < 0 then CHR ''-'' # itoa (nat (- n)) else itoa (nat n))"

section \<open>irodsclient\<close>

definition MaxChunkSize :: int where
  "MaxChunkSize = 64 * 2 ^ 20"

definition transferBufferSize :: nat where
  "transferBufferSize = 4 * 2 ^ 20"

definition cl_ReadAt :: "'w streams \<Rightarrow> string \<Rightarrow> int \<Rightarrow> int \<Rightarrow> ('w \<times> session, string) op" where
  "cl_ReadAt st path offset len =
     (if offset < 0 then
        failM (Plain (''irodsclient: a non-negative offset is required, got '' @ FormatInt offset))
      else if len < 0 then
        failM (Plain (''irodsclient: a non-negative length is required, got '' @ FormatInt len))
      else if len > MaxChunkSize then
        failM (Plain (''irodsclient: '' @ FormatInt len @ '' bytes is more than the '' @
          FormatInt MaxChunkSize @ '' this will read at once''))
      else if len = 0 then returnM []
      else run path (\<lambda>user. bindM (st_open st user path) (\<lambda>handle.
             finallyM (st_read_at st handle offset len) (st_close st handle))))"

definition cl_ReadFile :: "'w streams \<Rightarrow> string \<Rightarrow> int \<Rightarrow> ('w \<times> session, string) op" where
  "cl_ReadFile st path limit =
     run path (\<lambda>user. bindM (st_open st user path) (\<lambda>handle.
       finallyM
         (bindM (st_read_limited st handle (limit + 1)) (\<lambda>contents.
            if int (length contents) > limit then
              failM (Plain (quoted path @ '' is larger than the '' @ FormatInt limit @ '' bytes this endpoint will read''))
            else returnM contents))
         (st_close st handle)))"

text \<open>The writes of a copy: full buffers, and what is left when the source ends well.\<close>

function full_buffers :: "nat \<Rightarrow> string \<Rightarrow> string list" where
  "full_buffers n s =
     (if n = 0 \<or> length s < n then [] else take n s # full_buffers n (drop n s))"
  by pat_completeness auto
termination
  by (relation "measure (\<lambda>(n, s). length s)") auto

declare full_buffers.simps [simp del]

definition remainder :: "nat \<Rightarrow> string \<Rightarrow> string" where
  "remainder n s = drop (length (concat (full_buffers n s))) s"

definition copyInFullWrites :: "(string \<Rightarrow> ('w, unit) op) \<Rightarrow> source \<Rightarrow> ('w, int) op" where
  "copyInFullWrites write_to src =
     (case src of (contents, failure) \<Rightarrow>
        thenM (forM write_to (full_buffers transferBufferSize contents))
          (case failure of
             Some e \<Rightarrow> failM e
           | None \<Rightarrow>
               thenM (if remainder transferBufferSize contents = [] then returnM ()
                      else write_to (remainder transferBufferSize contents))
                 (returnM (int (length contents)))))"

text \<open>\<open>WriteFile\<close>: a failed copy is reported over a failed close.\<close>

definition cl_WriteFile :: "'w streams \<Rightarrow> string \<Rightarrow> source \<Rightarrow> string \<Rightarrow> ('w \<times> session, int) op" where
  "cl_WriteFile st path src resource =
     run path (\<lambda>user. bindM (st_create st user path resource) (\<lambda>handle w.
       case copyInFullWrites (st_write st handle) src w of
         (Inl copyErr, w') \<Rightarrow> (Inl copyErr, snd (st_close st handle w'))
       | (Inr written, w') \<Rightarrow>
           (case st_close st handle w' of
              (Inl closeErr, w'') \<Rightarrow> (Inl closeErr, w'')
            | (Inr _, w'') \<Rightarrow> (Inr written, w''))))"

text \<open>\<open>OpenReader\<close>; the reader is the handle.\<close>

definition cl_OpenReader :: "'w streams \<Rightarrow> string \<Rightarrow> ('w \<times> session, nat) op" where
  "cl_OpenReader st path = run path (\<lambda>user. st_open st user path)"

section \<open>The request scope\<close>

definition MaxReadableFileSize :: int where
  "MaxReadableFileSize = 32 * 2 ^ 20"

definition ReadFile :: "'w deps \<Rightarrow> 'w streams \<Rightarrow> nat \<Rightarrow> string \<Rightarrow> ('w env, string) op" where
  "ReadFile deps st h path = with_session deps h (cl_ReadFile st (normalizePath path) MaxReadableFileSize)"

definition ReadAt :: "'w deps \<Rightarrow> 'w streams \<Rightarrow> nat \<Rightarrow> string \<Rightarrow> int \<Rightarrow> int \<Rightarrow> ('w env, string) op" where
  "ReadAt deps st h path offset len = with_session deps h (cl_ReadAt st (normalizePath path) offset len)"

definition OpenFile :: "'w deps \<Rightarrow> 'w streams \<Rightarrow> nat \<Rightarrow> string \<Rightarrow> ('w env, nat) op" where
  "OpenFile deps st h path = with_session deps h (cl_OpenReader st (normalizePath path))"

definition WriteFile :: "'w deps \<Rightarrow> 'w streams \<Rightarrow> nat \<Rightarrow> string \<Rightarrow> source \<Rightarrow> ('w env, int) op" where
  "WriteFile deps st h path src =
     bindM (with_session deps h (cl_WriteFile st (normalizePath path) src [])) (\<lambda>written.
       thenM (invalidate h (normalizePath path)) (returnM written))"

section \<open>What is written\<close>

text \<open>However a source is cut into writes, they are its contents; all but the last are full buffers,
  and none is empty.\<close>

lemma concat_full_buffers: "prefix (concat (full_buffers n s)) s"
proof (induction n s rule: full_buffers.induct)
  case (1 n s)
  then show ?case
    by (subst full_buffers.simps)
      (auto simp: prefix_def, metis append_assoc append_take_drop_id)
qed

lemma full_buffers_remainder: "concat (full_buffers n s) @ remainder n s = s"
proof -
  obtain zs where "s = concat (full_buffers n s) @ zs"
    using concat_full_buffers [of n s] by (auto simp: prefix_def)
  then have "drop (length (concat (full_buffers n s))) s = zs"
    by (metis append_eq_conv_conj)
  with \<open>s = _\<close> show ?thesis
    by (simp add: remainder_def)
qed

lemma full_buffers_length: "b \<in> set (full_buffers n s) \<Longrightarrow> length b = n \<and> 0 < n"
proof (induction n s rule: full_buffers.induct)
  case (1 n s)
  from "1.prems" "1.IH" show ?case
    by (subst (asm) full_buffers.simps) (auto split: if_splits)
qed

end
