(* ===== verification/Chunks.thy ===== *)
theory Chunks
  imports GoStrings
begin

unbundle bit_operations_syntax

text \<open>
  Spans of files (\<open>internal/service/chunks.go\<close>): decoding a span read at an arbitrary offset, the
  pages of a tabular file and their whole lines, and the parsing of delimited text with Go's
  \<open>encoding/csv\<close> reader as the code configures it (no comments, ragged rows, lazy quotes).  Offsets
  and sizes are 64-bit and wrap.
\<close>

section \<open>Decoding a span\<close>

definition isContinuationByte :: "char \<Rightarrow> bool" where
  "isContinuationByte b \<longleftrightarrow> (of_char b :: nat) AND 0xC0 = 0x80"

definition utf8SequenceLength :: "char \<Rightarrow> nat option" where
  "utf8SequenceLength b =
     (let n = (of_char b :: nat)
      in if n < 0x80 then Some 1
         else if n < 0xC0 then None
         else if n < 0xE0 then Some 2
         else if n < 0xF0 then Some 3
         else if n < 0xF8 then Some 4
         else None)"

definition leading :: "string \<Rightarrow> nat" where
  "leading buffer = length (takeWhile isContinuationByte (take 3 buffer))"

fun last_lead :: "string \<Rightarrow> nat \<Rightarrow> nat \<Rightarrow> nat" where
  "last_lead buffer start i =
     (if i > start \<and> isContinuationByte (buffer ! i) then last_lead buffer start (i - 1) else i)"

declare last_lead.simps [simp del]

definition DecodeChunk :: "string \<Rightarrow> bool \<Rightarrow> string" where
  "DecodeChunk buffer trimLeading =
     (if buffer = [] then []
      else let start = (if trimLeading then leading buffer else 0);
               lead = last_lead buffer start (length buffer - 1);
               end' = (if lead \<ge> start then
                         (case utf8SequenceLength (buffer ! lead) of
                            Some need \<Rightarrow> if lead + need > length buffer then lead else length buffer
                          | None \<Rightarrow> length buffer)
                       else length buffer)
        in if start \<ge> end' then [] else take (end' - start) (drop start buffer))"

section \<open>Pages of a tabular file\<close>

record tabular_page =
  tp_Page :: int
  tp_Pages :: int
  tp_LoadOffset :: int
  tp_LoadLength :: int

definition pageCount :: "int \<Rightarrow> int \<Rightarrow> int" where
  "pageCount sz fileSize =
     (if sz \<le> 0 then 0 else go_div (wrap64 (wrap64 (fileSize + sz) - 1)) sz)"

definition PlanTabularPage :: "int \<Rightarrow> int \<Rightarrow> int \<Rightarrow> tabular_page" where
  "PlanTabularPage page sz fileSize =
     (let zeroBased = wrap64 (page - 1);
          loadPage = (if zeroBased \<noteq> 0 then wrap64 (zeroBased - 1) else zeroBased);
          len = (if zeroBased \<noteq> 0 then wrap64 (sz * 2) else sz);
          offset = (if loadPage \<noteq> 0 then wrap64 (sz * loadPage) else 0)
      in \<lparr>tp_Page = zeroBased, tp_Pages = pageCount sz fileSize, tp_LoadOffset = offset, tp_LoadLength = len\<rparr>)"

abbreviation newline :: char where "newline \<equiv> CHR 0x0A"

text \<open>The offset just after the last newline at an index from \<open>i\<close> down to 1.\<close>

primrec seek_back :: "string \<Rightarrow> nat \<Rightarrow> nat" where
  "seek_back chunk 0 = 0"
| "seek_back chunk (Suc i) = (if chunk ! Suc i = newline then Suc (Suc i) else seek_back chunk i)"

definition seekLineStart :: "string \<Rightarrow> int \<Rightarrow> nat" where
  "seekLineStart chunk position0 =
     (let position = (if position0 \<ge> int (length chunk) then int (length chunk) - 1 else position0)
      in if position \<le> 0 then 0 else seek_back chunk (nat position))"

definition TrimToWholeLines :: "string \<Rightarrow> int \<Rightarrow> tabular_page \<Rightarrow> string" where
  "TrimToWholeLines chunk sz page =
     (if chunk = [] then []
      else let pageStart = (if tp_Page page \<noteq> 0 then wrap64 (sz - 1) else 0);
               start = seekLineStart chunk pageStart;
               end' = (if tp_Page page \<noteq> wrap64 (tp_Pages page - 1)
                       then seekLineStart chunk (int (length chunk) - 1) else length chunk)
        in if start \<ge> end' then [] else take (end' - start) (drop start chunk))"

section \<open>Delimited text\<close>

text \<open>\<open>csv.Reader.readLine\<close>: a line with its newline, \<open>\r\n\<close> read as \<open>\n\<close>; a last line without one
  loses a trailing \<open>\r\<close>.\<close>

abbreviation cr :: char where "cr \<equiv> CHR 0x0D"

abbreviation quote :: char where "quote \<equiv> CHR 0x22"

definition chop_cr :: "string \<Rightarrow> string" where
  "chop_cr l = (if l \<noteq> [] \<and> last l = cr then butlast l else l)"

definition readLine :: "string \<Rightarrow> (string \<times> string) option" where
  "readLine s =
     (if s = [] then None
      else let raw = takeWhile (\<lambda>c. c \<noteq> newline) s; rest = drop (length raw) s
        in if rest = [] then Some (chop_cr raw, []) else Some (chop_cr raw @ [newline], tl rest))"

definition blank_line :: "string \<Rightarrow> bool" where
  "blank_line l \<longleftrightarrow> l = [] \<or> l = [newline]"

lemma length_chop_cr: "length (chop_cr l) \<le> length l"
  by (simp add: chop_cr_def)

lemma readLine_shorter: "readLine s = Some (line, rest) \<Longrightarrow> length line + length rest \<le> length s \<and> length rest < length s"
proof -
  assume "readLine s = Some (line, rest)"
  moreover have "length (takeWhile (\<lambda>c. c \<noteq> newline) s) \<le> length s"
    by (rule length_takeWhile_le)
  ultimately show ?thesis
    using length_chop_cr [of "takeWhile (\<lambda>c. c \<noteq> newline) s"]
    by (auto simp: readLine_def Let_def split: if_splits)
qed

text \<open>The first line of the next record: blank lines are skipped.\<close>

function first_line :: "string \<Rightarrow> (string \<times> string) option" where
  "first_line s =
     (case readLine s of
        None \<Rightarrow> None
      | Some (line, rest) \<Rightarrow> if blank_line line then first_line rest else Some (line, rest))"
  by pat_completeness auto
termination
  by (relation "measure length") (auto dest!: readLine_shorter)

declare first_line.simps [simp del]

text \<open>Whether the next code point is \<open>r\<close>, and where \<open>r\<close> first occurs.\<close>

definition next_is :: "string \<Rightarrow> string \<Rightarrow> bool" where
  "next_is r line \<longleftrightarrow> r \<noteq> [] \<and> has_prefix line r"

definition index_of :: "string \<Rightarrow> string \<Rightarrow> nat option" where
  "index_of r line = find (\<lambda>i. next_is r (drop i line)) [0..<length line]"

lemma index_of_less: "index_of r line = Some i \<Longrightarrow> i < length line"
  by (auto simp: index_of_def find_Some_iff)

lemma index_of_advance:
  assumes "index_of r line = Some i"
  shows "0 < length r" "i < length line"
proof -
  from assms have "next_is r (drop i line)"
    by (auto simp: index_of_def find_Some_iff)
  then show "0 < length r"
    by (simp add: next_is_def)
  show "i < length line"
    using assms by (rule index_of_less)
qed

text \<open>The fields of a record.  \<open>quoted\<close> says whether a quoted field is being read, \<open>buf\<close> what it holds
  so far, \<open>fs\<close> the fields before it, \<open>line\<close> the rest of the line and \<open>rest\<close> the lines after it.\<close>

function parse_fields ::
    "string \<Rightarrow> bool \<Rightarrow> string \<Rightarrow> string list \<Rightarrow> string \<Rightarrow> string \<Rightarrow> string list \<times> string" where
  "parse_fields comma quoted buf fs line rest =
     (if \<not> quoted then
        (if line = [] \<or> hd line \<noteq> quote then
           (case index_of comma line of
              Some i \<Rightarrow> parse_fields comma False [] (fs @ [take i line]) (drop (i + length comma) line) rest
            | None \<Rightarrow> (fs @ [if line \<noteq> [] \<and> last line = newline then butlast line else line], rest))
         else parse_fields comma True [] fs (tl line) rest)
      else
        (case index_of [quote] line of
           Some i \<Rightarrow>
             let buf' = buf @ take i line; line' = drop (Suc i) line
             in if next_is [quote] line' then parse_fields comma True (buf' @ [quote]) fs (tl line') rest
                else if next_is comma line' then
                  parse_fields comma False [] (fs @ [buf']) (drop (length comma) line') rest
                else if blank_line line' then (fs @ [buf'], rest)
                else parse_fields comma True (buf' @ [quote]) fs line' rest
         | None \<Rightarrow>
             if line \<noteq> [] then
               (case readLine rest of
                  None \<Rightarrow> (fs @ [buf @ line], [])
                | Some (line', rest') \<Rightarrow> parse_fields comma True (buf @ line) fs line' rest')
             else (fs @ [buf], rest)))"
  by pat_completeness (simp only: prod.inject)

termination
proof (relation "measure (\<lambda>(comma, quoted, buf, fs, line, rest). length line + length rest)", goal_cases)
  case (2 comma quoted buf fs line rest i)
  then have "0 < length comma" "i < length line"
    using index_of_advance by blast+
  then have "length (drop (i + length comma) line) < length line"
    by (simp only: length_drop)
  then show ?case by simp
next
  case (3 comma quoted buf fs line rest)
  then show ?case by (cases line) auto
next
  case (4 comma quoted buf fs line rest x line' rest')
  then have "0 < length line" "length line' + length rest' \<le> length rest"
    using readLine_shorter by auto
  then have "length line' + length rest' < length line + length rest"
    by linarith
  then show ?case by simp
next
  case (5 comma quoted buf fs line rest i buf' line')
  then have "length line' < length line"
    using index_of_advance [of "[quote]" line i] by simp
  then show ?case by simp
next
  case (6 comma quoted buf fs line rest i buf' line')
  then have "length line' < length line"
    using index_of_advance [of "[quote]" line i] by simp
  then show ?case by simp
next
  case (7 comma quoted buf fs line rest i buf' line')
  then have "length line' < length line"
    using index_of_advance [of "[quote]" line i] by simp
  then show ?case by simp
qed simp

declare parse_fields.simps [simp del]

definition readRecord :: "string \<Rightarrow> string \<Rightarrow> (string list \<times> string) option" where
  "readRecord comma s =
     (case first_line s of
        None \<Rightarrow> None
      | Some (line, rest) \<Rightarrow> Some (parse_fields comma False [] [] line rest))"

text \<open>\<open>blankRows\<close>: one row per empty line a span starts with.\<close>

definition blankRows :: "string \<Rightarrow> (string \<times> string) list list" where
  "blankRows span =
     map (\<lambda>_. [(''0'', [])]) (takeWhile (\<lambda>line. chop_cr line = []) (butlast (split_on newline span)))"

definition rowOf :: "string list \<Rightarrow> (string \<times> string) list" where
  "rowOf fs = map (\<lambda>(i, v). (itoa i, v)) (enumerate 0 fs)"

lemma parse_fields_rest: "length (snd (parse_fields comma quoted buf fs line rest)) \<le> length rest"
proof (induction comma quoted buf fs line rest rule: parse_fields.induct)
  case (1 comma quoted buf fs line rest)
  have later: "length (snd (parse_fields comma True (buf @ line) fs line' rest')) \<le> length rest"
    if "quoted" "index_of [quote] line = None" "line \<noteq> []" and read: "readLine rest = Some (line', rest')" for line' rest'
    using "1.IH"(3) [of "(line', rest')" line' rest'] that readLine_shorter [OF read] by simp
  show ?case
  proof (cases quoted)
    case False
    show ?thesis
    proof (cases "line = [] \<or> hd line \<noteq> quote")
      case bare: True
      show ?thesis
      proof (cases "index_of comma line")
        case None
        with False bare show ?thesis
          by (subst parse_fields.simps) simp
      next
        case (Some i)
        from False bare Some "1.IH"(1) [of i] show ?thesis
          by (subst parse_fields.simps) (simp only: if_True if_False not_False_eq_True option.case simp_thms)
      qed
    next
      case opened: False
      from False opened "1.IH"(2) show ?thesis
        by (subst parse_fields.simps) (simp only: if_True if_False not_False_eq_True simp_thms)
    qed
  next
    case quoted: True
    show ?thesis
    proof (cases "index_of [quote] line")
      case (Some i)
      with quoted "1.IH"(4-6) [of i "buf @ take i line" "drop (Suc i) line"] show ?thesis
        by (subst parse_fields.simps) (simp add: Let_def)
    next
      case None
      with quoted later show ?thesis
        by (subst parse_fields.simps) (simp split: option.split)
    qed
  qed
qed

lemma first_line_shorter: "first_line s = Some (line, rest) \<Longrightarrow> length rest < length s"
proof (induction s rule: first_line.induct)
  case (1 s)
  from "1.prems" "1.IH" show ?case
    by (subst (asm) first_line.simps)
      (fastforce split: option.splits prod.splits if_splits dest: readLine_shorter)
qed

lemma readRecord_shorter:
  assumes "readRecord comma s = Some (fs, rest)"
  shows "length rest < length s"
proof -
  obtain line rest' where "first_line s = Some (line, rest')" "parse_fields comma False [] [] line rest' = (fs, rest)"
    using assms by (auto simp: readRecord_def split: option.splits)
  with first_line_shorter [of s line rest'] parse_fields_rest [of comma False "[]" "[]" line rest'] show ?thesis
    by simp
qed

function rows_of :: "string \<Rightarrow> string \<Rightarrow> (string \<times> string) list list" where
  "rows_of comma s =
     (case readRecord comma s of
        None \<Rightarrow> blankRows s
      | Some (fs, rest) \<Rightarrow> blankRows (take (length s - length rest) s) @ [rowOf fs] @ rows_of comma rest)"
  by pat_completeness auto
termination
  by (relation "measure (\<lambda>(comma, s). length s)") (auto dest: readRecord_shorter)

declare rows_of.simps [simp del]

definition invalid_delimiters :: "string list" where
  "invalid_delimiters = [[CHR 0x00], [quote], [cr], [newline], rune_error]"

definition ParseDelimited :: "string \<Rightarrow> string \<Rightarrow> gerror + (string \<times> string) list list" where
  "ParseDelimited chunk separator =
     (if trim_space chunk = [] then Inr [[]]
      else case runes separator of
        [] \<Rightarrow> Inl (Plain ''a separator is required to parse delimited text'')
      | comma # _ \<Rightarrow>
          if List.member invalid_delimiters comma then Inl (Plain ''csv: invalid field or comment delimiter'')
          else Inr (rows_of comma chunk))"

definition WidestRow :: "(string \<times> string) list list \<Rightarrow> nat" where
  "WidestRow rows = foldl (\<lambda>widest row. if length row > widest then length row else widest) 0 rows"

section \<open>Rows are lines\<close>

text \<open>The lines of a text: a last one without its newline counts unless it is empty.\<close>

definition lines_of :: "string \<Rightarrow> string list" where
  "lines_of s = (let ls = split_on newline s in if last ls = [] then butlast ls else ls)"

lemma lines_of_Nil [simp]: "lines_of [] = []"
  by (simp add: lines_of_def)

lemma lines_of_last: "newline \<notin> set l \<Longrightarrow> l \<noteq> [] \<Longrightarrow> lines_of l = [l]"
  by (simp add: lines_of_def split_on_no_sep)

lemma lines_of_Cons: "newline \<notin> set l \<Longrightarrow> lines_of (l @ newline # rest) = l # lines_of rest"
  using split_on_nonempty [of newline rest]
  by (simp add: lines_of_def Let_def split_on_append)

lemma find_upt_first:
  assumes "i < n" "P i" "\<And>j. j < i \<Longrightarrow> \<not> P j"
  shows "find P [0..<n] = Some i"
  using assms by (auto simp: find_Some_iff intro!: exI [of _ i])

lemma next_is_char: "next_is [c] line \<longleftrightarrow> line \<noteq> [] \<and> hd line = c"
  by (cases line) (auto simp: next_is_def)

lemma index_of_char: "c \<notin> set a \<Longrightarrow> index_of [c] (a @ c # b) = Some (length a)"
  unfolding index_of_def by (rule find_upt_first) (auto simp: next_is_char hd_drop_conv_nth hd_append)

lemma index_of_none: "c \<notin> set xs \<Longrightarrow> index_of [c] xs = None"
  by (auto simp: index_of_def find_None_iff next_is_char hd_drop_conv_nth)

lemma parse_bare:
  assumes "quote \<notin> set l" "newline \<notin> set l" "c \<noteq> newline" "ending = [] \<or> ending = [newline]"
  shows "parse_fields [c] False buf fs (l @ ending) rest = (fs @ split_on c l, rest)"
  using assms(1,2)
proof (induction "length l" arbitrary: l buf fs rule: less_induct)
  case less
  have bare: "l @ ending = [] \<or> hd (l @ ending) \<noteq> quote"
    using less.prems assms(4) by (cases l) auto
  show ?case
  proof (cases "c \<in> set l")
    case True
    then obtain a b where l: "l = a @ c # b" "c \<notin> set a"
      by (meson split_list_first)
    then have "index_of [c] (l @ ending) = Some (length a)"
      by (simp add: index_of_char)
    with bare less.hyps [of b] less.prems l show ?thesis
      by (subst parse_fields.simps) (simp add: split_on_append)
  next
    case False
    then have "index_of [c] (l @ ending) = None"
      using assms(3,4) by (intro index_of_none) auto
    moreover have "last l \<noteq> newline" if "l \<noteq> []"
      using that less.prems(2) last_in_set by metis
    ultimately show ?thesis
      using bare assms(4) False by (subst parse_fields.simps) (auto simp: split_on_no_sep)
  qed
qed

lemma readLine_terminated:
  assumes "newline \<notin> set l" "cr \<notin> set l"
  shows "readLine (l @ newline # rest) = Some (l @ [newline], rest)"
proof -
  have "last l \<noteq> cr" if "l \<noteq> []"
    using that assms(2) last_in_set by metis
  with assms show ?thesis
    by (auto simp: readLine_def chop_cr_def takeWhile_append)
qed

lemma readLine_unterminated:
  assumes "newline \<notin> set l" "cr \<notin> set l" "l \<noteq> []"
  shows "readLine l = Some (l, [])"
proof -
  have "last l \<noteq> cr"
    using assms last_in_set by metis
  moreover have all: "takeWhile (\<lambda>c. c \<noteq> newline) l = l"
    using assms(1) by (auto simp: takeWhile_eq_all_conv)
  ultimately show ?thesis
    using assms(3) unfolding readLine_def chop_cr_def all by simp
qed

lemma first_line_skip: "first_line (newline # s) = first_line s"
  using readLine_terminated [of "[]" s] by (subst first_line.simps) (simp add: blank_line_def)

lemma blankRows_skip: "blankRows (newline # s) = [(''0'', [])] # blankRows s"
  by (simp add: blankRows_def chop_cr_def)

lemma rows_skip: "rows_of comma (newline # s) = [(''0'', [])] # rows_of comma s"
proof (cases "readRecord comma s")
  case None
  then show ?thesis
    by (simp add: rows_of.simps [of comma "newline # s"] rows_of.simps [of comma s] readRecord_def
        first_line_skip blankRows_skip split: option.splits)
next
  case (Some r)
  obtain fs rest where r: "r = (fs, rest)" by force
  with Some readRecord_shorter have "length rest < length s" by blast
  moreover have "readRecord comma (newline # s) = Some (fs, rest)"
    using Some r by (simp add: readRecord_def first_line_skip)
  ultimately show ?thesis
    using Some r
    by (simp add: rows_of.simps [of comma "newline # s"] rows_of.simps [of comma s] Suc_diff_le blankRows_skip)
qed

lemma rows_Nil [simp]: "rows_of comma [] = []"
  by (simp add: rows_of.simps readRecord_def first_line.simps readLine_def blankRows_def)

lemma rows_line:
  assumes "quote \<notin> set l" "newline \<notin> set l" "cr \<notin> set l" "l \<noteq> []" "c \<noteq> newline"
  shows "rows_of [c] (l @ newline # rest) = rowOf (split_on c l) # rows_of [c] rest"
    and "rows_of [c] l = [rowOf (split_on c l)]"
proof -
  have "last l \<noteq> cr"
    using assms(3,4) last_in_set by metis
  then have nonblank: "\<not> blank_line (l @ [newline])" "\<not> blank_line l" "chop_cr l \<noteq> []"
    using assms by (auto simp: blank_line_def chop_cr_def)
  have "readRecord [c] (l @ newline # rest) = Some (split_on c l, rest)"
    using parse_bare [OF assms(1,2,5), of "[newline]"] nonblank
    by (simp add: readRecord_def first_line.simps [of "l @ newline # rest"] readLine_terminated assms)
  then show "rows_of [c] (l @ newline # rest) = rowOf (split_on c l) # rows_of [c] rest"
    using nonblank by (subst rows_of.simps) (simp add: blankRows_def split_on_append split_on_no_sep assms)
  have "readRecord [c] l = Some (split_on c l, [])"
    using parse_bare [OF assms(1,2,5), of "[]"] nonblank
    by (simp add: readRecord_def first_line.simps [of l] readLine_unterminated assms)
  then show "rows_of [c] l = [rowOf (split_on c l)]"
    by (subst rows_of.simps) (simp add: blankRows_def split_on_no_sep assms)
qed

lemma rows_of_lines:
  assumes "quote \<notin> set s" "cr \<notin> set s" "c \<noteq> newline"
  shows "rows_of [c] s = map (\<lambda>l. rowOf (split_on c l)) (lines_of s)"
  using assms(1,2)
proof (induction "length s" arbitrary: s rule: less_induct)
  case less
  have empty: "rowOf (split_on c []) = [(''0'', [])]"
    by (simp add: rowOf_def itoa.simps) code_simp
  show ?case
  proof (cases "newline \<in> set s")
    case True
    then obtain l rest where s: "s = l @ newline # rest" "newline \<notin> set l"
      by (meson split_list_first)
    with less have "rows_of [c] rest = map (\<lambda>l. rowOf (split_on c l)) (lines_of rest)"
      by simp
    with s less.prems assms(3) empty rows_line(1) [of l c rest] show ?thesis
      by (cases "l = []") (simp_all add: rows_skip lines_of_Cons lines_of_Cons [of "[]", simplified])
  next
    case False
    with less.prems assms(3) show ?thesis
      by (cases "s = []") (simp_all add: rows_line(2) lines_of_last)
  qed
qed

lemma runes_ascii: "of_char c < (128 :: nat) \<Longrightarrow> runes [c] = [[c]]"
  by (simp add: runes.simps rune_width_def)

text \<open>C23.  On a text without quotes and carriage returns the parser agrees with its plain reading:
  every line is a row, blank lines included, and its columns are the line split at the separator.\<close>

theorem delimited_rows:
  assumes "quote \<notin> set chunk" "cr \<notin> set chunk"
    and "of_char c < (128 :: nat)" "c \<notin> {CHR 0x00, quote, cr, newline}"
  shows "ParseDelimited chunk [c] =
    Inr (if blank chunk then [[]] else map (\<lambda>l. rowOf (split_on c l)) (lines_of chunk))"
proof -
  have "\<not> List.member invalid_delimiters [c]"
    using assms(4) by (simp add: invalid_delimiters_def rune_error_def)
  with assms show ?thesis
    by (simp add: ParseDelimited_def blank_def runes_ascii rows_of_lines)
qed

theorem delimited_rows_witness:
  "ParseDelimited (''a,b'' @ [newline, newline] @ ''c'') '','' =
     Inr [[(''0'', ''a''), (''1'', ''b'')], [(''0'', [])], [(''0'', ''c'')]]"
proof -
  have "\<not> blank (''a,b'' @ [newline, newline] @ ''c'')"
    by code_simp
  moreover have "map (\<lambda>l. rowOf (split_on CHR '','' l)) (lines_of (''a,b'' @ [newline, newline] @ ''c'')) =
      [[(''0'', ''a''), (''1'', ''b'')], [(''0'', [])], [(''0'', ''c'')]]"
    by code_simp
  ultimately show ?thesis
    using delimited_rows [of "''a,b'' @ [newline, newline] @ ''c''" "CHR '',''"] by simp
qed

end
