(* ===== verification/ReadHandlers.thy ===== *)
theory ReadHandlers
  imports ServiceStats Streams Chunks TaskHandlers
begin

text \<open>
  The endpoints that only read: bulk and paged status (\<open>handlers/stats.go\<close>), existence,
  creatability and permissions (\<open>reads.go\<close>), folder listings and navigation (\<open>listing.go\<close>,
  \<open>listingparams.go\<close>, \<open>navigation.go\<close>, \<open>head.go\<close>), and file contents (\<open>chunks.go\<close>,
  \<open>download.go\<close>).  Lookups the code dispatches together are resolved one after another, when they
  are awaited.
\<close>

section \<open>stats.go\<close>

record stat_request =
  sq_Paths :: "string list"
  sq_IDs :: "string list"

text \<open>A map of results with the keys it is asked for, each once.\<close>

definition select :: "string list \<Rightarrow> (string \<times> 'a) list \<Rightarrow> (string \<times> 'a) list" where
  "select keys m = List.map_filter (\<lambda>k. map_option (Pair k) (map_of m k)) (remdups keys)"

definition statuses_json :: "(string \<times> status) list \<Rightarrow> json" where
  "statuses_json m = JObj (map (\<lambda>(k, st). (k, status_json st)) m)"

definition insufficientPermission :: "permission \<Rightarrow> api_error" where
  "insufficientPermission required =
     New (case required of PermissionOwn \<Rightarrow> ErrNotOwner | PermissionWrite \<Rightarrow> ErrNotWriteable | _ \<Rightarrow> ErrNotReadable)"

definition validationBehavior :: "string \<Rightarrow> permission" where
  "validationBehavior raw =
     (if raw = ''own'' then PermissionOwn else if raw = ''write'' then PermissionWrite else PermissionRead)"

definition resolveIDs :: "'w deps \<Rightarrow> nat \<Rightarrow> string list \<Rightarrow> bool \<Rightarrow> ('w env, (string \<times> string) list) op" where
  "resolveIDs deps h ids ignoreMissing =
     (if ids = [] then returnM []
      else bindM (PathsForUUIDs deps h ids) (\<lambda>found.
        let missing = filter (\<lambda>i. map_of found i = None) ids
        in if \<not> ignoreMissing \<and> missing \<noteq> []
           then failM (to_gerror (With ''ids'' (strings_json missing) (New ErrDoesNotExist)))
           else returnM found))"

definition missing_among :: "'w deps \<Rightarrow> nat \<Rightarrow> string list \<Rightarrow> ('w env, string list) op" where
  "missing_among deps h requested =
     foldM (\<lambda>missing p. bindM (Stat deps h p) (\<lambda>st. returnM (if st_exists st then missing else missing @ [p])))
       [] requested"

definition requirePathsExist :: "('w, 'b) handler_deps \<Rightarrow> string list \<Rightarrow> (('w, 'b) server, unit) op" where
  "requirePathsExist d requested = with_proxy d (on_env
     (bindM (Stats (hd_rods d) 1 requested) (\<lambda>_.
      bindM (missing_among (hd_rods d) 1 requested) (\<lambda>missing.
        if missing \<noteq> [] then failM (to_gerror (with_paths missing (New ErrDoesNotExist))) else returnM ()))))"

text \<open>What the caller may see, and what they may not at the level asked for.\<close>

definition visible_one ::
    "'w deps \<Rightarrow> nat \<Rightarrow> (string \<times> status) list \<Rightarrow> permission \<Rightarrow> (string \<times> status) list \<times> string list \<Rightarrow> string
      \<Rightarrow> ('w env, (string \<times> status) list \<times> string list) op" where
  "visible_one deps h stats behavior = (\<lambda>(out, inaccessible) p.
     bindM (Stat deps h p) (\<lambda>base.
       if \<not> st_exists base then returnM (out, inaccessible)
       else if \<not> Permits (st_permission base) behavior then returnM (out, inaccessible @ [p])
       else case map_of stats p of
         Some st \<Rightarrow> returnM (assoc_set p st out, inaccessible)
       | None \<Rightarrow> returnM (out, inaccessible)))"

definition filterVisible ::
    "'w deps \<Rightarrow> nat \<Rightarrow> string \<Rightarrow> string list \<Rightarrow> (string \<times> status) list \<Rightarrow> permission \<Rightarrow> bool
      \<Rightarrow> ('w env, (string \<times> status) list) op" where
  "filterVisible deps h user requested stats behavior ignoreInaccessible =
     bindM (foldM (visible_one deps h stats behavior) ([], []) requested) (\<lambda>(out, inaccessible).
       if inaccessible \<noteq> [] \<and> \<not> ignoreInaccessible
       then failM (to_gerror (With ''user'' (JStr user) (with_paths inaccessible (insufficientPermission behavior))))
       else returnM out)"

definition stat_options_of :: "('w, 'b) handler_deps \<Rightarrow> field_set \<Rightarrow> stat_options" where
  "stat_options_of d chosen = \<lparr>op_Fields = chosen, op_Layout = hd_Layout d, op_PermsFilter = hd_PermsFilter d\<rparr>"

definition gather_fields :: "'b request \<Rightarrow> bool \<Rightarrow> field_set" where
  "gather_fields rq filtered =
     (if filtered then ParseFieldSet (QueryParam rq ''filter-include'') (QueryParam rq ''filter-exclude'')
      else ParseFieldSet [] [])"

text \<open>\<open>gather\<close> once its caller is known: the paths, and the ids, it reports.\<close>

definition gather_in_scope ::
    "('w, 'b) handler_deps \<Rightarrow> string \<Rightarrow> stat_request \<Rightarrow> field_set \<Rightarrow> permission \<Rightarrow> bool \<Rightarrow> bool
      \<Rightarrow> (('w, 'b) server, (string \<times> status) list \<times> (string \<times> status) list) op" where
  "gather_in_scope d user body chosen behavior ignoreMissing ignoreInaccessible =
     bindM (on_env (resolveIDs (hd_rods d) 0 (sq_IDs body) ignoreMissing)) (\<lambda>pathsByID.
     let requested = sq_Paths body @ map snd pathsByID in
     thenM (if \<not> ignoreMissing \<and> sq_Paths body \<noteq> [] then requirePathsExist d (sq_Paths body) else returnM ())
    (bindM (on_env (StatsOf (hd_rods d) 0 user requested (stat_options_of d chosen))) (\<lambda>stats.
     bindM (on_env (filterVisible (hd_rods d) 0 user requested stats behavior ignoreInaccessible)) (\<lambda>visible.
       returnM (select (sq_Paths body) visible,
                List.map_filter (\<lambda>(i, p). map_option (Pair i) (map_of visible p)) pathsByID)))))"

definition gather ::
    "('w, 'b) handler_deps \<Rightarrow> stat_request request \<Rightarrow> bool
      \<Rightarrow> (('w, 'b) server, (string \<times> status) list \<times> (string \<times> status) list) op" where
  "gather d rq filtered =
     bindM (bindBody rq) (\<lambda>body.
     bindM (requireUser rq) (\<lambda>user.
     thenM (CheckPathCount d (length (sq_Paths body)))
    (thenM (CheckPathCount d (length (sq_IDs body)))
     (with_scope d 0 user
       (thenM (on_env (requireKnownUser (hd_rods d) 0 user True))
       (bindM (if filtered then boolParam rq ''ignore-missing'' else returnM False) (\<lambda>ignoreMissing.
        bindM (if filtered then boolParam rq ''ignore-inaccessible'' else returnM False) (\<lambda>ignoreInaccessible.
          gather_in_scope d user body (gather_fields rq filtered)
            (validationBehavior (QueryParam rq ''validation-behavior'')) ignoreMissing ignoreInaccessible))))))))"

definition statResponse :: "(string \<times> status) list \<times> (string \<times> status) list \<Rightarrow> json" where
  "statResponse = (\<lambda>(paths, ids). JObj [(''paths'', statuses_json paths), (''ids'', statuses_json ids)])"

definition Gather :: "('w, 'b) handler_deps \<Rightarrow> stat_request request \<Rightarrow> (('w, 'b) server, json) op" where
  "Gather d rq = bindM (gather d rq True) (\<lambda>out. returnM (statResponse out))"

definition GatherPlain :: "('w, 'b) handler_deps \<Rightarrow> stat_request request \<Rightarrow> (('w, 'b) server, json) op" where
  "GatherPlain d rq = bindM (gather d rq False) (\<lambda>out. returnM (statResponse out))"

section \<open>listingparams.go\<close>

text \<open>\<open>echo\<close>'s decoding of a wildcard would turn \<open>%2F\<close> in a name into a separator.\<close>

definition decodePathSegments :: "string \<Rightarrow> string option" where
  "decodePathSegments raw =
     map_option (join_with ''/'') (those (map PathUnescape (split_on slash raw)))"

definition routePrefix :: "string \<Rightarrow> string" where
  "routePrefix pattern = (case index_of ''/:zone'' pattern of Some i \<Rightarrow> take i pattern | None \<Rightarrow> [])"

definition pathFromRoute :: "'b request \<Rightarrow> ('s, string) op" where
  "pathFromRoute rq =
     (let zone = Param rq ''zone''; escaped = rq_escaped rq; pre = routePrefix (rq_pattern rq)
      in if zone = [] then schemaErrorM ''a zone is required''
         else if \<not> has_prefix escaped pre then schemaErrorM ''the request path does not match its route''
         else let remainder = trim_prefix (drop (length pre) escaped) ''/'';
                  remainder' = (case index_of ''/'' remainder of Some i \<Rightarrow> drop (Suc i) remainder | None \<Rightarrow> [])
           in case decodePathSegments remainder' of
                None \<Rightarrow> schemaErrorM ''the request path is not valid''
              | Some decoded \<Rightarrow> returnM (''/'' @ zone @ ''/'' @ decoded))"

definition QueryParams :: "'b request \<Rightarrow> string \<Rightarrow> string list" where
  "QueryParams rq name = (case map_of (rq_query rq) name of Some vs \<Rightarrow> vs | None \<Rightarrow> [])"

definition listingLimit :: "'b request \<Rightarrow> ('s, int) op" where
  "listingLimit rq =
     (let raw = QueryParam rq ''limit''
      in if raw = [] then failM (to_gerror (With ''parameters'' (JStr ''limit'') (New ErrMissingQueryParam)))
         else case parse_int64 raw of
           Some n \<Rightarrow> if n \<le> 0 then schemaErrorM ''limit must be a positive integer'' else returnM n
         | None \<Rightarrow> schemaErrorM ''limit must be a positive integer'')"

definition listingOffset :: "'b request \<Rightarrow> ('s, int) op" where
  "listingOffset rq =
     (let raw = QueryParam rq ''offset''
      in if raw = [] then returnM 0
         else case parse_int64 raw of
           Some n \<Rightarrow> if n < 0 then schemaErrorM ''offset must be a non-negative integer'' else returnM n
         | None \<Rightarrow> schemaErrorM ''offset must be a non-negative integer'')"

definition splitAll :: "string list \<Rightarrow> string list" where
  "splitAll values = filter (\<lambda>t. t \<noteq> []) (map trim_space (concat (map (split_on CHR '','') values)))"

text \<open>\<open>EqualFold(part, "unknown")\<close>: no code point but the letters and U+212A folds to a letter of the
  word, so lower case decides it.\<close>

definition infoTypeFilter :: "'b request \<Rightarrow> string list \<times> bool" where
  "infoTypeFilter rq =
     (let types = splitAll (QueryParams rq ''info-type'')
      in (types, list_ex (\<lambda>part. to_lower part = ''unknown'') types))"

definition badNameRule :: "(string \<Rightarrow> string \<Rightarrow> bool) \<Rightarrow> 'b request \<Rightarrow> bad_name_rule" where
  "badNameRule EqualFold rq =
     \<lparr>br_Chars = QueryParam rq ''bad-chars'', br_Names = splitAll (QueryParams rq ''bad-name''),
      br_Paths = splitAll (QueryParams rq ''bad-path''), br_EqualFold = EqualFold\<rparr>"

section \<open>stats.go: the paged listing of ids\<close>

definition schema_of :: "gerror + 'a \<Rightarrow> ('s, 'a) op" where
  "schema_of r = (case r of Inl e \<Rightarrow> schemaErrorM (error_text e) | Inr a \<Rightarrow> returnM a)"

definition split_listing ::
    "row list \<Rightarrow> (string \<times> status) list \<Rightarrow> status list \<times> status list" where
  "split_listing page stats =
     (let entries = List.map_filter (\<lambda>r. map_option (Pair r) (map_of stats (row_full_path r))) page
      in (map snd (filter (\<lambda>(r, st). \<not> IsCollection r) entries), map snd (filter (\<lambda>(r, st). IsCollection r) entries)))"

definition dataIDListing :: "status list \<times> status list \<Rightarrow> int \<Rightarrow> json" where
  "dataIDListing out n =
     JObj [(''files'', JArr (map status_json (fst out))), (''folders'', JArr (map status_json (snd out))), (''total'', JInt n)]"

definition id_query :: "string list \<Rightarrow> 'b request \<Rightarrow> string \<Rightarrow> sort_direction \<Rightarrow> int \<Rightarrow> int \<Rightarrow> uuid_listing_query" where
  "id_query ids rq column direction limit offset =
     \<lparr>uq_uuids = ids, uq_user = [], uq_zone = [], uq_groups = [], uq_info_types = fst (infoTypeFilter rq),
      uq_include_unknown = snd (infoTypeFilter rq), uq_attribute = [], uq_column = column,
      uq_direction = direction, uq_limit = limit, uq_offset = offset\<rparr>"

definition stats_Listing :: "('w, 'b) handler_deps \<Rightarrow> string list option request \<Rightarrow> (('w, 'b) server, json) op" where
  "stats_Listing d rq =
     bindM (bindBody rq) (\<lambda>body.
     case body of
       None \<Rightarrow> schemaErrorM ''ids is required''
     | Some ids \<Rightarrow>
         bindM (requireUser rq) (\<lambda>user.
         thenM (CheckPathCount d (length ids))
        (bindM (requiredIntParam rq ''limit'') (\<lambda>limit.
         if limit \<le> 0 then schemaErrorM ''limit must be a positive integer''
         else bindM (requiredIntParam rq ''offset'') (\<lambda>offset.
           if offset < 0 then schemaErrorM ''offset must be a non-negative integer''
           else bindM (schema_of (ResolveSortColumn (QueryParam rq ''sort-field''))) (\<lambda>column.
                bindM (schema_of (ResolveSortDirection (QueryParam rq ''sort-dir''))) (\<lambda>direction.
                with_scope d 0 user
                 (thenM (on_env (requireKnownUser (hd_rods d) 0 user True))
                 (let q = id_query ids rq column direction limit offset in
                  bindM (on_env (UUIDListing (hd_rods d) 0 q)) (\<lambda>page.
                  bindM (on_env (UUIDCount (hd_rods d) 0 q)) (\<lambda>n.
                  bindM (on_env (StatsOfLoaded (hd_rods d) 0 user (map row_full_path page)
                      (stat_options_of d (gather_fields rq True)))) (\<lambda>stats.
                    returnM (dataIDListing (split_listing page stats) n)))))))))))))"

section \<open>reads.go\<close>

definition bindPaths :: "('w, 'b) handler_deps \<Rightarrow> string list request \<Rightarrow> ('s, string \<times> string list) op" where
  "bindPaths d rq =
     bindM (bindBody rq) (\<lambda>paths.
     bindM (requireUser rq) (\<lambda>user.
       if paths = [] then schemaErrorM ''paths must not be empty''
       else thenM (CheckPathCount d (length paths)) (returnM (user, paths))))"

definition marks_json :: "(string \<times> bool) list \<Rightarrow> json" where
  "marks_json m = JObj [(''paths'', JObj (map (\<lambda>(p, b). (p, JBool b)) m))]"

definition existence_one :: "'w deps \<Rightarrow> string \<Rightarrow> ('w env, string \<times> bool) op" where
  "existence_one deps p = bindM (Stat deps 0 p) (\<lambda>st.
     returnM (p, st_exists st \<and> Permits (st_permission st) PermissionRead))"

definition Existence :: "('w, 'b) handler_deps \<Rightarrow> string list request \<Rightarrow> (('w, 'b) server, json) op" where
  "Existence d rq =
     bindM (bindPaths d rq) (\<lambda>(user, paths). with_scope d 0 user (on_env
       (thenM (requireKnownUser (hd_rods d) 0 user False)
       (bindM (Stats (hd_rods d) 0 paths) (\<lambda>_.
        bindM (mapM (existence_one (hd_rods d)) (remdups paths)) (\<lambda>out.
          returnM (marks_json out)))))))"

text \<open>\<open>ancestorsOf\<close> of \<open>reads.go\<close>: a path and its ancestors, short of the root.\<close>

function chain_from :: "string \<Rightarrow> string list" where
  "chain_from current =
     current # (if Dir current = current \<or> Dir current = ''/'' then [] else chain_from (Dir current))"
  by pat_completeness auto
termination
  by (relation "measure climb_measure") (auto simp: climb_measure_Dir)

declare chain_from.simps [simp del]

definition ancestor_chain :: "string \<Rightarrow> string list" where
  "ancestor_chain p = (if trim_right p = [] then [] else chain_from (trim_right p))"

text \<open>The deepest of the candidates that exists, if it is a folder.\<close>

primrec deepest_folder :: "'w deps \<Rightarrow> nat \<Rightarrow> string list \<Rightarrow> ('w env, string option) op" where
  "deepest_folder deps h [] = returnM None"
| "deepest_folder deps h (candidate # rest) =
     bindM (Stat deps h candidate) (\<lambda>st.
       if \<not> st_exists st then deepest_folder deps h rest
       else returnM (if st_type st = ObjectTypeDir then Some candidate else None))"

definition creatable_one :: "'w deps \<Rightarrow> nat \<Rightarrow> string \<times> string option \<Rightarrow> ('w env, string \<times> bool) op" where
  "creatable_one deps h = (\<lambda>(p, ancestor).
     case ancestor of
       None \<Rightarrow> returnM (p, False)
     | Some a \<Rightarrow> bindM (Stat deps h a) (\<lambda>st. returnM (p, Permits (st_permission st) PermissionWrite)))"

definition Creatability :: "('w, 'b) handler_deps \<Rightarrow> string list request \<Rightarrow> (('w, 'b) server, json) op" where
  "Creatability d rq =
     bindM (bindPaths d rq) (\<lambda>(user, paths). with_scope d 0 user
       (thenM (on_env (requireKnownUser (hd_rods d) 0 user False))
        (with_proxy d (on_env
          (bindM (Stats (hd_rods d) 1 (concat (map ancestor_chain paths))) (\<lambda>_.
           bindM (mapM (\<lambda>p. bindM (deepest_folder (hd_rods d) 1 (ancestor_chain p)) (\<lambda>a. returnM (p, a))) paths) (\<lambda>ancestors.
           bindM (Stats (hd_rods d) 0 (List.map_filter snd ancestors)) (\<lambda>_.
           bindM (mapM (creatable_one (hd_rods d) 0) (remdups ancestors)) (\<lambda>out.
             returnM (marks_json out))))))))))"

definition check_owned ::
    "'w deps \<Rightarrow> string list \<times> string list \<Rightarrow> string \<Rightarrow> ('w env, string list \<times> string list) op" where
  "check_owned deps = (\<lambda>(missing, notOwned) p.
     bindM (Stat deps 1 p) (\<lambda>exists'.
       if \<not> st_exists exists' then returnM (missing @ [p], notOwned)
       else bindM (Stat deps 0 p) (\<lambda>st.
         returnM (missing, if st_permission st \<noteq> PermissionOwn then notOwned @ [p] else notOwned))))"

definition path_permissions ::
    "('w, 'b) handler_deps \<Rightarrow> string \<Rightarrow> (string \<times> acl_entry list) list \<Rightarrow> string \<Rightarrow> ('w env, json) op" where
  "path_permissions d user acls p =
     bindM (Stat (hd_rods d) 0 p) (\<lambda>st.
       returnM (JObj [(''path'', JStr p), (''user-permissions'', JArr (visiblePermissions d
         (case map_of acls (st_path st) of Some acl \<Rightarrow> acl | None \<Rightarrow> []) user))]))"

definition handle_Permissions :: "('w, 'b) handler_deps \<Rightarrow> string list request \<Rightarrow> (('w, 'b) server, json) op" where
  "handle_Permissions d rq =
     bindM (bindPaths d rq) (\<lambda>(user, paths). with_scope d 0 user
       (thenM (on_env (requireKnownUser (hd_rods d) 0 user False))
        (with_proxy d (on_env
          (bindM (Stats (hd_rods d) 1 paths) (\<lambda>_.
           bindM (Stats (hd_rods d) 0 paths) (\<lambda>_.
           bindM (foldM (check_owned (hd_rods d)) ([], []) paths) (\<lambda>(missing, notOwned).
             if missing \<noteq> [] then failM (to_gerror (with_paths missing (New ErrDoesNotExist)))
             else if notOwned \<noteq> [] then
               failM (to_gerror (with_paths notOwned (With ''user'' (JStr user) (New ErrNotOwner))))
             else bindM (ACLs (hd_rods d) 0 paths) (\<lambda>acls.
               bindM (mapM (path_permissions d user acls) paths) (\<lambda>out.
                 returnM (JObj [(''paths'', JArr out)])))))))))))"

definition PermissionsByID :: "('w, 'b) handler_deps \<Rightarrow> unit request \<Rightarrow> (('w, 'b) server, json) op" where
  "PermissionsByID d rq =
     bindM (requireUser rq) (\<lambda>user. with_scope d 0 user (on_env
       (bindM (resolveID (hd_rods d) 0 (Param rq ''data-id'')) (\<lambda>path.
        thenM (requireKnownUser (hd_rods d) 0 user False)
       (thenM (requirePathReadable (hd_rods d) 0 user (trim_right path))
       (bindM (ACL (hd_rods d) 0 (trim_right path)) (\<lambda>acl.
          returnM (JObj [(''user-permissions'', JArr (visiblePermissions d acl user))]))))))))"

definition handle_UserGroups :: "('w, 'b) handler_deps \<Rightarrow> unit request \<Rightarrow> (('w, 'b) server, json) op" where
  "handle_UserGroups d rq =
     (let username = Param rq ''username''; qualified = (\<lambda>name. name @ ''#'' @ Zone (hd_Layout d))
      in if username = [] then failM (to_gerror (With ''field'' (JStr ''username'') (New ErrBadOrMissingField)))
         else bindM (requireUser rq) (\<lambda>user. with_scope d 0 user (on_env
           (bindM (UserExists (hd_rods d) 0 username) (\<lambda>present.
              if \<not> present then failM (to_gerror (With ''user'' (JStr username) (New ErrNotAUser)))
              else bindM (UserGroups (hd_rods d) 0 username) (\<lambda>names.
                returnM (JObj [(''user'', JStr (qualified username)),
                  (''groups'', strings_json (map qualified names))])))))))"

definition BasePaths :: "('w, 'b) handler_deps \<Rightarrow> unit request \<Rightarrow> (('w, 'b) server, json) op" where
  "BasePaths d rq =
     bindM (requireUser rq) (\<lambda>user. with_scope d 0 user
       (thenM (on_env (requireKnownUser (hd_rods d) 0 user True))
         (returnM (JObj [(''user_home_path'', JStr (UserHome (hd_Layout d) user)),
            (''user_trash_path'', JStr (UserTrash (hd_Layout d) user)),
            (''base_trash_path'', JStr (TrashBase (hd_Layout d)))]))))"

section \<open>navigation.go\<close>

definition rootFields :: string where
  "rootFields = ''id,label,path,date-created,date-modified,permission''"

definition plain_options :: "('w, 'b) handler_deps \<Rightarrow> stat_options" where
  "plain_options d = \<lparr>op_Fields = ParseFieldSet rootFields [], op_Layout = hd_Layout d, op_PermsFilter = []\<rparr>"

text \<open>Asked and made as the service's own account; the caller's view is then invalidated.\<close>

definition ensureCollection :: "('w, 'b) handler_deps \<Rightarrow> string \<Rightarrow> (('w, 'b) server, unit) op" where
  "ensureCollection d path = with_proxy d (on_env
     (bindM (Stat (hd_rods d) 1 path) (\<lambda>st.
        if st_exists st then returnM ()
        else thenM (MakeDir (hd_rods d) 1 path True) (Invalidate 0 path))))"

definition ensureOwned :: "('w, 'b) handler_deps \<Rightarrow> string \<Rightarrow> string \<Rightarrow> (('w, 'b) server, unit) op" where
  "ensureOwned d user path =
     bindM (on_env (Stat (hd_rods d) 0 path)) (\<lambda>st.
       if st_permission st = PermissionOwn then returnM ()
       else with_proxy d (on_env
         (thenM (SetPermission (hd_rods d) 1 path user PermissionOwn False) (Invalidate 0 path))))"

definition rootEntry :: "('w, 'b) handler_deps \<Rightarrow> string \<Rightarrow> string \<Rightarrow> ('w env, status) op" where
  "rootEntry d user path =
     thenM (requireRodsReadable (hd_rods d) 0 user path) (StatOf (hd_rods d) 0 user path (plain_options d))"

definition handle_Home :: "('w, 'b) handler_deps \<Rightarrow> unit request \<Rightarrow> (('w, 'b) server, json) op" where
  "handle_Home d rq =
     bindM (requireUser rq) (\<lambda>user. with_scope d 0 user
       (thenM (on_env (requireKnownUser (hd_rods d) 0 user True))
       (let home = UserHome (hd_Layout d) user in
        thenM (ensureCollection d home)
       (thenM (on_env (requireRodsExists (hd_rods d) 0 home))
       (bindM (on_env (StatOf (hd_rods d) 0 user home (plain_options d))) (\<lambda>st.
          returnM (status_json st)))))))"

definition base_paths :: "layout \<Rightarrow> string \<Rightarrow> json" where
  "base_paths l user =
     JObj [(''user_home_path'', JStr (UserHome l user)), (''user_trash_path'', JStr (UserTrash l user)),
           (''base_trash_path'', JStr (TrashBase l))]"

definition handle_Root :: "('w, 'b) handler_deps \<Rightarrow> unit request \<Rightarrow> (('w, 'b) server, json) op" where
  "handle_Root d rq =
     bindM (requireUser rq) (\<lambda>user. with_scope d 0 user
       (thenM (on_env (requireKnownUser (hd_rods d) 0 user True))
       (let l = hd_Layout d; home = UserHome l user; trash = UserTrash l user;
            community = trim_right (CommunityData l); sharing = trim_right (Home l) in
        bindM (on_env (Stats (hd_rods d) 0 [home, community, sharing, trash])) (\<lambda>_.
        bindM (on_env (mapM (rootEntry d user) [home, community, sharing])) (\<lambda>roots.
        thenM (ensureCollection d trash)
       (thenM (ensureOwned d user trash)
       (bindM (on_env (rootEntry d user trash)) (\<lambda>trashRoot.
          returnM (JObj [(''roots'', JArr (map status_json (roots @ [trashRoot]))),
                         (''base-paths'', base_paths l user)])))))))))"

section \<open>head.go and listing.go\<close>

definition UUIDForPath :: "('w, 'b) handler_deps \<Rightarrow> unit request \<Rightarrow> (('w, 'b) server, json) op" where
  "UUIDForPath d rq =
     bindM (requireUser rq) (\<lambda>user.
       let path = QueryParam rq ''path'' in
       if blank path then schemaErrorM ''path must be a non-blank string''
       else with_scope d 0 user (on_env
         (thenM (requireKnownUser (hd_rods d) 0 user True)
         (bindM (Stat (hd_rods d) 0 path) (\<lambda>st.
            if \<not> st_exists st then failM (to_gerror (with_paths [path] (New ErrDoesNotExist)))
            else if \<not> Permits (st_permission st) PermissionRead then
              failM (to_gerror (With ''user'' (JStr user) (with_paths [path] (New ErrNotReadable))))
            else returnM (JObj [(''id'', JStr (st_uuid st))]))))))"

text \<open>\<open>is_uuid\<close> is the uuid library's parser.\<close>

definition handle_Head ::
    "(string \<Rightarrow> bool) \<Rightarrow> ('w, 'b) handler_deps \<Rightarrow> unit request \<Rightarrow> (('w, 'b) server, unit) op" where
  "handle_Head is_uuid d rq =
     (let i = Param rq ''data-id'' in
      if \<not> is_uuid i then schemaErrorM ''data-id must be a UUID''
      else bindM (requireUser rq) (\<lambda>user. with_scope d 0 user (on_env
        (bindM (UserExists (hd_rods d) 0 user) (\<lambda>known.
           if \<not> known then failM (to_gerror (With ''user'' (JStr user) (WithStatus 422 (New ErrNotAUser))))
           else bindM (PathsForUUIDs (hd_rods d) 0 [i]) (\<lambda>found.
             case map_of found i of
               None \<Rightarrow> failM (to_gerror (With ''id'' (JStr i) (WithStatus 404 (New ErrDoesNotExist))))
             | Some path \<Rightarrow>
                 bindM (Stat (hd_rods d) 0 path) (\<lambda>st.
                   if \<not> st_exists st \<or> \<not> Permits (st_permission st) PermissionRead then
                     failM (to_gerror (With ''id'' (JStr i) (WithStatus 403 (New ErrNotReadable))))
                   else returnM ())))))))"

primrec find_readme ::
    "'w deps \<Rightarrow> string \<Rightarrow> bad_name_rule \<Rightarrow> string list \<Rightarrow> ('w env, listing_entry option) op" where
  "find_readme deps folder rule [] = returnM None"
| "find_readme deps folder rule (name # rest) =
     bindM (Stat deps 0 (folder @ ''/'' @ name)) (\<lambda>st.
       if \<not> st_exists st \<or> st_type st \<noteq> ObjectTypeFile then find_readme deps folder rule rest
       else returnM (Some
         \<lparr>le_ID = st_uuid st, le_DateCreated = st_created st, le_DateModified = st_modified st,
          le_BadName = Matches rule (st_path st) name, le_InfoType = Some (FileInfoType (st_info_type st)),
          le_Name = name, le_Path = st_path st, le_Permission = permission_name (st_permission st),
          le_Size = st_size st\<rparr>))"

definition findReadme :: "'w deps \<Rightarrow> string \<Rightarrow> bad_name_rule \<Rightarrow> ('w env, listing_entry option) op" where
  "findReadme deps folder rule = find_readme deps folder rule ReadmeNames"

definition requireExists :: "('w, 'b) handler_deps \<Rightarrow> string \<Rightarrow> (('w, 'b) server, unit) op" where
  "requireExists d path = with_proxy d (on_env
     (bindM (Stat (hd_rods d) 1 path) (\<lambda>st.
        if \<not> st_exists st then failM (to_gerror (with_paths [path] (New ErrDoesNotExist))) else returnM ())))"

definition Navigation :: "('w, 'b) handler_deps \<Rightarrow> unit request \<Rightarrow> (('w, 'b) server, json) op" where
  "Navigation d rq =
     bindM (requireUser rq) (\<lambda>user.
     bindM (pathFromRoute rq) (\<lambda>path. with_scope d 0 user
       (thenM (on_env (requireKnownUser (hd_rods d) 0 user True))
       (thenM (requireExists d path)
        (on_env
          (bindM (Stat (hd_rods d) 0 path) (\<lambda>st.
             if \<not> st_exists st \<or> \<not> Permits (st_permission st) PermissionRead then
               failM (to_gerror (With ''user'' (JStr user) (with_paths [path] (New ErrNotReadable))))
             else if st_type st \<noteq> ObjectTypeDir then failM (to_gerror (with_paths [path] (New ErrNotAFolder)))
             else bindM (Subfolders (hd_rods d) 0 path) (\<lambda>rows.
                  bindM (StatOf (hd_rods d) 0 user path (plain_options d)) (\<lambda>self.
                    returnM (JObj [(''folder'', JObj (status_fields self @
                      [(''folders'', JArr (map (\<lambda>r. JObj (FolderEntryOf r user (hd_Layout d))) rows))]))]))))))))))"

definition folder_query ::
    "string \<Rightarrow> 'b request \<Rightarrow> entity_type \<Rightarrow> string \<Rightarrow> sort_direction \<Rightarrow> int \<Rightarrow> int \<Rightarrow> listing_query" where
  "folder_query path rq entity column direction limit offset =
     \<lparr>lq_path = path, lq_user = [], lq_zone = [], lq_groups = [], lq_info_types = fst (infoTypeFilter rq),
      lq_include_unknown = snd (infoTypeFilter rq), lq_entity = Some entity, lq_attribute = [],
      lq_column = column, lq_direction = direction, lq_limit = limit, lq_offset = offset\<rparr>"

definition emptyPageTotal :: "'w deps \<Rightarrow> listing_query \<Rightarrow> ('w env, int) op" where
  "emptyPageTotal deps q =
     (if lq_offset q = 0 then returnM 0
      else bindM (Listing deps 0 (q\<lparr>lq_offset := 0, lq_limit := 1\<rparr>)) (\<lambda>rows.
        returnM (case rows of [] \<Rightarrow> 0 | r # _ \<Rightarrow> (case row_total_count r of Some n \<Rightarrow> n | None \<Rightarrow> 0))))"

definition self_entry :: "stat \<Rightarrow> bad_name_rule \<Rightarrow> listing_entry" where
  "self_entry st rule =
     \<lparr>le_ID = st_uuid st, le_DateCreated = st_created st, le_DateModified = st_modified st,
      le_BadName = Matches rule (st_path st) (Base (st_path st)), le_InfoType = None,
      le_Name = Base (st_path st), le_Path = st_path st, le_Permission = permission_name (st_permission st),
      le_Size = 0\<rparr>"

definition list_folder ::
    "(string \<Rightarrow> string \<Rightarrow> bool) \<Rightarrow> ('w, 'b) handler_deps \<Rightarrow> unit request \<Rightarrow> string \<Rightarrow> stat \<Rightarrow> ('w env, json) op" where
  "list_folder EqualFold d rq path st =
     bindM (listingLimit rq) (\<lambda>limit.
     bindM (listingOffset rq) (\<lambda>offset.
     bindM (schema_of (ResolveSortColumn (QueryParam rq ''sort-field''))) (\<lambda>column.
     bindM (schema_of (ResolveEntityType (QueryParam rq ''entity-type''))) (\<lambda>entity.
     bindM (schema_of (ResolveSortDirection (QueryParam rq ''sort-dir''))) (\<lambda>direction.
     let q = folder_query path rq entity column direction limit offset; rule = badNameRule EqualFold rq in
     bindM (Listing (hd_rods d) 0 q) (\<lambda>rows.
     let li = ListingOf (self_entry st rule) rows rule in
     bindM (case li_Total li of Some n \<Rightarrow> returnM n | None \<Rightarrow> emptyPageTotal (hd_rods d) q) (\<lambda>n.
     bindM (findReadme (hd_rods d) path rule) (\<lambda>readme.
       returnM (listing_json (li\<lparr>li_Total := Some n, li_Readme := readme\<rparr>))))))))))"

section \<open>download.go\<close>

text \<open>A response whose body is not JSON: its headers and the reader it streams, if any.\<close>

record download =
  dl_type :: string
  dl_disposition :: string
  dl_reader :: "nat option"

definition printable :: "char \<Rightarrow> bool" where
  "printable c \<longleftrightarrow> in_range 0x20 0x7E (of_char c)"

text \<open>\<open>nonASCII\<close> replaces code points, not bytes.\<close>

definition ascii_fallback :: "string \<Rightarrow> string" where
  "ascii_fallback name =
     map (\<lambda>r. if length r = 1 \<and> printable (hd r) \<and> hd r \<noteq> quote \<and> hd r \<noteq> CHR 0x5C then hd r else CHR ''_'')
       (runes name)"

definition rfc5987Encode :: "string \<Rightarrow> string" where
  "rfc5987Encode filename =
     concat (map (\<lambda>c. if c = CHR ''+'' then ''%20'' else if c = CHR ''*'' then ''%2A'' else [c]) (QueryEscape filename))"

definition contentDisposition :: "bool \<Rightarrow> string \<Rightarrow> string" where
  "contentDisposition attachment filename =
     (if attachment then ''attachment'' else ''inline'') @ ''; filename='' @ quote # ascii_fallback filename @
       quote # ''; filename*=UTF-8'' @ [CHR 0x27, CHR 0x27] @ rfc5987Encode filename"

definition handle_download ::
    "('w, 'b) handler_deps \<Rightarrow> 'w streams \<Rightarrow> 'c request \<Rightarrow> stat \<Rightarrow> ('w env, download) op" where
  "handle_download d files rq st =
     bindM (boolParam rq ''attachment'') (\<lambda>attachment.
     let head = \<lparr>dl_type = OfName (st_path st), dl_disposition = contentDisposition attachment (Base (st_path st)),
                 dl_reader = None\<rparr> in
       if st_size st = 0 then returnM head
       else bindM (OpenFile (hd_rods d) files 0 (st_path st)) (\<lambda>reader.
              returnM (head\<lparr>dl_reader := Some reader\<rparr>)))"

definition FolderListing ::
    "(string \<Rightarrow> string \<Rightarrow> bool) \<Rightarrow> ('w, 'b) handler_deps \<Rightarrow> 'w streams \<Rightarrow> unit request
      \<Rightarrow> (('w, 'b) server, json + download) op" where
  "FolderListing EqualFold d files rq =
     bindM (requireUser rq) (\<lambda>user.
     bindM (pathFromRoute rq) (\<lambda>path. with_scope d 0 user (on_env
       (bindM (Stat (hd_rods d) 0 path) (\<lambda>st.
          if \<not> st_exists st then failM (to_gerror (with_path path (New ErrDoesNotExist)))
          else if st_type st \<noteq> ObjectTypeDir then
            bindM (handle_download d files rq st) (\<lambda>out. returnM (Inr out))
          else bindM (list_folder EqualFold d rq path st) (\<lambda>out. returnM (Inl out)))))))"

section \<open>chunks.go\<close>

definition pathFromWildcard :: "'b request \<Rightarrow> ('s, string) op" where
  "pathFromWildcard rq =
     (let pattern = rq_pattern rq;
          pre = (if pattern \<noteq> [] \<and> last pattern = CHR ''*'' then butlast pattern else pattern)
      in if \<not> has_prefix (rq_escaped rq) pre then schemaErrorM ''the request path does not match its route''
         else case decodePathSegments (trim_prefix (drop (length pre) (rq_escaped rq)) ''/'') of
           None \<Rightarrow> schemaErrorM ''the request path is not valid''
         | Some decoded \<Rightarrow>
             if decoded = [] then schemaErrorM ''a path is required'' else returnM (slash # decoded))"

text \<open>What every endpoint of the file does before it acts on the file; \<open>resolve\<close> finds the path.\<close>

definition serve ::
    "('w, 'b) handler_deps \<Rightarrow> 'c request \<Rightarrow> ('w env, string) op
      \<Rightarrow> (string \<Rightarrow> string \<Rightarrow> (('w, 'b) server, 'a) op) \<Rightarrow> (('w, 'b) server, 'a) op" where
  "serve d rq resolve act =
     bindM (requireUser rq) (\<lambda>user. with_scope d 0 user
       (thenM (on_env (requireKnownUser (hd_rods d) 0 user True))
       (bindM (on_env resolve) (\<lambda>found.
        let path = trim_right found in
        thenM (on_env (requireRodsExists (hd_rods d) 0 path))
       (thenM (on_env (requireRodsIsFile (hd_rods d) 0 path))
       (thenM (on_env (requireRodsReadable (hd_rods d) 0 user path))
         (act user path)))))))"

definition pathFromID :: "('w, 'b) handler_deps \<Rightarrow> 'c request \<Rightarrow> ('w env, string) op" where
  "pathFromID d rq = resolveID (hd_rods d) 0 (Param rq ''data-id'')"

definition anonymouslyReadable :: "('w, 'b) handler_deps \<Rightarrow> string \<Rightarrow> (('w, 'b) server, bool) op" where
  "anonymouslyReadable d path =
     (if hd_AnonUser d = [] then returnM False
      else with_scope d 2 (hd_AnonUser d) (on_env
        (bindM (Stat (hd_rods d) 2 path) (\<lambda>st. returnM (Permits (st_permission st) PermissionRead)))))"

definition manifestResponse :: "string \<Rightarrow> string \<Rightarrow> string list \<Rightarrow> json" where
  "manifestResponse contentType infoType urls =
     JObj [(''content-type'', JStr contentType), (''infoType'', JStr infoType),
           (''urls'', JArr (map (\<lambda>u. JObj [(''label'', JStr ''anonymous''), (''url'', JStr u)]) urls))]"

definition manifest :: "('w, 'b) handler_deps \<Rightarrow> string \<Rightarrow> string \<Rightarrow> (('w, 'b) server, json) op" where
  "manifest d user path =
     bindM (on_env (Stat (hd_rods d) 0 path)) (\<lambda>st.
     bindM (anonymouslyReadable d path) (\<lambda>readable.
       returnM (manifestResponse (OfName path) (FileInfoType (st_info_type st))
         (if readable then [anonURL d path] else []))))"

text \<open>\<open>read\<close>, over the scope's positional read; the length is clamped to the file.\<close>

definition read_span :: "(string \<Rightarrow> int \<Rightarrow> int \<Rightarrow> ('s, string) op) \<Rightarrow> string \<Rightarrow> int \<Rightarrow> int \<Rightarrow> int \<Rightarrow> ('s, string) op" where
  "read_span readAt path offset len fileSize =
     (if offset < 0 \<or> len < 0 then schemaErrorM ''position and size must not be negative''
      else if offset \<ge> fileSize then returnM []
      else let remaining = wrap64 (fileSize - offset) in
        bindM (readAt path offset (if len > remaining then remaining else len)) (\<lambda>buffer.
          returnM (DecodeChunk buffer (offset > 0))))"

definition chunkResponse :: "string \<Rightarrow> string \<Rightarrow> int \<Rightarrow> int \<Rightarrow> int \<Rightarrow> string \<Rightarrow> json" where
  "chunkResponse path user position sz fileSize chunk =
     JObj [(''path'', JStr path), (''user'', JStr user), (''start'', JStr (FormatInt position)),
           (''chunk-size'', JStr (FormatInt sz)), (''file-size'', JStr (FormatInt fileSize)), (''chunk'', JStr chunk)]"

definition handle_chunk ::
    "('w, 'b) handler_deps \<Rightarrow> 'w streams \<Rightarrow> 'c request \<Rightarrow> string \<Rightarrow> string \<Rightarrow> (('w, 'b) server, json) op" where
  "handle_chunk d files rq user path =
     bindM (requiredIntParam rq ''position'') (\<lambda>position.
     bindM (requiredIntParam rq ''size'') (\<lambda>sz.
     bindM (on_env (Stat (hd_rods d) 0 path)) (\<lambda>st.
     bindM (on_env (read_span (ReadAt (hd_rods d) files 0) path position sz (st_size st))) (\<lambda>chunk.
       returnM (chunkResponse path user position sz (st_size st) chunk)))))"

record tabular_request =
  tr_Separator :: string
  tr_Page :: int
  tr_Size :: int

definition tabularParams :: "'b request \<Rightarrow> ('s, tabular_request) op" where
  "tabularParams rq =
     bindM (presentParam rq ''separator'') (\<lambda>separator.
     case QueryUnescape separator of
       None \<Rightarrow> schemaErrorM ''separator must be a url-encoded character''
     | Some decoded \<Rightarrow>
         bindM (requiredIntParam rq ''page'') (\<lambda>page.
         bindM (requiredIntParam rq ''size'') (\<lambda>sz.
           if page \<le> 0 then failM (to_gerror (With ''page'' (JInt page) (New ErrPageNotPos)))
           else if sz \<le> 0 then failM (to_gerror (With ''chunk-size'' (JStr (FormatInt sz)) (New ErrChunkTooSmall)))
           else returnM \<lparr>tr_Separator = decoded, tr_Page = page, tr_Size = sz\<rparr>)))"

text \<open>The text of a page, once the page is known to be one.\<close>

definition page_text ::
    "(string \<Rightarrow> int \<Rightarrow> int \<Rightarrow> ('s, string) op) \<Rightarrow> string \<Rightarrow> int \<Rightarrow> int \<Rightarrow> int \<Rightarrow> ('s, string) op" where
  "page_text readAt path page sz fileSize =
     (let plan = PlanTabularPage page sz fileSize in
      if tp_Page plan > tp_Pages plan then
        failM (to_gerror (With ''number-pages'' (JStr (FormatInt (tp_Pages plan)))
          (With ''page'' (JStr (FormatInt (tp_Page plan))) (New ErrInvalidPage))))
      else bindM (read_span readAt path (tp_LoadOffset plan) (tp_LoadLength plan) fileSize) (\<lambda>raw.
        returnM (TrimToWholeLines raw sz plan)))"

definition tabularChunkResponse ::
    "string \<Rightarrow> string \<Rightarrow> tabular_request \<Rightarrow> int \<Rightarrow> int \<Rightarrow> string \<Rightarrow> (string \<times> string) list list \<Rightarrow> json" where
  "tabularChunkResponse path user rq pages fileSize chunk rows =
     JObj [(''path'', JStr path), (''page'', JStr (FormatInt (tr_Page rq))), (''number-pages'', JStr (FormatInt pages)),
           (''user'', JStr user), (''max-cols'', JStr (itoa (WidestRow rows))), (''chunk-size'', JStr (itoa (length chunk))),
           (''file-size'', JStr (FormatInt fileSize)),
           (''csv'', JArr (map (\<lambda>row. JObj (map (\<lambda>(k, v). (k, JStr v)) row)) rows))]"

definition tabularChunk ::
    "('w, 'b) handler_deps \<Rightarrow> 'w streams \<Rightarrow> string \<Rightarrow> string \<Rightarrow> tabular_request \<Rightarrow> (('w, 'b) server, json) op" where
  "tabularChunk d files user path rq =
     bindM (on_env (Stat (hd_rods d) 0 path)) (\<lambda>st.
     bindM (on_env (page_text (ReadAt (hd_rods d) files 0) path (tr_Page rq) (tr_Size rq) (st_size st))) (\<lambda>chunk.
       case ParseDelimited chunk (tr_Separator rq) of
         Inl e \<Rightarrow> failM (Wrap (''parsing '' @ quoted path @ '' as delimited text'') e)
       | Inr rows \<Rightarrow> returnM (tabularChunkResponse path user rq
           (tp_Pages (PlanTabularPage (tr_Page rq) (tr_Size rq) (st_size st))) (st_size st) chunk rows)))"

definition handle_Manifest :: "('w, 'b) handler_deps \<Rightarrow> unit request \<Rightarrow> (('w, 'b) server, json) op" where
  "handle_Manifest d rq = serve d rq (pathFromID d rq) (manifest d)"

definition ManifestByPath :: "('w, 'b) handler_deps \<Rightarrow> unit request \<Rightarrow> (('w, 'b) server, json) op" where
  "ManifestByPath d rq = serve d rq (pathFromWildcard rq) (manifest d)"

definition Chunk :: "('w, 'b) handler_deps \<Rightarrow> 'w streams \<Rightarrow> unit request \<Rightarrow> (('w, 'b) server, json) op" where
  "Chunk d files rq = serve d rq (pathFromID d rq) (handle_chunk d files rq)"

definition ChunkByPath :: "('w, 'b) handler_deps \<Rightarrow> 'w streams \<Rightarrow> unit request \<Rightarrow> (('w, 'b) server, json) op" where
  "ChunkByPath d files rq = serve d rq (pathFromWildcard rq) (handle_chunk d files rq)"

text \<open>Paging is checked before the caller and the path.\<close>

definition serveTabular ::
    "('w, 'b) handler_deps \<Rightarrow> 'w streams \<Rightarrow> unit request \<Rightarrow> ('w env, string) op \<Rightarrow> (('w, 'b) server, json) op" where
  "serveTabular d files rq resolve =
     bindM (tabularParams rq) (\<lambda>params. serve d rq resolve (\<lambda>user path. tabularChunk d files user path params))"

definition TabularChunk :: "('w, 'b) handler_deps \<Rightarrow> 'w streams \<Rightarrow> unit request \<Rightarrow> (('w, 'b) server, json) op" where
  "TabularChunk d files rq = serveTabular d files rq (pathFromID d rq)"

definition TabularChunkByPath :: "('w, 'b) handler_deps \<Rightarrow> 'w streams \<Rightarrow> unit request \<Rightarrow> (('w, 'b) server, json) op" where
  "TabularChunkByPath d files rq = serveTabular d files rq (pathFromWildcard rq)"

end
