(* ===== verification/Pages.thy ===== *)
theory Pages
  imports ReadHandlers MemStore
begin

text \<open>
  Reading a file span by span.  A file that can be read at any offset (\<open>served_file\<close>) answers a span
  with the whole characters in it, and the pages of a tabular file whose lines are shorter than a
  page are the file, cut between lines.
\<close>

section \<open>Decoding\<close>

lemma high_bits: "(n :: nat) AND 0xC0 = 64 * (n div 64 mod 4)"
proof -
  have "n AND push_bit 6 (mask 2) = push_bit 6 (take_bit 2 (drop_bit 6 n))"
    by (rule bit_eqI) (auto simp: bit_simps)
  then show ?thesis
    by (simp add: mask_eq_exp_minus_1 push_bit_eq_mult take_bit_eq_mod drop_bit_eq_div)
qed

lemma isContinuationByte_iff: "isContinuationByte b \<longleftrightarrow> 128 \<le> (of_char b :: nat) \<and> (of_char b :: nat) < 192"
proof -
  have "(64 * (n div 64 mod 4) = 128) = (128 \<le> n \<and> n < 192)" if "n < 256" for n :: nat
  proof -
    have "n div 64 < 4"
      using that by (simp add: div_less_iff_less_mult)
    then have "(64 * (n div 64 mod 4) = 128) = (2 \<le> n div 64 \<and> n div 64 < 3)"
      by auto
    then show ?thesis
      by (simp add: less_eq_div_iff_mult_less_eq div_less_iff_less_mult)
  qed
  from this [of "of_char b"] show ?thesis
    by (simp add: isContinuationByte_def high_bits)
qed

definition utf8_char :: "string \<Rightarrow> bool" where
  "utf8_char c \<longleftrightarrow> c \<noteq> [] \<and> utf8SequenceLength (hd c) = Some (length c) \<and> list_all isContinuationByte (tl c)"

lemma utf8_lead: "utf8SequenceLength b = Some n \<Longrightarrow> \<not> isContinuationByte b \<and> 0 < n \<and> n \<le> 4"
  by (auto simp: utf8SequenceLength_def isContinuationByte_iff Let_def split: if_splits)

lemma utf8_char_length: "utf8_char c \<Longrightarrow> 0 < length c \<and> length c \<le> 4"
  using utf8_lead by (auto simp: utf8_char_def)

lemma leading_eq:
  assumes "list_all isContinuationByte x" "length x \<le> 3" "z = [] \<or> \<not> isContinuationByte (hd z)"
  shows "leading (x @ z) = length x"
proof -
  have "takeWhile isContinuationByte (take 3 (x @ z)) = x"
    using assms by (cases z; cases "3 - length x") (auto simp: takeWhile_append list_all_iff)
  then show ?thesis by (simp add: leading_def)
qed

lemma last_lead_eq:
  assumes "start \<le> length p" "\<not> isContinuationByte b" "list_all isContinuationByte cs" "i \<le> length cs"
  shows "last_lead (p @ b # cs) start (length p + i) = length p"
  using assms(4)
proof (induction i)
  case 0
  then show ?case
    using assms(2) by (simp add: last_lead.simps)
next
  case (Suc i)
  then have "isContinuationByte ((p @ b # cs) ! (length p + Suc i))"
    using assms(3) by (simp add: nth_append list_all_length)
  with Suc assms(1) show ?case
    by (subst last_lead.simps) simp
qed

text \<open>Of a span made of the end of a character, whole characters and the beginning of one, the whole
  characters remain.\<close>

lemma DecodeChunk_whole:
  assumes x: "list_all isContinuationByte x" "length x \<le> 3" "\<not> trim \<Longrightarrow> x = []"
    and mid: "list_all utf8_char mid"
    and y: "y = [] \<or> (\<exists>c. utf8_char c \<and> strict_prefix y c)"
  shows "DecodeChunk (x @ concat mid @ y) trim = concat mid"
proof (cases "concat mid @ y = []")
  case True
  then have none: "concat mid = []" "y = []" by simp_all
  have "DecodeChunk x trim = []"
  proof (cases "x = []")
    case False
    with x(3) have trim by blast
    have "last_lead x (length x) (length x - 1) = length x - 1"
      by (subst last_lead.simps) auto
    moreover have "leading x = length x"
      using leading_eq [OF x(1,2), of "[]"] by simp
    moreover have "\<not> length x \<le> length x - 1"
      using False by (cases x) simp_all
    ultimately show ?thesis
      using \<open>trim\<close> by (simp add: DecodeChunk_def)
  qed (simp add: DecodeChunk_def)
  then show ?thesis
    by (simp only: none append_Nil2)
next
  case False
  obtain p b cs need where z: "concat mid @ y = p @ b # cs" and b: "utf8SequenceLength b = Some need"
    and cs: "list_all isContinuationByte cs"
    and whole: "concat mid = (if need \<le> Suc (length cs) then p @ b # cs else p)"
  proof (cases "y = []")
    case True
    with False have "mid \<noteq> []" by auto
    with mid have "utf8_char (last mid)" "mid = butlast mid @ [last mid]"
      by (simp_all add: list_all_iff)
    then have "concat mid = concat (butlast mid) @ hd (last mid) # tl (last mid)"
      by (metis concat.simps(1) concat.simps(2) concat_append append_Nil2 hd_Cons_tl utf8_char_def)
    with True \<open>utf8_char (last mid)\<close> show ?thesis
      by (intro that [of "concat (butlast mid)" "hd (last mid)" "tl (last mid)" "length (last mid)"])
        (auto simp: utf8_char_def)
  next
    case False
    with y obtain c ys where c: "utf8_char c" "c = y @ ys" "ys \<noteq> []"
      by (auto simp: strict_prefix_def prefix_def)
    with False show ?thesis
      by (intro that [of "concat mid" "hd y" "tl y" "length c"])
        (auto simp: utf8_char_def list_all_iff)
  qed
  have hd: "\<not> isContinuationByte (hd (concat mid @ y))"
  proof (cases mid)
    case Nil
    with False y show ?thesis
      by (cases y) (auto simp: utf8_char_def strict_prefix_def prefix_def dest: utf8_lead)
  next
    case (Cons c more)
    with mid show ?thesis
      by (cases c) (auto simp: utf8_char_def dest: utf8_lead)
  qed
  let ?buffer = "x @ concat mid @ y" and ?start = "length x"
  have start: "(if trim then leading ?buffer else 0) = ?start"
    using x leading_eq [OF x(1,2), of "concat mid @ y"] hd by auto
  have len: "length ?buffer - 1 = length (x @ p) + length cs"
    using z by (simp add: z)
  have lead: "last_lead ?buffer ?start (length ?buffer - 1) = length (x @ p)"
    unfolding len using last_lead_eq [of ?start "x @ p" b cs "length cs"] b cs utf8_lead
    by (simp add: z)
  have at: "?buffer ! length (x @ p) = b"
    by (simp add: z nth_append)
  have total: "length ?buffer = length (x @ p) + Suc (length cs)"
    by (simp add: z)
  show ?thesis
  proof (cases "need \<le> Suc (length cs)")
    case True
    with whole z have "concat mid = p @ b # cs" "y = []" by simp_all
    with True show ?thesis
      unfolding DecodeChunk_def Let_def start lead at b option.case by simp
  next
    case False
    with whole z have "concat mid = p" "y = b # cs" by simp_all
    with False show ?thesis
      unfolding DecodeChunk_def Let_def start lead at b option.case by simp
  qed
qed

text \<open>The characters that lie between two offsets; \<open>pos\<close> is where the first one begins.\<close>

fun whole_between :: "nat \<Rightarrow> nat \<Rightarrow> nat \<Rightarrow> string list \<Rightarrow> string list" where
  "whole_between a b pos [] = []"
| "whole_between a b pos (c # cs) =
     (if a \<le> pos \<and> pos + length c \<le> b then c # whole_between a b (pos + length c) cs
      else whole_between a b (pos + length c) cs)"

lemma whole_between_past: "list_all utf8_char cs \<Longrightarrow> b \<le> pos \<Longrightarrow> whole_between a b pos cs = []"
proof (induction cs arbitrary: pos)
  case (Cons c cs)
  then have "0 < length c"
    using utf8_char_length by simp
  with Cons have "\<not> pos + length c \<le> b" "b \<le> pos + length c" "list_all utf8_char cs"
    by (simp_all del: length_greater_0_conv)
  with Cons.IH show ?case by simp
qed simp

lemma whole_between_subset: "set (whole_between a b pos cs) \<subseteq> set cs"
  by (induction a b pos cs rule: whole_between.induct) auto

lemma span_parts:
  assumes "list_all utf8_char cs" "a \<le> b"
  shows "\<exists>x y. take (b - max a pos) (drop (a - pos) (concat cs)) = x @ concat (whole_between a b pos cs) @ y \<and>
     list_all isContinuationByte x \<and> length x \<le> 3 \<and> (a \<le> pos \<longrightarrow> x = []) \<and>
     (y = [] \<or> (\<exists>c. utf8_char c \<and> strict_prefix y c))"
  using assms(1)
proof (induction cs arbitrary: pos)
  case Nil
  then show ?case by simp
next
  case (Cons c cs)
  let ?n = "length c"
  have c: "utf8_char c" "0 < ?n" "?n \<le> 4" and cs: "list_all utf8_char cs"
    using Cons.prems utf8_char_length by auto
  obtain x y where rest: "take (b - max a (pos + ?n)) (drop (a - (pos + ?n)) (concat cs)) =
      x @ concat (whole_between a b (pos + ?n) cs) @ y" "list_all isContinuationByte x" "length x \<le> 3"
      "a \<le> pos + ?n \<longrightarrow> x = []" "y = [] \<or> (\<exists>c. utf8_char c \<and> strict_prefix y c)"
    using Cons.IH [OF cs] by metis
  have past: "whole_between a b (pos + ?n) cs = []" if "b < pos + ?n"
    using that cs by (simp add: whole_between_past)
  consider (first) "a \<le> pos" "pos + ?n \<le> b" | (cut) "a \<le> pos" "b < pos + ?n"
    | (skip) "pos + ?n \<le> a" | (tail) "pos < a" "a < pos + ?n" "pos + ?n \<le> b"
    | (inner) "pos < a" "b < pos + ?n"
    by linarith
  then show ?case
  proof cases
    case first
    with rest have "take (b - max a pos) (drop (a - pos) (concat (c # cs))) =
        [] @ concat (whole_between a b pos (c # cs)) @ y"
      by (simp add: max_absorb2 diff_diff_left)
    with rest(5) show ?thesis by fastforce
  next
    case cut
    have "b - pos < length c"
      using cut c(2) by linarith
    then have "length (take (b - pos) c) < length c"
      by simp
    then have "strict_prefix (take (b - pos) c) c"
      by (metis less_irrefl prefix_order.le_less take_is_prefix)
    moreover have "take (b - max a pos) (drop (a - pos) (concat (c # cs))) =
        [] @ concat (whole_between a b pos (c # cs)) @ take (b - pos) c"
      using cut past by (simp add: max_absorb2)
    ultimately show ?thesis
      using c(1) by fastforce
  next
    case skip
    with c(2) have "\<not> a \<le> pos" by linarith
    with skip rest(1) have "take (b - max a pos) (drop (a - pos) (concat (c # cs))) =
        x @ concat (whole_between a b pos (c # cs)) @ y"
      by (simp add: max_absorb1 diff_diff_left)
    with rest(2,3,5) \<open>\<not> a \<le> pos\<close> show ?thesis by blast
  next
    case tail
    have "list_all isContinuationByte (drop (a - pos) c)"
      using c(1) tail(1) by (cases c) (auto simp: utf8_char_def list_all_iff drop_Cons' dest: in_set_dropD)
    moreover have "take (b - max a pos) (drop (a - pos) (concat (c # cs))) =
        drop (a - pos) c @ concat (whole_between a b pos (c # cs)) @ y"
      using tail rest(1,4) by (simp add: max_absorb1 max_absorb2 add.commute)
    ultimately show ?thesis
      using tail c(3) rest(5) by (intro exI [of _ "drop (a - pos) c"] exI [of _ y]) auto
  next
    case inner
    have "list_all isContinuationByte (take (b - a) (drop (a - pos) c))"
      using c(1) inner(1)
      by (cases c) (auto simp: utf8_char_def list_all_iff drop_Cons' dest: in_set_takeD in_set_dropD)
    moreover have "take (b - max a pos) (drop (a - pos) (concat (c # cs))) =
        take (b - a) (drop (a - pos) c) @ concat (whole_between a b pos (c # cs)) @ []"
      using inner past assms(2) by (simp add: max_absorb1)
    ultimately show ?thesis
      using inner c(3) by (intro exI [of _ "take (b - a) (drop (a - pos) c)"] exI [of _ "[]"]) auto
  qed
qed

section \<open>A file that can be read\<close>

locale served_file =
  fixes readAt :: "string \<Rightarrow> int \<Rightarrow> int \<Rightarrow> ('s, string) op" and path contents :: string and ok :: "'s \<Rightarrow> bool"
  assumes reads: "ok s \<Longrightarrow> 0 \<le> offset \<Longrightarrow> 0 \<le> len \<Longrightarrow> len \<le> MaxChunkSize \<Longrightarrow>
    \<exists>s'. readAt path offset len s = (Inr (take (nat len) (drop (nat offset) contents)), s') \<and> ok s'"
begin

lemma read_span_reads:
  assumes "ok s" "0 \<le> offset" "0 \<le> len" "int64 (int (length contents))"
    and "min len (int (length contents)) \<le> MaxChunkSize"
  shows "\<exists>s'. read_span readAt path offset len (int (length contents)) s =
    (Inr (DecodeChunk (take (nat len) (drop (nat offset) contents)) (offset > 0)), s') \<and> ok s'"
proof (cases "offset \<ge> int (length contents)")
  case True
  with assms show ?thesis
    by (simp add: read_span_def DecodeChunk_def returnM_def)
next
  case False
  let ?remaining = "int (length contents) - offset"
  have remaining: "wrap64 ?remaining = ?remaining"
    using assms False by (intro wrap64_id) (simp add: int64_def)
  define got where "got = (if len > ?remaining then ?remaining else len)"
  have "0 \<le> got" "got \<le> MaxChunkSize"
    using assms False by (auto simp: got_def min_def split: if_splits)
  then obtain s' where "readAt path offset got s = (Inr (take (nat got) (drop (nat offset) contents)), s')" "ok s'"
    using reads [OF assms(1,2)] by blast
  moreover have "take (nat got) (drop (nat offset) contents) = take (nat len) (drop (nat offset) contents)"
    using assms(2) False by (cases "len > ?remaining") (simp_all add: got_def nat_diff_distrib)
  ultimately show ?thesis
    using assms False remaining by (simp add: read_span_def Let_def bindM_def returnM_def got_def)
qed

end

text \<open>A data store of one file: the scope's positional read on it.\<close>

definition one_file :: "string \<Rightarrow> 'w streams" where
  "one_file contents =
     \<lparr>st_open = (\<lambda>_ _. returnM 0), st_create = (\<lambda>_ _ _. returnM 0),
      st_read_at = (\<lambda>_ offset len. returnM (take (nat len) (drop (nat offset) contents))),
      st_read_limited = (\<lambda>_ limit. returnM (take (nat limit) contents)),
      st_write = (\<lambda>_ _. returnM ()), st_close = (\<lambda>_. returnM ())\<rparr>"

definition usable :: "mem_world env \<Rightarrow> bool" where
  "usable s \<longleftrightarrow> \<not> sc_closed (env_scopes s 0) \<and> sc_user (env_scopes s 0) \<noteq> []"

lemma usable_session:
  assumes "usable s"
  shows "\<exists>sess s'. scope_session mem_deps 0 s = (Inr sess, s') \<and> usable s'"
  using assms
  by (auto simp: usable_def scope_session_def ForUser_def mem_deps_def on_world_def upd_scope_def Let_def
      thenM_def bindM_def returnM_def split: option.split)

interpretation one_file: served_file "ReadAt mem_deps (one_file contents) 0" path contents usable
proof (unfold_locales, goal_cases)
  case (1 s offset len)
  then have s: "usable s" and bounds: "0 \<le> offset" "0 \<le> len" "len \<le> MaxChunkSize"
    by blast+
  obtain sess s' where sess: "scope_session mem_deps 0 s = (Inr sess, s')" "usable s'"
    using usable_session [OF s] by blast
  from bounds have "cl_ReadAt (one_file contents) (normalizePath path) offset len (env_world s', sess) =
      (Inr (take (nat len) (drop (nat offset) contents)), (env_world s', sess))"
    by (auto simp: cl_ReadAt_def run_def one_file_def bindM_def returnM_def finallyM_def)
  with sess show ?case
    by (simp add: ReadAt_def with_session_def bindM_def on_session_def usable_def upd_scope_def)
qed

text \<open>C21.  A span of a text file, wherever it begins and ends, is answered with exactly the
  characters that lie in it: none is cut, none is lost, none is replaced.\<close>

theorem span_whole_characters:
  assumes "served_file readAt path (concat cs) ok" "ok s" "list_all utf8_char cs"
    and "0 \<le> offset" "0 \<le> len" "int64 (int (length (concat cs)))"
    and "min len (int (length (concat cs))) \<le> MaxChunkSize"
  shows "\<exists>s'. read_span readAt path offset len (int (length (concat cs))) s =
    (Inr (concat (whole_between (nat offset) (nat offset + nat len) 0 cs)), s') \<and> ok s'"
proof -
  obtain x y where parts:
    "take (nat len) (drop (nat offset) (concat cs)) =
       x @ concat (whole_between (nat offset) (nat offset + nat len) 0 cs) @ y"
    "list_all isContinuationByte x" "length x \<le> 3" "nat offset \<le> 0 \<longrightarrow> x = []"
    "y = [] \<or> (\<exists>c. utf8_char c \<and> strict_prefix y c)"
    using span_parts [OF assms(3), of "nat offset" "nat offset + nat len" 0] by auto
  have "list_all utf8_char (whole_between (nat offset) (nat offset + nat len) 0 cs)"
    using whole_between_subset [of "nat offset" "nat offset + nat len" 0 cs] assms(3) by (auto simp: list_all_iff)
  then have "DecodeChunk (take (nat len) (drop (nat offset) (concat cs))) (offset > 0) =
      concat (whole_between (nat offset) (nat offset + nat len) 0 cs)"
    unfolding parts(1) using parts by (intro DecodeChunk_whole) auto
  with served_file.read_span_reads [OF assms(1,2,4-7)] show ?thesis
    by simp
qed

definition sample_text :: "string list" where
  "sample_text = [''a'', map char_of [195 :: nat, 169], ''b'', map char_of [226 :: nat, 130, 172]]"

theorem span_whole_characters_witness:
  "fst (read_span (ReadAt mem_deps (one_file (concat sample_text)) 0) ''/z/h/a/f'' 2 3 7 sample_view) = Inr ''b''"
proof -
  have "list_all utf8_char sample_text"
    by code_simp
  moreover have "usable sample_view"
    by (simp add: usable_def sample_view_def empty_scope_def)
  moreover have "concat (whole_between 2 5 0 sample_text) = ''b''" "length (concat sample_text) = 7"
    by code_simp+
  ultimately show ?thesis
    using span_whole_characters [OF one_file.served_file_axioms, where cs = sample_text and offset = 2 and len = 3
        and s = sample_view and path = "''/z/h/a/f''"]
    by (auto simp: int64_def MaxChunkSize_def)
qed

section \<open>Pages\<close>

text \<open>A run of bytes without a newline is part of one line.\<close>

lemma newline_free_run:
  assumes "newline \<notin> set (take m (drop i s))" "i + m \<le> length s"
  shows "\<exists>l \<in> set (split_on newline s). m \<le> length l"
  using assms
proof (induction "length s" arbitrary: s i rule: less_induct)
  case less
  show ?case
  proof (cases "newline \<in> set s")
    case False
    with less.prems show ?thesis by (simp add: split_on_no_sep)
  next
    case True
    then obtain a b where s: "s = a @ newline # b" "newline \<notin> set a"
      by (meson split_list_first)
    consider "i + m \<le> length a" | "i \<le> length a" "length a < i + m" | "length a < i"
      by linarith
    then show ?thesis
    proof cases
      case 1
      with s show ?thesis by (auto simp: split_on_append)
    next
      case 2
      then obtain k where k: "m - (length a - i) = Suc k"
        by (cases "m - (length a - i)") auto
      then have "newline \<in> set (take m (drop i s))"
        using 2 s by simp
      with less.prems show ?thesis by blast
    next
      case 3
      then have "drop i s = drop (i - Suc (length a)) b"
        using s by (simp add: drop_Cons' Suc_diff_Suc)
      with 3 less.prems s have "newline \<notin> set (take m (drop (i - Suc (length a)) b))"
          "i - Suc (length a) + m \<le> length b"
        by auto
      with less.hyps [of b] s show ?thesis
        by (auto simp: split_on_append)
    qed
  qed
qed

text \<open>Seeking back in a part of a file is seeking back in the file, when the part has the newline.\<close>

lemma seek_back_le: "seek_back s i \<le> Suc i"
  by (induction i) auto

lemma seek_back_mono: "i \<le> j \<Longrightarrow> seek_back s i \<le> seek_back s j"
proof (induction j)
  case (Suc j)
  then show ?case
    using seek_back_le [of s i] by (cases "i = Suc j") auto
qed simp

lemma seek_back_newline: "0 < seek_back s i \<Longrightarrow> s ! (seek_back s i - 1) = newline"
  by (induction i) (auto split: if_splits)

lemma seek_back_part:
  assumes "i < m" "off + i < length s" "\<exists>j. 0 < j \<and> j \<le> i \<and> s ! (off + j) = newline"
  shows "seek_back (take m (drop off s)) i + off = seek_back s (off + i) \<and> 0 < seek_back (take m (drop off s)) i"
  using assms
proof (induction i)
  case (Suc i)
  then have at: "take m (drop off s) ! Suc i = s ! (off + Suc i)" by simp
  show ?case
  proof (cases "s ! (off + Suc i) = newline")
    case True
    with at show ?thesis by simp
  next
    case False
    with Suc.prems have "\<exists>j. 0 < j \<and> j \<le> i \<and> s ! (off + j) = newline"
      by (metis le_Suc_eq)
    with Suc.IH Suc.prems have "seek_back (take m (drop off s)) i + off = seek_back s (off + i) \<and>
        0 < seek_back (take m (drop off s)) i"
      by simp
    with False at show ?thesis by simp
  qed
qed simp

text \<open>Where the pages are cut.\<close>

definition page_cut :: "string \<Rightarrow> nat \<Rightarrow> nat \<Rightarrow> nat" where
  "page_cut s z k =
     (if k = 0 then 0 else if length s \<le> z * k then length s else seek_back s (z * k - 1))"

lemma page_cut_mono: "page_cut s z k \<le> page_cut s z (Suc k)"
proof (cases "k = 0 \<or> length s \<le> z * k")
  case True
  then show ?thesis by (auto simp: page_cut_def)
next
  case False
  show ?thesis
  proof (cases "length s \<le> z * Suc k")
    case True
    have "seek_back s (z * k - 1) \<le> length s"
      using seek_back_le [of s "z * k - 1"] False by linarith
    with False True show ?thesis by (simp add: page_cut_def)
  next
    case Falser: False
    have "seek_back s (z * k - 1) \<le> seek_back s (z * Suc k - 1)"
      by (rule seek_back_mono) simp
    with False Falser show ?thesis by (simp add: page_cut_def)
  qed
qed

lemma cuts_cover:
  assumes "c 0 = 0" "\<And>k. c k \<le> c (Suc k)"
  shows "concat (map (\<lambda>k. take (c (Suc k) - c k) (drop (c k) s)) [0..<n]) = take (c n) s"
proof (induction n)
  case (Suc n)
  have "take (c n) s @ take (c (Suc n) - c n) (drop (c n) s) = take (c (Suc n)) s"
    using assms(2) [of n] by (metis le_add_diff_inverse take_add)
  with Suc show ?case by simp
qed (simp add: assms(1))

lemma run_has_newline:
  assumes "\<forall>l \<in> set (split_on newline s). Suc (length l) < z" "i + (z - 1) \<le> length s"
  shows "\<exists>j. i \<le> j \<and> j < i + (z - 1) \<and> s ! j = newline"
proof (rule ccontr)
  assume "\<not> ?thesis"
  then have "newline \<notin> set (take (z - 1) (drop i s))"
    using assms(2) by (auto simp: in_set_conv_nth)
  then obtain l where "l \<in> set (split_on newline s)" "z - 1 \<le> length l"
    using newline_free_run assms(2) by blast
  with assms(1) show False by fastforce
qed

lemma short_lines_size: "\<forall>l \<in> set (split_on newline s). Suc (length l) < z \<Longrightarrow> 1 < z"
  using split_on_nonempty [of newline s] by (cases "split_on newline s") auto

text \<open>The start and the end of a page, found in what was read for it, are cuts of the file.\<close>

lemma page_start:
  assumes "\<forall>l \<in> set (split_on newline s). Suc (length l) < z" "0 < k" "z * k < length s"
  shows "seekLineStart (take (2 * z) (drop (z * (k - 1)) s)) (int z - 1) + z * (k - 1) = page_cut s z k"
proof -
  have z: "1 < z" using assms(1) by (rule short_lines_size)
  let ?off = "z * (k - 1)"
  have zk: "z * k = ?off + z" using assms(2) by (cases k) auto
  have "\<exists>j. Suc ?off \<le> j \<and> j < Suc ?off + (z - 1) \<and> s ! j = newline"
    by (rule run_has_newline) (use assms zk in auto)
  then obtain j where "Suc ?off \<le> j" "j < Suc ?off + (z - 1)" "s ! j = newline" by blast
  then have "\<exists>j. 0 < j \<and> j \<le> z - 1 \<and> s ! (?off + j) = newline"
    using z by (intro exI [of _ "j - ?off"]) auto
  then have "seek_back (take (2 * z) (drop ?off s)) (z - 1) + ?off = seek_back s (?off + (z - 1))"
    using seek_back_part [of "z - 1" "2 * z" ?off s] z assms(3) zk by auto
  moreover have "seekLineStart (take (2 * z) (drop ?off s)) (int z - 1) = seek_back (take (2 * z) (drop ?off s)) (z - 1)"
    using z assms(3) zk by (auto simp: seekLineStart_def nat_diff_distrib)
  ultimately show ?thesis
    using assms zk z by (simp add: page_cut_def)
qed

lemma page_end:
  assumes "\<forall>l \<in> set (split_on newline s). Suc (length l) < z" "z * Suc k < length s"
  defines "chunk \<equiv> take (if k = 0 then z else 2 * z) (drop (z * (k - 1)) s)"
  shows "seekLineStart chunk (int (length chunk) - 1) + z * (k - 1) = page_cut s z (Suc k)"
proof -
  have z: "1 < z" using assms(1) by (rule short_lines_size)
  let ?off = "z * (k - 1)" and ?m = "if k = 0 then z else 2 * z"
  have zk: "z * Suc k = ?off + ?m" by (cases k) auto
  have len: "length chunk = ?m" using assms(2) zk by (simp add: chunk_def)
  have m: "z \<le> ?m" by simp
  have "\<exists>j. Suc ?off \<le> j \<and> j < Suc ?off + (z - 1) \<and> s ! j = newline"
    by (rule run_has_newline) (use assms(1,2) zk m in linarith)+
  then obtain j where "Suc ?off \<le> j" "j < Suc ?off + (z - 1)" "s ! j = newline" by blast
  then have "\<exists>j. 0 < j \<and> j \<le> ?m - 1 \<and> s ! (?off + j) = newline"
    using z m by (intro exI [of _ "j - ?off"]) auto
  then have "seek_back chunk (?m - 1) + ?off = seek_back s (?off + (?m - 1))"
    using seek_back_part [of "?m - 1" ?m ?off s] z assms(2) zk unfolding chunk_def by auto
  moreover have "seekLineStart chunk (int (length chunk) - 1) = seek_back chunk (?m - 1)"
    using z len by (auto simp: seekLineStart_def nat_diff_distrib)
  ultimately show ?thesis
    using assms(2) zk z by (simp add: page_cut_def)
qed

definition ascii :: "string \<Rightarrow> bool" where
  "ascii s \<longleftrightarrow> list_all (\<lambda>b. (of_char b :: nat) < 128) s"

lemma DecodeChunk_ascii:
  assumes "ascii s"
  shows "DecodeChunk s trim = s"
proof -
  have "list_all utf8_char (map (\<lambda>b. [b]) s)"
    using assms by (auto simp: ascii_def list_all_iff utf8_char_def utf8SequenceLength_def Let_def)
  then have "DecodeChunk ([] @ concat (map (\<lambda>b. [b]) s) @ []) trim = concat (map (\<lambda>b. [b]) s)"
    by (intro DecodeChunk_whole) auto
  then show ?thesis by (simp add: concat_map_singleton)
qed

lemma ascii_part: "ascii s \<Longrightarrow> ascii (take m (drop n s))"
  by (auto simp: ascii_def list_all_iff dest: in_set_takeD in_set_dropD)

lemma pageCount_eq:
  assumes "0 < z" "int n + int z < 2 ^ 63"
  shows "pageCount (int z) (int n) = int ((n + z - 1) div z)"
proof -
  have "wrap64 (int n + int z) = int n + int z" "wrap64 (int n + int z - 1) = int n + int z - 1"
    using assms by (auto intro!: wrap64_id simp: int64_def)
  then have "pageCount (int z) (int n) = (int n + int z - 1) div int z"
    using assms by (simp add: pageCount_def go_div_pos)
  also have "\<dots> = int ((n + z - 1) div z)"
    using assms by (simp add: zdiv_int of_nat_diff)
  finally show ?thesis .
qed

lemma page_index:
  assumes "0 < (z :: nat)"
  shows "k < (n + z - 1) div z \<longleftrightarrow> z * k < n" "Suc k = (n + z - 1) div z \<longleftrightarrow> z * k < n \<and> n \<le> z * Suc k"
proof -
  have *: "k < (n + z - 1) div z \<longleftrightarrow> z * k < n" for k
  proof -
    have "k < (n + z - 1) div z \<longleftrightarrow> Suc k * z \<le> n + z - 1"
      using assms by (simp add: Suc_le_eq [symmetric] less_eq_div_iff_mult_less_eq)
    then show ?thesis using assms by (auto simp: algebra_simps)
  qed
  then show "k < (n + z - 1) div z \<longleftrightarrow> z * k < n" .
  show "Suc k = (n + z - 1) div z \<longleftrightarrow> z * k < n \<and> n \<le> z * Suc k"
    using * [of k] * [of "Suc k"] by linarith
qed

definition page_of :: "string \<Rightarrow> nat \<Rightarrow> nat \<Rightarrow> string" where
  "page_of s z k = take (page_cut s z (Suc k) - page_cut s z k) (drop (page_cut s z k) s)"

lemma page_plan:
  assumes "0 < z" "z * k < n" "int n + 2 * int z < 2 ^ 63"
  shows "PlanTabularPage (int (Suc k)) (int z) (int n) =
    \<lparr>tp_Page = int k, tp_Pages = int ((n + z - 1) div z), tp_LoadOffset = int (z * (k - 1)),
     tp_LoadLength = int (if k = 0 then z else 2 * z)\<rparr>"
proof -
  have wrap: "wrap64 (int m) = int m" if "int m < 2 ^ 63" for m
    using that by (intro wrap64_id) (simp add: int64_def)
  have "k \<le> z * k" "z * (k - 1) \<le> z * k" using assms(1) by simp_all
  then have "int k < 2 ^ 63" "int (z * (k - 1)) < 2 ^ 63" "int (k - 1) < 2 ^ 63" "int (z * 2) < 2 ^ 63"
    using assms by linarith+
  from this [THEN wrap] have "wrap64 (int k) = int k" "wrap64 (int z * int (k - 1)) = int (z * (k - 1))"
      "wrap64 (int (k - 1)) = int (k - 1)" "wrap64 (int z * 2) = int z * 2"
    by simp_all
  moreover have "pageCount (int z) (int n) = int ((n + z - 1) div z)"
    using assms by (intro pageCount_eq) auto
  ultimately show ?thesis
    by (cases k) (auto simp: PlanTabularPage_def Let_def)
qed

lemma page_trimmed:
  assumes "\<forall>l \<in> set (split_on newline s). Suc (length l) < z" "z * k < length s"
    and "int (length s) + 2 * int z < 2 ^ 63"
  shows "TrimToWholeLines (take (if k = 0 then z else 2 * z) (drop (z * (k - 1)) s)) (int z)
      (PlanTabularPage (int (Suc k)) (int z) (int (length s))) = page_of s z k"
proof -
  have z: "1 < z" using assms(1) by (rule short_lines_size)
  let ?off = "z * (k - 1)" and ?N = "(length s + z - 1) div z"
  define chunk where "chunk = take (if k = 0 then z else 2 * z) (drop ?off s)"
  define p where "p = seekLineStart chunk (if k = 0 then 0 else int z - 1)"
  define q where "q = (if z * Suc k < length s then seekLineStart chunk (int (length chunk) - 1) else length chunk)"
  have off: "?off \<le> z * k" by (intro mult_le_mono2) simp
  have "chunk \<noteq> []"
    using z assms(2) le_less_trans [OF off assms(2)] by (simp add: chunk_def)
  have p: "p + ?off = page_cut s z k"
  proof (cases "k = 0")
    case True
    then show ?thesis by (simp add: p_def page_cut_def seekLineStart_def Let_def)
  next
    case False
    with page_start [OF assms(1) _ assms(2)] show ?thesis
      by (simp add: p_def chunk_def)
  qed
  have q: "q + ?off = page_cut s z (Suc k)"
  proof (cases "z * Suc k < length s")
    case True
    with page_end [OF assms(1) True] show ?thesis
      by (simp add: q_def chunk_def)
  next
    case False
    have "z * Suc k = ?off + (if k = 0 then z else 2 * z)" by (cases k) auto
    with False off assms(2) have "length chunk = length s - ?off"
      by (simp add: chunk_def)
    moreover have "?off \<le> length s" using off assms(2) by linarith
    ultimately show ?thesis
      using False by (simp add: q_def page_cut_def)
  qed
  have last: "(int k = wrap64 (int ?N - 1)) = (\<not> z * Suc k < length s)"
  proof -
    have "?N \<le> length s + z" by (meson div_le_dividend diff_le_self le_trans)
    then have "wrap64 (int ?N - 1) = int ?N - 1"
      using assms(3) by (intro wrap64_id) (auto simp: int64_def)
    then have "(int k = wrap64 (int ?N - 1)) = (Suc k = ?N)" by auto
    with page_index(2) [of z k "length s"] z assms(2) show ?thesis by auto
  qed
  have w: "wrap64 (int z - 1) = int z - 1"
    using assms(3) by (intro wrap64_id) (auto simp: int64_def)
  have "TrimToWholeLines chunk (int z) (PlanTabularPage (int (Suc k)) (int z) (int (length s))) =
      (if p \<ge> q then [] else take (q - p) (drop p chunk))"
    unfolding page_plan [OF less_trans [OF zero_less_one z] assms(2,3)]
    using \<open>chunk \<noteq> []\<close> last by (simp add: TrimToWholeLines_def Let_def w p_def q_def del: of_nat_mult of_nat_Suc)
  also have "\<dots> = take (q - p) (drop p chunk)" by simp
  also have "\<dots> = take (q - p) (drop (p + ?off) s)"
  proof -
    have "q \<le> length chunk"
      using seek_back_le [of chunk "length chunk - 1"] \<open>chunk \<noteq> []\<close>
      by (auto simp: q_def seekLineStart_def Let_def nat_diff_distrib)
    then have "take (q - p) (drop p chunk) = drop p (take q chunk)" by (simp add: drop_take)
    also have "\<dots> = drop p (take q (drop ?off s))"
      using \<open>q \<le> length chunk\<close> by (simp add: chunk_def min_absorb1)
    finally show ?thesis by (simp add: drop_take)
  qed
  also have "\<dots> = page_of s z k"
    unfolding page_of_def p [symmetric] q [symmetric] by simp
  finally show ?thesis by (simp add: chunk_def)
qed

context served_file begin

lemma page_reads:
  assumes "ok s" "ascii contents" "\<forall>l \<in> set (split_on newline contents). Suc (length l) < z"
    and "z * k < length contents" "int (length contents) + 2 * int z < 2 ^ 63"
    and "min (2 * int z) (int (length contents)) \<le> MaxChunkSize"
  shows "\<exists>s'. page_text readAt path (int (Suc k)) (int z) (int (length contents)) s =
    (Inr (page_of contents z k), s') \<and> ok s'"
proof -
  have z: "0 < z" using short_lines_size [OF assms(3)] by simp
  let ?plan = "PlanTabularPage (int (Suc k)) (int z) (int (length contents))"
  note plan = page_plan [OF z assms(4,5)]
  have "k \<le> (length contents + z - 1) div z"
    using page_index(1) [OF z, of k "length contents"] assms(4) by simp
  then have within: "\<not> tp_Page ?plan > tp_Pages ?plan"
    unfolding plan by simp
  let ?off = "z * (k - 1)" and ?len = "if k = 0 then z else 2 * z"
  obtain s' where "read_span readAt path (int ?off) (int ?len) (int (length contents)) s =
      (Inr (DecodeChunk (take (nat (int ?len)) (drop (nat (int ?off)) contents)) (int ?off > 0)), s')" "ok s'"
  proof -
    have "min (int ?len) (int (length contents)) \<le> MaxChunkSize" "int64 (int (length contents))"
      using assms(5,6) by (auto simp: int64_def min_def split: if_splits)
    from read_span_reads [OF assms(1) of_nat_0_le_iff of_nat_0_le_iff this(2,1), of ?off] that
    show ?thesis by blast
  qed
  then have "page_text readAt path (int (Suc k)) (int z) (int (length contents)) s =
      (Inr (TrimToWholeLines (take (if k = 0 then z else 2 * z) (drop (z * (k - 1)) contents)) (int z) ?plan), s')"
    using within assms(2) unfolding page_text_def Let_def
    by (simp add: plan bindM_def returnM_def DecodeChunk_ascii ascii_part del: of_nat_Suc of_nat_mult)
  with page_trimmed [OF assms(3-5)] \<open>ok s'\<close> show ?thesis by simp
qed

lemma pages_read:
  assumes "ok s" "ascii contents" "\<forall>l \<in> set (split_on newline contents). Suc (length l) < z"
    and "int (length contents) + 2 * int z < 2 ^ 63" "min (2 * int z) (int (length contents)) \<le> MaxChunkSize"
    and "\<forall>k \<in> set ks. z * k < length contents"
  shows "\<exists>s'. mapM (\<lambda>k. page_text readAt path (int (Suc k)) (int z) (int (length contents))) ks s =
    (Inr (map (page_of contents z) ks), s') \<and> ok s'"
  using assms(1,6)
proof (induction ks arbitrary: s)
  case (Cons k ks)
  then obtain s1 where "page_text readAt path (int (Suc k)) (int z) (int (length contents)) s =
      (Inr (page_of contents z k), s1)" "ok s1"
    using page_reads assms(2-5) by (metis list.set_intros(1))
  moreover from this(2) obtain s2 where "mapM (\<lambda>k. page_text readAt path (int (Suc k)) (int z) (int (length contents))) ks s1 =
      (Inr (map (page_of contents z) ks), s2)" "ok s2"
    using Cons by force
  ultimately show ?case by (simp add: bindM_def returnM_def del: of_nat_Suc)
qed (simp add: returnM_def)

end

lemma page_ends_line:
  assumes "\<forall>l \<in> set (split_on newline s). Suc (length l) < z" "z * Suc k < length s"
  shows "page_of s z k = [] \<or> last (page_of s z k) = newline"
proof (cases "page_cut s z k < page_cut s z (Suc k)")
  case True
  have "page_cut s z (Suc k) \<le> length s"
    using seek_back_le [of s "z * Suc k - 1"] assms(2) by (simp add: page_cut_def)
  with True have "last (page_of s z k) = s ! (page_cut s z (Suc k) - 1)"
    by (simp add: page_of_def last_conv_nth)
  also have "\<dots> = newline"
    using True assms(2) seek_back_newline [of s "z * Suc k - 1"] by (simp add: page_cut_def)
  finally show ?thesis by simp
qed (simp add: page_of_def)

lemma pages_cover:
  assumes "0 < z"
  shows "concat (map (page_of s z) [0..<(length s + z - 1) div z]) = s"
proof -
  let ?N = "(length s + z - 1) div z"
  have "length s \<le> z * ?N"
    using page_index(1) [OF assms, of ?N "length s"] by simp
  then have "page_cut s z ?N = length s"
    by (cases "?N = 0") (auto simp: page_cut_def)
  then show ?thesis
    using cuts_cover [of "page_cut s z" s ?N] page_cut_mono
    by (simp add: page_of_def [abs_def] page_cut_def [of s z 0])
qed


definition sample_table :: string where
  "sample_table = ''a,b'' @ [newline] @ ''1,2'' @ [newline] @ ''3,4'' @ [newline]"


section \<open>Where the pages do not fit\<close>

text \<open>A page is looked for in the decoded text, from which the rest of a character cut at the start of
  the read has been dropped, so it begins up to three bytes late: here the line \<open>cd\<close> is on no page.\<close>

definition edge_table :: string where
  "edge_table = ''a'' @ [newline] @ ''b'' @ map char_of [195 :: nat, 169] @ [newline] @ ''cd'' @ [newline] @ ''e''"

lemma row_on_no_page:
  "map (\<lambda>p. fst (page_text (ReadAt mem_deps (one_file edge_table) 0) ''/z/f'' p 4 10 sample_view)) [1, 2, 3] =
     [Inr (''a'' @ [newline]), Inr (''b'' @ map char_of [195 :: nat, 169] @ [newline]), Inr ''e'']"
  by code_simp

text \<open>The sum in \<open>pageCount\<close> wraps for a page size near the largest integer: the only page of a small
  file is refused as out of range, or has its last line cut off.\<close>

lemma huge_page_overflows: "pageCount (2 ^ 63 - 1) 3 = - 1" "pageCount (2 ^ 63 - 1) 10 = 0"
  by code_simp+

lemma huge_page_cut:
  "fst (page_text (ReadAt mem_deps (one_file ''1,2,3,4,56'') 0) ''/z/f'' 1 (2 ^ 63 - 1) 10 sample_view) = Inr []"
  by code_simp

text \<open>\<open>seekLineStart\<close> does not see a newline that is the chunk's first byte.\<close>

lemma first_newline_unseen: "seekLineStart (newline # ''ab'') 1 = 0" "seekLineStart (''a'' @ newline # ''b'') 1 = 2"
  by code_simp+

end
