(* ===== verification/Trimming.thy ===== *)
theory Trimming
  imports GoStrings
begin

text \<open>
  What \<open>strings.TrimSpace\<close> leaves alone: lemmas for running the model on concrete text.
\<close>

text \<open>Text that begins and ends with a visible ASCII character.\<close>

definition visible :: "char \<Rightarrow> bool" where
  "visible c \<longleftrightarrow> 32 < (of_char c :: nat) \<and> (of_char c :: nat) < 128"

lemma no_space_prefix:
  assumes "visible c"
  shows "find (\<lambda>w. w \<noteq> [] \<and> has_prefix (c # s) w) space_encodings = None"
    and "find (\<lambda>w. w \<noteq> [] \<and> has_prefix (c # s) w) (map rev space_encodings) = None"
proof -
  have "\<not> has_prefix (c # s) w" if "w \<noteq> []" "\<not> visible (hd w)" for w
    using assms that by (cases w) auto
  moreover have "list_all (\<lambda>w. \<not> visible (hd w) \<and> \<not> visible (last w)) space_encodings"
    by (simp add: space_encodings_def visible_def)
  ultimately show "find (\<lambda>w. w \<noteq> [] \<and> has_prefix (c # s) w) space_encodings = None"
    "find (\<lambda>w. w \<noteq> [] \<and> has_prefix (c # s) w) (map rev space_encodings) = None"
    by (auto simp: find_None_iff list_all_iff hd_rev)
qed

lemma strip_any_kept: "find (\<lambda>w. w \<noteq> [] \<and> has_prefix s w) ws = None \<Longrightarrow> strip_any ws s = s"
  by (subst strip_any.simps) simp

lemma trim_space_kept:
  assumes "s \<noteq> []" "visible (hd s)" "visible (last s)"
  shows "trim_space s = s"
proof -
  have "strip_any space_encodings s = s"
    using no_space_prefix(1) [OF assms(2)] assms(1) by (cases s) (simp_all add: strip_any_kept)
  moreover have "strip_any (map rev space_encodings) (rev s) = rev s"
    using no_space_prefix(2) [OF assms(3)] assms(1)
    by (cases s rule: rev_cases) (simp_all add: strip_any_kept)
  ultimately show ?thesis
    by (simp add: trim_space_def)
qed

end
