(* ===== verification/CreateHandlers.thy ===== *)
theory CreateHandlers
  imports ReadHandlers MemStore Trimming
begin

text \<open>
  The endpoints that create things (\<open>internal/handlers\<close>: \<open>create.go\<close>, \<open>upload.go\<close>,
  \<open>uploadchecks.go\<close>, \<open>uploadcleanup.go\<close>).  A new collection hangs from the deepest ancestor that
  exists, which has to be writeable before anything is made; an upload is written beside its
  destination and renamed, and what a failed one leaves is removed in the background.
\<close>

section \<open>uploadchecks.go\<close>

definition uploadUser :: "'b request \<Rightarrow> string" where
  "uploadUser rq = trim_space (QueryParam rq ''user'')"

definition unknownUploadUser :: api_error where
  "unknownUploadUser = With ''users'' (JArr [JNull]) (New ErrNotAUser)"

definition missingUploadPath :: api_error where
  "missingUploadPath = With ''paths'' (JArr [JNull]) (New ErrDoesNotExist)"

definition requireAbsent :: "'w deps \<Rightarrow> nat \<Rightarrow> string \<Rightarrow> ('w env, unit) op" where
  "requireAbsent deps h path = refusing_one deps h path st_exists (with_paths [path] (New ErrExists))"

definition requirePresent :: "'w deps \<Rightarrow> nat \<Rightarrow> string \<Rightarrow> ('w env, unit) op" where
  "requirePresent deps h path =
     refusing_one deps h path (\<lambda>st. \<not> st_exists st) (with_paths [path] (New ErrDoesNotExist))"

definition requireFile :: "'w deps \<Rightarrow> nat \<Rightarrow> string \<Rightarrow> ('w env, unit) op" where
  "requireFile deps h path =
     refusing_one deps h path (\<lambda>st. st_type st \<noteq> ObjectTypeFile) (with_paths [path] (New ErrNotAFile))"

definition requirePermission :: "'w deps \<Rightarrow> nat \<Rightarrow> string \<Rightarrow> string \<Rightarrow> permission \<Rightarrow> ('w env, unit) op" where
  "requirePermission deps h user path required =
     refusing_one deps h path (\<lambda>st. \<not> Permits (st_permission st) required)
       (With ''user'' (JStr user) (with_paths [path] (insufficientPermission required)))"

definition checkPathLength :: "string \<Rightarrow> ('s, unit) op" where
  "checkPathLength path =
     (case CheckLength path of
        LengthPath \<Rightarrow> failM (to_gerror (With ''full-path'' (JStr path) (New ErrBadPathLength)))
      | LengthDir \<Rightarrow> failM (to_gerror (With ''full-path'' (JStr path)
          (With ''dir-path'' (JStr (Dir path)) (New ErrBadDirnameLength))))
      | LengthBasename \<Rightarrow> failM (to_gerror (With ''full-path'' (JStr path)
          (With ''file-path'' (JStr (Base path)) (New ErrBadBasenameLength))))
      | LengthOK \<Rightarrow> returnM ())"

section \<open>create.go\<close>

definition goodPathname :: "string \<Rightarrow> string \<Rightarrow> bool" where
  "goodPathname path badChars \<longleftrightarrow> \<not> contains_any path badChars"

fun unique_after :: "string list \<Rightarrow> string list \<Rightarrow> gerror + string list" where
  "unique_after out [] = Inr out"
| "unique_after out (p # ps) =
     (if trim_space p = [] then Inl (to_gerror (schemaError ''paths must not contain blank strings''))
      else let cleaned = trim_right (Clean p)
        in if cleaned = [] then Inl (to_gerror (schemaError ''paths must name a collection, not the root''))
           else if List.member out cleaned then unique_after out ps
           else unique_after (out @ [cleaned]) ps)"

definition uniquePaths :: "string list \<Rightarrow> gerror + string list" where
  "uniquePaths ps = unique_after [] ps"

record createPlan =
  cp_path :: string
  cp_existingAncestor :: string
  cp_toCreate :: "string list"
  cp_shallowestCreated :: string

text \<open>The climb of \<open>planCreate\<close>, from \<open>current\<close> up.\<close>

function climb_plan :: "'w deps \<Rightarrow> nat \<Rightarrow> string \<Rightarrow> createPlan \<Rightarrow> ('w env, createPlan) op" where
  "climb_plan deps h current plan s =
     (case Stat deps h current s of
        (Inl e, s') \<Rightarrow> (Inl e, s')
      | (Inr st, s') \<Rightarrow>
          if st_exists st then (Inr (plan\<lparr>cp_existingAncestor := current\<rparr>), s')
          else let plan' = plan\<lparr>cp_toCreate := cp_toCreate plan @ [current], cp_shallowestCreated := current\<rparr>
            in if Dir current = current \<or> Dir current = ''/''
               then (Inr (plan'\<lparr>cp_existingAncestor := ''/''\<rparr>), s')
               else climb_plan deps h (Dir current) plan' s')"
  by pat_completeness auto
termination
  by (relation "measure (\<lambda>(deps, h, current, plan, s). climb_measure current)") (auto simp: climb_measure_Dir)

declare climb_plan.simps [simp del]

definition planCreate :: "'w deps \<Rightarrow> nat \<Rightarrow> string \<Rightarrow> ('w env, createPlan) op" where
  "planCreate deps h path =
     bindM (Stat deps h path) (\<lambda>st.
       if st_exists st then failM (to_gerror (with_path path (New ErrExists)))
       else climb_plan deps h path
         \<lparr>cp_path = path, cp_existingAncestor = [], cp_toCreate = [], cp_shallowestCreated = []\<rparr>)"

definition plan_one :: "'w deps \<Rightarrow> nat \<Rightarrow> string \<Rightarrow> string \<Rightarrow> ('w env, createPlan) op" where
  "plan_one deps h badChars path =
     (if \<not> goodPathname path badChars then failM (to_gerror (with_path path (New ErrBadOrMissingField)))
      else thenM (checkPathLength path) (planCreate deps h path))"

definition ancestor_writeable :: "'w deps \<Rightarrow> nat \<Rightarrow> createPlan \<Rightarrow> ('w env, unit) op" where
  "ancestor_writeable deps h plan =
     (if cp_existingAncestor plan = ''/''
      then failM (to_gerror (with_path (cp_existingAncestor plan) (New ErrNotWriteable)))
      else refusing_one deps h (cp_existingAncestor plan) (\<lambda>st. \<not> Permits (st_permission st) PermissionWrite)
        (with_path (cp_existingAncestor plan) (New ErrNotWriteable)))"

definition create_planned :: "'w deps \<Rightarrow> nat \<Rightarrow> createPlan \<Rightarrow> ('w env, unit) op" where
  "create_planned deps h plan =
     bindM (Stat deps h (cp_path plan)) (\<lambda>st.
       if st_exists st then returnM () else MakeDir deps h (cp_path plan) True)"

definition own_planned :: "'w deps \<Rightarrow> nat \<Rightarrow> string \<Rightarrow> createPlan \<Rightarrow> ('w env, unit) op" where
  "own_planned deps h user plan =
     (if cp_shallowestCreated plan = [] then returnM ()
      else SetOwner deps h (cp_shallowestCreated plan) user True)"

text \<open>The part of \<open>CreateDirectories\<close> that only looks, and the part that acts.\<close>

definition plan_directories ::
    "'w deps \<Rightarrow> nat \<Rightarrow> string \<Rightarrow> string list \<Rightarrow> ('w env, createPlan list) op" where
  "plan_directories deps h badChars paths =
     bindM (ofM (uniquePaths paths)) (\<lambda>requested.
     bindM (mapM (plan_one deps h badChars) requested) (\<lambda>plans.
     thenM (forM (ancestor_writeable deps h) plans) (returnM plans)))"

definition make_directories :: "'w deps \<Rightarrow> nat \<Rightarrow> string \<Rightarrow> createPlan list \<Rightarrow> ('w env, string list) op" where
  "make_directories deps h user plans =
     thenM (forM (create_planned deps h) plans)
    (thenM (forM (own_planned deps h user) plans)
       (returnM (sort (remdups (concat (map cp_toCreate plans))))))"

definition create_directories ::
    "'w deps \<Rightarrow> nat \<Rightarrow> string \<Rightarrow> string \<Rightarrow> string list \<Rightarrow> ('w env, string list) op" where
  "create_directories deps h user badChars paths =
     bindM (plan_directories deps h badChars paths) (make_directories deps h user)"

definition CreateDirectories ::
    "('w, 'b) handler_deps \<Rightarrow> string list request \<Rightarrow> (('w, 'b) server, json) op" where
  "CreateDirectories d rq =
     bindM (requireUser rq) (\<lambda>user.
     bindM (bindBody rq) (\<lambda>paths.
       if paths = [] then schemaErrorM ''paths must not be empty''
       else thenM (CheckPathCount d (length paths))
         (with_scope d 0 user (on_env
           (thenM (requireKnownUser (hd_rods d) 0 user False)
             (bindM (create_directories (hd_rods d) 0 user (hd_BadChars d) paths) (\<lambda>out.
                returnM (JObj [(''paths'', strings_json out)]))))))))"

section \<open>upload.go\<close>

text \<open>A multipart body is the parts echo's reader yields; \<open>None\<close> is one it cannot parse.\<close>

record part =
  pt_FormName :: string
  pt_FileName :: string
  pt_Contents :: source

definition uploadPartName :: string where
  "uploadPartName = ''file''"

fun find_part :: "part option list \<Rightarrow> gerror + part" where
  "find_part [] = Inl (to_gerror (schemaError ''file is required''))"
| "find_part (None # _) = Inl (to_gerror (schemaError ''the multipart body could not be parsed''))"
| "find_part (Some p # rest) =
     (if pt_FormName p = uploadPartName then Inr p
      else if snd (pt_Contents p) \<noteq> None
      then Inl (to_gerror (schemaError ''the multipart body could not be read''))
      else find_part rest)"

definition uploadPart :: "part option list request \<Rightarrow> ('s, part) op" where
  "uploadPart rq =
     (case rq_body rq of
        None \<Rightarrow> schemaErrorM ''the request must be a multipart upload''
      | Some parts \<Rightarrow> ofM (find_part parts))"

text \<open>The removals a failure leaves to the background, each a user and a path.\<close>

type_synonym removals = "(string \<times> string) list"

definition on_request :: "('s, 'a) op \<Rightarrow> ('s \<times> removals, 'a) op" where
  "on_request m = (\<lambda>(s, left). case m s of (r, s') \<Rightarrow> (r, (s', left)))"

definition scheduleTempCleanup :: "string \<Rightarrow> string \<Rightarrow> ('s \<times> removals, unit) op" where
  "scheduleTempCleanup user path = modifyM (\<lambda>(s, left). (s, left @ [(user, path)]))"

definition or_cleanup :: "string \<Rightarrow> string \<Rightarrow> ('s, 'a) op \<Rightarrow> ('s \<times> removals, unit) op" where
  "or_cleanup user temp m = (\<lambda>s. case on_request m s of
     (Inl err, s') \<Rightarrow> thenM (scheduleTempCleanup user temp) (failM err) s'
   | (Inr _, s') \<Rightarrow> (Inr (), s'))"

definition writeAtomically ::
    "'w deps \<Rightarrow> 'w streams \<Rightarrow> nat \<Rightarrow> string \<Rightarrow> string \<Rightarrow> string \<Rightarrow> source \<Rightarrow> ('w env \<times> removals, unit) op" where
  "writeAtomically deps files h uuid user path body =
     (let temp = TempUploadPath uuid path in
      thenM (or_cleanup user temp (WriteFile deps files h temp body))
     (thenM (or_cleanup user temp (Checksum deps h temp))
     (thenM (or_cleanup user temp (SetOwner deps h temp user False))
            (or_cleanup user temp (Rename deps h temp path)))))"

definition respondWithStat ::
    "('w, 'b) handler_deps \<Rightarrow> string \<Rightarrow> string \<Rightarrow> ('w env, json) op" where
  "respondWithStat d user path =
     bindM (StatOf (hd_rods d) 0 user path (stat_options_of d (ParseFieldSet [] []))) (\<lambda>st.
       returnM (JObj [(''file'', status_json st)]))"

text \<open>A scope of the request whose body may schedule removals.\<close>

definition in_scope ::
    "('w, 'b) handler_deps \<Rightarrow> string \<Rightarrow> ('w env \<times> removals, 'a) op \<Rightarrow> ('w env \<times> removals, 'a) op" where
  "in_scope d user body =
     thenM (on_request (OpenScope d 0 user)) (finallyM body (on_request (Close 0)))"

definition Upload ::
    "('w, 'b) handler_deps \<Rightarrow> 'w streams \<Rightarrow> string \<Rightarrow> part option list request \<Rightarrow> ('w env \<times> removals, json) op" where
  "Upload d files uuid rq =
     bindM (uploadPart rq) (\<lambda>p.
       if pt_FileName p = [] then schemaErrorM ''file must be an uploaded file''
       else if \<not> goodPathname (pt_FileName p) (hd_BadChars d)
       then failM (to_gerror (with_path (pt_FileName p) (New ErrBadOrMissingField)))
       else let user = uploadUser rq in
         if user = [] then failM (to_gerror unknownUploadUser)
         else in_scope d user
           (thenM (on_request (requireKnownUser (hd_rods d) 0 user True))
           (let dest = trim_right (trim_space (QueryParam rq ''dest''))
            in if dest = [] then failM (to_gerror missingUploadPath)
               else let path = Join [dest, pt_FileName p] in
                 thenM (on_request (requireAbsent (hd_rods d) 0 path))
                (thenM (on_request (requirePresent (hd_rods d) 0 dest))
                (thenM (on_request (requirePermission (hd_rods d) 0 user dest PermissionWrite))
                (thenM (checkPathLength path)
                (thenM (writeAtomically (hd_rods d) files 0 uuid user path (pt_Contents p))
                  (on_request (respondWithStat d user path)))))))))"

definition Overwrite ::
    "('w, 'b) handler_deps \<Rightarrow> 'w streams \<Rightarrow> part option list request \<Rightarrow> ('w env, json) op" where
  "Overwrite d files rq =
     bindM (uploadPart rq) (\<lambda>p.
       let user = uploadUser rq; i = Param rq ''data-id'' in
         if user = [] then failM (to_gerror unknownUploadUser)
         else thenM (OpenScope d 0 user) (finallyM
           (thenM (requireKnownUser (hd_rods d) 0 user True)
           (bindM (PathsForUUIDs (hd_rods d) 0 [i]) (\<lambda>found.
              case map_of found i of
                None \<Rightarrow> failM (to_gerror missingUploadPath)
              | Some found_path \<Rightarrow>
                  let path = trim_right found_path in
                    thenM (requirePresent (hd_rods d) 0 path)
                   (thenM (requireFile (hd_rods d) 0 path)
                   (thenM (requirePermission (hd_rods d) 0 user path PermissionRead)
                   (thenM (checkPathLength path)
                   (thenM (WriteFile (hd_rods d) files 0 path (pt_Contents p))
                   (thenM (Checksum (hd_rods d) 0 path)
                     (respondWithStat d user path)))))))))
           (Close 0)))"

section \<open>uploadcleanup.go\<close>

text \<open>Seconds.\<close>

definition tempCleanupSchedule :: "nat list" where
  "tempCleanupSchedule = [3, 6, 12, 24, 30, 30, 30]"

definition cleanup_budget :: nat where
  "cleanup_budget = 60 + sum_list tempCleanupSchedule"

datatype cleanupOutcome = CleanupPending | CleanupRemoved | CleanupAbsent

definition removeTempObject :: "('w, 'b) handler_deps \<Rightarrow> string \<Rightarrow> ('w env, cleanupOutcome) op" where
  "removeTempObject d path =
     thenM (OpenProxyScope d) (finallyM
       (bindM (FileExists (hd_rods d) 1 path) (\<lambda>there.
          if \<not> there then returnM CleanupAbsent
          else thenM (\<lambda>s. case DeleteFile (hd_rods d) 1 path True s of
                 (Inl _, s') \<Rightarrow> DeleteFile (hd_rods d) 1 path False s'
               | (Inr _, s') \<Rightarrow> (Inr (), s'))
            (bindM (FileExists (hd_rods d) 1 path) (\<lambda>stillThere.
              returnM (if stillThere then CleanupPending else CleanupRemoved)))))
       (Close 1))"

datatype cleanup_end = Expired | Removed | Absent | EveryAttemptFailed

text \<open>The background removal; \<open>took\<close> is how long each attempt takes, \<open>spent\<close> the time gone by.  When a
  wait ends just as the budget does, either may be seen first; the deadline is taken.\<close>

primrec cleanup_from ::
    "('w, 'b) handler_deps \<Rightarrow> string \<Rightarrow> (nat \<Rightarrow> nat) \<Rightarrow> nat \<Rightarrow> nat list \<Rightarrow> 'w env \<Rightarrow> cleanup_end \<times> 'w env" where
  "cleanup_from d path took spent [] s = (EveryAttemptFailed, s)"
| "cleanup_from d path took spent (w # ws) s =
     (if cleanup_budget \<le> spent + w then (Expired, s)
      else case removeTempObject d path s of
        (Inr CleanupRemoved, s') \<Rightarrow> (Removed, s')
      | (Inr CleanupAbsent, s') \<Rightarrow> (Absent, s')
      | (_, s') \<Rightarrow> cleanup_from d path took (spent + w + took (length ws)) ws s')"

definition temp_cleanup :: "('w, 'b) handler_deps \<Rightarrow> (nat \<Rightarrow> nat) \<Rightarrow> string \<Rightarrow> 'w env \<Rightarrow> cleanup_end \<times> 'w env" where
  "temp_cleanup d took path = cleanup_from d path took 0 tempCleanupSchedule"

section \<open>Creating collections\<close>

text \<open>The climb follows the path's ancestors: those it plans to create, then the one it stops at.\<close>

definition climbed :: "createPlan \<Rightarrow> string \<Rightarrow> bool" where
  "climbed plan path \<longleftrightarrow> cp_path plan = path \<and>
     (\<exists>rest. chain_from path = cp_toCreate plan @ rest \<and>
        cp_existingAncestor plan = (case rest of [] \<Rightarrow> ''/'' | a # _ \<Rightarrow> a)) \<and>
     cp_shallowestCreated plan = (if cp_toCreate plan = [] then [] else last (cp_toCreate plan))"

lemma climb_plan_chain:
  assumes "climb_plan deps h current plan s = (Inr plan', s')"
    and "chain_from path = cp_toCreate plan @ chain_from current" "cp_path plan = path"
    and "cp_shallowestCreated plan = (if cp_toCreate plan = [] then [] else last (cp_toCreate plan))"
  shows "climbed plan' path"
  using assms
proof (induction deps h current plan s rule: climb_plan.induct)
  case (1 deps h current plan s)
  obtain st s1 where stat: "Stat deps h current s = (Inr st, s1)"
    using "1.prems"(1) by (subst (asm) climb_plan.simps) (auto split: prod.splits sum.splits)
  let ?plan = "plan\<lparr>cp_toCreate := cp_toCreate plan @ [current], cp_shallowestCreated := current\<rparr>"
  consider (found) "st_exists st" | (top) "\<not> st_exists st" "Dir current = current \<or> Dir current = ''/''"
    | (up) "\<not> st_exists st" "\<not> (Dir current = current \<or> Dir current = ''/'')" by blast
  then show ?case
  proof cases
    case found
    with "1.prems" stat show ?thesis
      by (subst (asm) climb_plan.simps)
        (auto simp: climbed_def intro!: exI [of _ "chain_from current"] split: list.splits
          simp: chain_from.simps [of current])
  next
    case top
    then have "chain_from current = [current]" by (subst chain_from.simps) simp
    with "1.prems" stat top show ?thesis
      by (subst (asm) climb_plan.simps) (auto simp: climbed_def)
  next
    case up
    then have "chain_from path = cp_toCreate ?plan @ chain_from (Dir current)"
      using "1.prems"(2) by (subst (asm) (2) chain_from.simps) simp
    moreover have "climb_plan deps h (Dir current) ?plan s1 = (Inr plan', s')"
      using "1.prems"(1) stat up by (subst (asm) climb_plan.simps) simp
    ultimately show ?thesis
      using "1.IH" [OF stat [symmetric]] stat up "1.prems"(3) by simp
  qed
qed

lemma planCreate_climbed:
  assumes "planCreate deps h path s = (Inr plan, s')"
  shows "climbed plan path"
  using assms by (auto simp: planCreate_def bindM_def split: prod.splits sum.splits if_splits
      intro: climb_plan_chain)

text \<open>What passes the check was seen by the caller to be writeable, before anything changed.\<close>

definition seen_writeable ::
    "'w deps \<Rightarrow> ('w \<Rightarrow> string \<Rightarrow> string \<Rightarrow> permission) \<Rightarrow> nat \<Rightarrow> 'w env \<Rightarrow> string \<Rightarrow> bool" where
  "seen_writeable deps level h s path \<longleftrightarrow>
     (\<exists>t st. level (env_world t) = level (env_world s) \<and> fst (Stat deps h path t) = Inr st \<and>
        Permits (st_permission st) PermissionWrite)"

context irods_backend begin

lemma undisturbed_climb: "keeps (undisturbed h) (climb_plan deps k current plan)"
proof -
  have "undisturbed h s (snd (climb_plan dps k current plan s))" if "dps = deps" for dps s
    using that
  proof (induction dps k current plan s rule: climb_plan.induct)
    case (1 dps k current plan s)
    obtain r s1 where stat: "Stat deps k current s = (r, s1)" by fastforce
    then have one: "undisturbed h s s1"
      using undisturbed_Stat by (metis keepsD)
    show ?case
    proof (cases r)
      case (Inr st)
      show ?thesis
      proof (cases "st_exists st \<or> Dir current = current \<or> Dir current = ''/''")
        case True
        with stat Inr one "1.prems" show ?thesis
          by (subst climb_plan.simps) auto
      next
        case False
        with "1.IH" [of _ s1] stat Inr "1.prems" have "undisturbed h s1 (snd (climb_plan deps k (Dir current)
            (plan\<lparr>cp_toCreate := cp_toCreate plan @ [current], cp_shallowestCreated := current\<rparr>) s1))"
          by simp
        with one False stat Inr "1.prems" show ?thesis
          using preorder_rel_trans [OF preorder_undisturbed] by (subst climb_plan.simps) auto
      qed
    qed (use one stat "1.prems" in \<open>subst climb_plan.simps, simp\<close>)
  qed
  then show ?thesis by (simp add: keeps_def)
qed

lemma undisturbed_refusing_one: "keeps (undisturbed h) (refusing_one deps k path bad refusal)"
  unfolding refusing_one_def by (intro keeps_intros preorder_undisturbed undisturbed_Stat)

lemma undisturbed_plan_one: "keeps (undisturbed h) (plan_one deps k badChars path)"
proof -
  have "keeps (undisturbed h) (checkPathLength path)"
    by (auto simp: checkPathLength_def keeps_def preorder_rel_refl [OF preorder_undisturbed] split: length_violation.split)
  then show ?thesis
    unfolding plan_one_def planCreate_def
    by (intro keeps_intros preorder_undisturbed undisturbed_Stat undisturbed_climb)
qed

lemma undisturbed_ancestor_writeable: "keeps (undisturbed h) (ancestor_writeable deps k plan)"
  unfolding ancestor_writeable_def by (intro keeps_intros preorder_undisturbed undisturbed_refusing_one)

lemma undisturbed_plan_directories: "keeps (undisturbed h) (plan_directories deps k badChars paths)"
  unfolding plan_directories_def
  by (intro keeps_intros preorder_undisturbed undisturbed_plan_one undisturbed_ancestor_writeable)

lemma ancestors_seen:
  assumes "forM (ancestor_writeable deps h) plans t = (Inr u, s')" "level (env_world t) = level (env_world s)"
  shows "\<forall>plan \<in> set plans. cp_existingAncestor plan \<noteq> ''/'' \<and> seen_writeable deps level h s (cp_existingAncestor plan)"
  using assms
proof (induction plans arbitrary: t)
  case (Cons plan plans)
  then obtain t1 where one: "ancestor_writeable deps h plan t = (Inr (), t1)"
    and rest: "forM (ancestor_writeable deps h) plans t1 = (Inr u, s')"
    by (auto simp: thenM_eq_Inr)
  have "level (env_world t1) = level (env_world t)"
    using keepsD [OF undisturbed_ancestor_writeable one] by (simp add: undisturbed_def)
  moreover have "cp_existingAncestor plan \<noteq> ''/'' \<and> seen_writeable deps level h s (cp_existingAncestor plan)"
    using one Cons.prems(2)
    by (auto simp: ancestor_writeable_def refusing_one_def seen_writeable_def bindM_eq_Inr
        split: if_splits intro!: exI [of _ t])
  ultimately show ?case
    using Cons.IH [OF rest] Cons.prems(2) by simp
qed simp

end

lemma plans_climbed:
  "mapM (plan_one deps h badChars) requested s = (Inr plans, s') \<Longrightarrow> list_all2 climbed plans requested"
proof (induction requested arbitrary: s plans)
  case (Cons path requested)
  then obtain plan t plans' where one: "plan_one deps h badChars path s = (Inr plan, t)"
    and rest: "mapM (plan_one deps h badChars) requested t = (Inr plans', s')" "plans = plan # plans'"
    by (auto simp: bindM_eq_Inr)
  have "climbed plan path"
    using one by (auto simp: plan_one_def thenM_eq_Inr split: if_splits dest: planCreate_climbed)
  with Cons.IH rest show ?case by simp
qed simp

context irods_backend begin

lemma plan_directories_seen:
  assumes "plan_directories deps h badChars paths s = (Inr plans, s')"
  shows "\<exists>requested. uniquePaths paths = Inr requested \<and> list_all2 climbed plans requested"
    and "\<forall>plan \<in> set plans. cp_existingAncestor plan \<noteq> ''/'' \<and> seen_writeable deps level h s (cp_existingAncestor plan)"
proof -
  obtain requested t where run: "uniquePaths paths = Inr requested"
      "mapM (plan_one deps h badChars) requested s = (Inr plans, t)"
      "forM (ancestor_writeable deps h) plans t = (Inr (), s')"
    using assms by (auto simp: plan_directories_def op_inversions)
  then show "\<exists>requested. uniquePaths paths = Inr requested \<and> list_all2 climbed plans requested"
    using plans_climbed by blast
  have "keeps (undisturbed h) (mapM (plan_one deps h badChars) requested)"
    by (intro keeps_intros preorder_undisturbed undisturbed_plan_one)
  from keepsD [OF this run(2)] have "level (env_world t) = level (env_world s)"
    by (simp add: undisturbed_def)
  with ancestors_seen [OF run(3)]
  show "\<forall>plan \<in> set plans. cp_existingAncestor plan \<noteq> ''/'' \<and> seen_writeable deps level h s (cp_existingAncestor plan)"
    by simp
qed

lemma create_directories_seen:
  assumes "create_directories deps h user badChars paths s = (r, s')"
    and "level (env_world s') \<noteq> level (env_world s)"
  shows "\<exists>requested plans. uniquePaths paths = Inr requested \<and>
    fst (plan_directories deps h badChars paths s) = Inr plans \<and> list_all2 climbed plans requested \<and>
    (\<forall>plan \<in> set plans. cp_existingAncestor plan \<noteq> ''/'' \<and> seen_writeable deps level h s (cp_existingAncestor plan))"
proof -
  obtain q t where planned: "plan_directories deps h badChars paths s = (q, t)" by fastforce
  have "level (env_world t) = level (env_world s)"
    using keepsD [OF undisturbed_plan_directories planned] by (simp add: undisturbed_def)
  with assms planned obtain plans where "q = Inr plans"
    by (cases q) (auto simp: create_directories_def bindM_def)
  with planned plan_directories_seen show ?thesis
    by fastforce
qed

end


definition zone_world :: mem_world where
  "zone_world =
     \<lparr>mw_acls = [(''/z'', [(''a'', PermissionWrite)])], mw_inherits = [], mw_avus = [], mw_tickets = []\<rparr>"

text \<open>The caller has looked at both paths before.\<close>

definition sample_zone :: "mem_world env" where
  "sample_zone =
     \<lparr>env_world = zone_world,
      env_scopes = (\<lambda>_. (empty_scope ''a'')\<lparr>sc_sess := Some \<lparr>sess_user = ''a'', sess_poisoned = False\<rparr>,
        sc_items := [''/z'' \<mapsto> Inr (mem_row zone_world ''a'' ''/z''), ''/z/x'' \<mapsto> Inl NoSuchItem]\<rparr>)\<rparr>"

lemma sample_requested: "uniquePaths [''/z/x/''] = Inr [''/z/x'']"
proof -
  have "trim_space ''/z/x/'' = ''/z/x/''"
    by (simp add: trim_space_kept visible_def)
  moreover have "trim_right (Clean ''/z/x/'') = ''/z/x''"
    by code_simp
  ultimately show ?thesis
    by (simp add: uniquePaths_def)
qed

definition sample_create :: "(gerror + string list) \<times> mem_world env" where
  "sample_create = create_directories mem_deps 0 ''a'' [] [''/z/x/''] sample_zone"


section \<open>Failed uploads\<close>

definition leaves :: "string \<times> string \<Rightarrow> ('s \<times> removals, 'a) op \<Rightarrow> bool" where
  "leaves x m \<longleftrightarrow> (\<forall>s left r s' left'. m (s, left) = (r, (s', left')) \<longrightarrow>
     left' = left @ (case r of Inl _ \<Rightarrow> [x] | Inr _ \<Rightarrow> []))"

lemma leaves_or_cleanup: "leaves (user, temp) (or_cleanup user temp m)"
  by (auto simp: leaves_def or_cleanup_def on_request_def scheduleTempCleanup_def thenM_def
      split: prod.splits sum.splits)

lemma leaves_thenM: "leaves x m \<Longrightarrow> leaves x k \<Longrightarrow> leaves x (thenM m k)"
  unfolding leaves_def thenM_def bindM_def
proof (intro allI impI, goal_cases)
  case (1 s left r s' left')
  obtain q t tl where m: "m (s, left) = (q, (t, tl))" by (metis prod.collapse)
  with 1(1) have "tl = left @ (case q of Inl _ \<Rightarrow> [x] | Inr _ \<Rightarrow> [])" by blast
  with 1 m show ?case by (cases q) auto
qed

text \<open>A failed write leaves exactly the removal of its temporary object; one that succeeds leaves none.\<close>

lemma writeAtomically_removals:
  "leaves (user, TempUploadPath uuid path) (writeAtomically deps files h uuid user path body)"
  unfolding writeAtomically_def Let_def by (intro leaves_thenM leaves_or_cleanup)

text \<open>A removal is reported done only when the object was looked for afterwards and not found.\<close>

lemma finallyM_eq: "finallyM m k s = (r, s') \<longleftrightarrow> (\<exists>t. m s = (r, t) \<and> s' = snd (k t))"
  by (auto simp: finallyM_def split: prod.splits)

lemma removed_means_gone:
  assumes "removeTempObject d path s = (Inr CleanupRemoved, s')"
  shows "\<exists>t t'. FileExists (hd_rods d) 1 path t = (Inr False, t') \<and> s' = snd (Close 1 t')"
  using assms
  by (auto simp: removeTempObject_def finallyM_eq op_inversions split: if_splits) blast

text \<open>While the attempts take less than a minute together the budget does not expire.\<close>

lemma cleanup_in_budget:
  "spent + sum_list ws + sum took {..<length ws} < cleanup_budget \<Longrightarrow> fst (cleanup_from d path took spent ws s) \<noteq> Expired"
proof (induction ws arbitrary: spent s)
  case (Cons w ws)
  have "sum took {..<length (w # ws)} = sum took {..<length ws} + took (length ws)"
    by simp
  with Cons show ?case
    by (auto split: prod.splits sum.splits cleanupOutcome.splits)
qed simp

lemma temp_cleanup_in_budget:
  assumes "sum took {..<7} < 60"
  shows "fst (temp_cleanup d took path s) \<noteq> Expired"
proof -
  have "length tempCleanupSchedule = 7" by (simp add: tempCleanupSchedule_def)
  then show ?thesis
    using cleanup_in_budget [of 0 tempCleanupSchedule took] assms
    by (simp add: temp_cleanup_def cleanup_budget_def)
qed

end
