(* ===== verification/ShareHandlers.thy ===== *)
theory ShareHandlers
  imports CreateHandlers Sharing MemStore
begin

text \<open>
  The endpoints that change who may do what (\<open>internal/handlers\<close>: \<open>sharing.go\<close>, \<open>groups.go\<close>).  A share
  is validated as the caller (scope 0) and performed as the service account (scope 1); a failure on
  one path of a bulk request is that path's outcome and nothing else's.
\<close>

section \<open>sharing.go\<close>

record shareeEntry =
  se_user :: string
  se_paths :: "(string \<times> string) list"   \<comment> \<open>path and permission\<close>

record unshareeEntry =
  ue_user :: string
  ue_paths :: "string list"

record shareOutcome =
  oc_path :: string
  oc_permission :: string
  oc_success :: bool
  oc_reason :: string
  oc_error :: "json option"

definition outcome_json :: "shareOutcome \<Rightarrow> json" where
  "outcome_json oc = JObj
     ([(''path'', JStr (oc_path oc))] @ text_field ''permission'' (oc_permission oc) @
      [(''success'', JBool (oc_success oc))] @ text_field ''reason'' (oc_reason oc) @
      opt_field id ''error'' (oc_error oc))"

text \<open>\<open>envelopeOf\<close>; encoding/json writes a map's keys in order.\<close>

definition envelopeOf :: "(int \<Rightarrow> string) \<Rightarrow> gerror \<Rightarrow> json" where
  "envelopeOf StatusText err =
     JObj (map (\<lambda>k. (k, the (Envelope StatusText err k)))
       (sort (remdups (''error_code'' # map fst (Extra (fst (toAPIError StatusText err StyleTrap)))))))"

definition sharePermission :: "string \<Rightarrow> ('s, permission) op" where
  "sharePermission value =
     (let v = trim_space value
      in if v = ''read'' then returnM PermissionRead
         else if v = ''write'' then returnM PermissionWrite
         else if v = ''own'' then returnM PermissionOwn
         else schemaErrorM ''permission must be read, write or own'')"

definition shareRequest ::
    "('w, 'b) handler_deps \<Rightarrow> string \<Rightarrow> string \<Rightarrow> string \<Rightarrow> permission \<Rightarrow> share_request" where
  "shareRequest d user other path lvl =
     \<lparr>sr_owner = user, sr_sharee = other, sr_path = path, sr_permission = lvl, sr_admins = hd_AdminUsers d,
      sr_proxy = hd_ProxyUser d, sr_layout = hd_Layout d\<rparr>"

definition applyShare ::
    "('w, 'b) handler_deps \<Rightarrow> string \<Rightarrow> string \<Rightarrow> string \<Rightarrow> string \<Rightarrow> ('w env, string) op" where
  "applyShare d user sharee path permission =
     thenM (requireExistsAndOwned (hd_rods d) 1 0 user path)
       (bindM (sharePermission permission) (\<lambda>lvl.
          Share (scope_store (hd_rods d) 1) (shareRequest d user sharee path lvl)))"

definition applyUnshare ::
    "('w, 'b) handler_deps \<Rightarrow> string \<Rightarrow> string \<Rightarrow> string \<Rightarrow> ('w env, string) op" where
  "applyUnshare d user sharee path =
     thenM (requireExistsAndOwned (hd_rods d) 1 0 user path)
       (Unshare (scope_store (hd_rods d) 1) (shareRequest d user sharee path PermissionNone))"

definition not_a_user :: "string \<Rightarrow> gerror" where
  "not_a_user u = to_gerror (With ''user'' (JStr u) (New ErrNotAUser))"

text \<open>What became of one path: nothing is done for a user who is not known.\<close>

definition outcome_of ::
    "(int \<Rightarrow> string) \<Rightarrow> bool \<Rightarrow> string \<Rightarrow> string \<Rightarrow> string \<Rightarrow> ('s, string) op \<Rightarrow> ('s, shareOutcome) op" where
  "outcome_of StatusText known other path permission m =
     (let oc = \<lparr>oc_path = path, oc_permission = permission, oc_success = False, oc_reason = [], oc_error = None\<rparr>
      in if \<not> known then returnM (oc\<lparr>oc_error := Some (envelopeOf StatusText (not_a_user other))\<rparr>)
         else (\<lambda>s. case m s of
           (Inl err, s') \<Rightarrow> (Inr (oc\<lparr>oc_error := Some (envelopeOf StatusText err)\<rparr>), s')
         | (Inr reason, s') \<Rightarrow> (Inr (oc\<lparr>oc_success := True, oc_reason := reason\<rparr>), s')))"

definition shareWith ::
    "(int \<Rightarrow> string) \<Rightarrow> ('w, 'b) handler_deps \<Rightarrow> string \<Rightarrow> shareeEntry \<Rightarrow> ('w env, shareOutcome list) op" where
  "shareWith StatusText d user entry =
     bindM (UserExists (hd_rods d) 0 (se_user entry)) (\<lambda>known.
       mapM (\<lambda>(raw, permission). let path = trim_right raw in
         outcome_of StatusText known (se_user entry) path permission
           (applyShare d user (se_user entry) path permission)) (se_paths entry))"

definition unshareWith ::
    "(int \<Rightarrow> string) \<Rightarrow> ('w, 'b) handler_deps \<Rightarrow> string \<Rightarrow> unshareeEntry \<Rightarrow> ('w env, shareOutcome list) op" where
  "unshareWith StatusText d user entry =
     bindM (UserExists (hd_rods d) 0 (ue_user entry)) (\<lambda>known.
       mapM (\<lambda>raw. let path = trim_right raw in
         outcome_of StatusText known (ue_user entry) path []
           (applyUnshare d user (ue_user entry) path)) (ue_paths entry))"

definition countPaths :: "('e \<Rightarrow> nat) \<Rightarrow> 'e list \<Rightarrow> nat" where
  "countPaths pathCount entries = sum_list (map pathCount entries)"

definition outcomes_json :: "string \<Rightarrow> string \<Rightarrow> shareOutcome list \<Rightarrow> json" where
  "outcomes_json key user ocs = JObj [(''user'', JStr user), (key, JArr (map outcome_json ocs))]"

definition handle_Share ::
    "(int \<Rightarrow> string) \<Rightarrow> ('w, 'b) handler_deps \<Rightarrow> shareeEntry list request \<Rightarrow> (('w, 'b) server, json) op" where
  "handle_Share StatusText d rq =
     bindM (requireUser rq) (\<lambda>user.
     bindM (bindBody rq) (\<lambda>entries.
       with_scope d 0 user
         (thenM (on_env (requireKnownUser (hd_rods d) 0 user False))
         (thenM (CheckPathCount d (countPaths (\<lambda>e. length (se_paths e)) entries))
          (with_proxy d
            (bindM (mapM (\<lambda>entry. bindM (on_env (shareWith StatusText d user entry)) (\<lambda>ocs.
                       returnM (outcomes_json ''sharing'' (se_user entry) ocs))) entries) (\<lambda>results.
              returnM (JObj [(''sharing'', JArr results)]))))))))"

definition handle_Unshare ::
    "(int \<Rightarrow> string) \<Rightarrow> ('w, 'b) handler_deps \<Rightarrow> unshareeEntry list request \<Rightarrow> (('w, 'b) server, json) op" where
  "handle_Unshare StatusText d rq =
     bindM (requireUser rq) (\<lambda>user.
     bindM (bindBody rq) (\<lambda>entries.
       with_scope d 0 user
         (thenM (on_env (requireKnownUser (hd_rods d) 0 user False))
         (thenM (CheckPathCount d (countPaths (\<lambda>e. length (ue_paths e)) entries))
          (with_proxy d
            (bindM (mapM (\<lambda>entry. bindM (on_env (unshareWith StatusText d user entry)) (\<lambda>ocs.
                       returnM (outcomes_json ''unshare'' (ue_user entry) ocs))) entries) (\<lambda>results.
              returnM (JObj [(''unshare'', JArr results)]))))))))"

definition changePermission ::
    "('w, 'b) handler_deps \<Rightarrow> unit request \<Rightarrow> (string \<Rightarrow> string \<Rightarrow> string \<Rightarrow> ('w env, string) op) \<Rightarrow> string \<Rightarrow>
     (('w, 'b) server, json) op" where
  "changePermission d rq apply_change other =
     bindM (requireUser rq) (\<lambda>user.
       if blank other then schemaErrorM ''the user to change permissions for must be a non-blank string''
       else with_scope d 0 user
         (thenM (on_env (requireKnownUser (hd_rods d) 0 user False))
         (bindM (on_env (resolveID (hd_rods d) 0 (Param rq ''data-id''))) (\<lambda>found.
            let path = trim_right found in
            thenM (on_env (requireOwns (hd_rods d) 0 user path))
           (bindM (on_env (UserExists (hd_rods d) 0 other)) (\<lambda>known.
              if \<not> known then failM (not_a_user other)
              else with_proxy d
                (thenM (on_env (apply_change user other path))
                (bindM (on_env (ACL (hd_rods d) 0 path)) (\<lambda>acl.
                   returnM (JObj [(''user-permissions'', JArr (visiblePermissions d acl user))]))))))))))"

definition AddPermission :: "('w, 'b) handler_deps \<Rightarrow> unit request \<Rightarrow> (('w, 'b) server, json) op" where
  "AddPermission d rq =
     bindM (sharePermission (Param rq ''permission'')) (\<lambda>lvl.
       changePermission d rq (\<lambda>user other path.
         Share (scope_store (hd_rods d) 1) (shareRequest d user other path lvl)) (Param rq ''share-with''))"

definition RemovePermission :: "('w, 'b) handler_deps \<Rightarrow> unit request \<Rightarrow> (('w, 'b) server, json) op" where
  "RemovePermission d rq =
     changePermission d rq (\<lambda>user other path.
       Unshare (scope_store (hd_rods d) 1) (shareRequest d user other path PermissionNone)) (Param rq ''unshare-with'')"

definition Anonymize :: "('w, 'b) handler_deps \<Rightarrow> string list request \<Rightarrow> (('w, 'b) server, json) op" where
  "Anonymize d rq =
     bindM (requireUser rq) (\<lambda>user.
     bindM (bindBody rq) (\<lambda>paths.
     thenM (CheckPathCount d (length paths))
      (let requested = trimAll paths in with_scope d 0 user
        (thenM (on_env (requireKnownUser (hd_rods d) 0 user False))
         (with_proxy d
           (thenM (on_env (requireAllExist (hd_rods d) 1 requested))
           (thenM (on_env (requireAllAreFiles (hd_rods d) 1 requested))
           (thenM (on_env (requireOwnsAll (hd_rods d) 0 user requested))
           (thenM (on_env (forM (\<lambda>path. thenM (Share (scope_store (hd_rods d) 1)
                     (shareRequest d user (hd_AnonUser d) path PermissionRead)) (returnM ())) requested))
             (returnM (JObj [(''user'', JStr user),
                (''paths'', strings_map_json (map (\<lambda>p. (p, anonURL d p)) (remdups requested)))])))))))))))"

section \<open>groups.go\<close>

definition qualify :: "string \<Rightarrow> string \<Rightarrow> string" where
  "qualify name zone = (if List.member name CHR ''#'' then name else name @ ''#'' @ zone)"

text \<open>\<open>splitAccount\<close>: at the last \<open>#\<close>.\<close>

definition splitAccount :: "string \<Rightarrow> string \<Rightarrow> string \<times> string" where
  "splitAccount name defaultZone =
     (if List.member name CHR ''#''
      then (rev (tl (dropWhile (\<lambda>c. c \<noteq> CHR ''#'') (rev name))), rev (takeWhile (\<lambda>c. c \<noteq> CHR ''#'') (rev name)))
      else (name, defaultZone))"

definition with_group :: "string \<Rightarrow> api_error \<Rightarrow> api_error" where
  "with_group g = With ''group'' (JStr g)"

definition requireGroupAdmin :: "'w deps \<Rightarrow> nat \<Rightarrow> string \<Rightarrow> ('w env, unit) op" where
  "requireGroupAdmin deps h user =
     bindM (UserKind deps h user) (\<lambda>kind.
       if kind = UserKindAdmin \<or> kind = UserKindGroupAdmin then returnM ()
       else failM (to_gerror (New ErrForbidden)))"

definition requireGroupExists :: "'w deps \<Rightarrow> nat \<Rightarrow> string \<Rightarrow> ('w env, unit) op" where
  "requireGroupExists deps h name =
     bindM (GroupExists deps h name) (\<lambda>there.
       if \<not> there then failM (to_gerror (with_group name (New ErrDoesNotExist))) else returnM ())"

definition requireAllUsersExist :: "'w deps \<Rightarrow> nat \<Rightarrow> string list \<Rightarrow> ('w env, unit) op" where
  "requireAllUsersExist deps h users =
     bindM (foldM (\<lambda>missing user. bindM (UserExists deps h user) (\<lambda>known.
              returnM (if known then missing else missing @ [user]))) [] users) (\<lambda>missing.
       if missing \<noteq> [] then failM (to_gerror (With ''users'' (strings_json missing) (New ErrNotAUser)))
       else returnM ())"

definition groupResponse :: "string \<Rightarrow> string list \<Rightarrow> json" where
  "groupResponse name members = JObj [(''name'', JStr name), (''members'', strings_json members)]"

definition groups_respond :: "'w deps \<Rightarrow> nat \<Rightarrow> string \<Rightarrow> ('w env, json) op" where
  "groups_respond deps h name = bindM (GroupMembers deps h name) (\<lambda>members. returnM (groupResponse name members))"

text \<open>\<open>open\<close> and the deferred close; a caller who is not known has the scope closed too.\<close>

definition groups_open ::
    "('w, 'b) handler_deps \<Rightarrow> 'c request \<Rightarrow> (string \<Rightarrow> ('w env, 'a) op) \<Rightarrow> (('w, 'b) server, 'a) op" where
  "groups_open d rq body =
     bindM (requireUser rq) (\<lambda>user. with_scope d 0 user
       (thenM (on_env (requireKnownUser (hd_rods d) 0 user False)) (on_env (body user))))"

definition add_member :: "('w, 'b) handler_deps \<Rightarrow> string \<Rightarrow> string \<Rightarrow> ('w env, unit) op" where
  "add_member d name member' =
     (case splitAccount member' (Zone (hd_Layout d)) of (account, zone) \<Rightarrow>
        AddGroupMemberIn (hd_rods d) 0 name account zone)"

definition remove_member :: "('w, 'b) handler_deps \<Rightarrow> string \<Rightarrow> string \<Rightarrow> ('w env, unit) op" where
  "remove_member d name member' =
     (case splitAccount member' (Zone (hd_Layout d)) of (account, zone) \<Rightarrow>
        RemoveGroupMemberIn (hd_rods d) 0 name account zone)"

definition groups_Get :: "('w, 'b) handler_deps \<Rightarrow> unit request \<Rightarrow> (('w, 'b) server, json) op" where
  "groups_Get d rq = groups_open d rq (\<lambda>user. let name = Param rq ''group-name'' in
     thenM (requireGroupExists (hd_rods d) 0 name) (groups_respond (hd_rods d) 0 name))"

definition groups_Create ::
    "('w, 'b) handler_deps \<Rightarrow> (string \<times> string list) request \<Rightarrow> (('w, 'b) server, json) op" where
  "groups_Create d rq = groups_open d rq (\<lambda>user.
     bindM (bindBody rq) (\<lambda>(name, members).
       if blank name then schemaErrorM ''name must be a non-blank string''
       else thenM (requireGroupAdmin (hd_rods d) 0 user)
        (bindM (GroupExists (hd_rods d) 0 name) (\<lambda>there.
           if there then failM (to_gerror (with_group name (New ErrExists)))
           else thenM (requireAllUsersExist (hd_rods d) 0 members)
               (thenM (CreateGroup (hd_rods d) 0 name)
               (thenM (forM (add_member d name) members)
                  (groups_respond (hd_rods d) 0 name)))))))"

text \<open>\<open>Update\<close>; Go ranges over a map in any order, which \<open>arrange\<close> chooses.\<close>

definition desired_members :: "('w, 'b) handler_deps \<Rightarrow> string list \<Rightarrow> ('w env, string list) op" where
  "desired_members d members =
     foldM (\<lambda>desired member'. bindM (UserExists (hd_rods d) 0 member') (\<lambda>known.
       returnM (if known then List.insert (qualify member' (Zone (hd_Layout d))) desired else desired))) [] members"

definition held_members :: "('w, 'b) handler_deps \<Rightarrow> string list \<Rightarrow> string list" where
  "held_members d current = remdups (map (\<lambda>m. qualify m (Zone (hd_Layout d))) current)"

definition groups_Update ::
    "(string list \<Rightarrow> string list) \<Rightarrow> ('w, 'b) handler_deps \<Rightarrow> string list request \<Rightarrow> (('w, 'b) server, json) op" where
  "groups_Update arrange d rq = groups_open d rq (\<lambda>user.
     bindM (bindBody rq) (\<lambda>members. let name = Param rq ''group-name'' in
       thenM (requireGroupAdmin (hd_rods d) 0 user)
      (thenM (requireGroupExists (hd_rods d) 0 name)
      (bindM (GroupMembers (hd_rods d) 0 name) (\<lambda>current.
       bindM (desired_members d members) (\<lambda>desired.
       let held = held_members d current in
         thenM (forM (\<lambda>m. if List.member held m then returnM () else add_member d name m) (arrange desired))
        (thenM (forM (\<lambda>m. if List.member desired m then returnM () else remove_member d name m) (arrange held))
          (groups_respond (hd_rods d) 0 name))))))))"

definition groups_Delete :: "('w, 'b) handler_deps \<Rightarrow> unit request \<Rightarrow> (('w, 'b) server, json) op" where
  "groups_Delete d rq = groups_open d rq (\<lambda>user. let name = Param rq ''group-name'' in
     thenM (requireGroupAdmin (hd_rods d) 0 user)
    (bindM (GroupExists (hd_rods d) 0 name) (\<lambda>there.
     thenM (if there then DeleteGroup (hd_rods d) 0 name else returnM ())
       (returnM (JObj [(''name'', JStr name)])))))"

section \<open>Bulk sharing\<close>

lemma mapM_total:
  assumes "\<And>x s. \<exists>y s'. f x s = (Inr y, s') \<and> P x y"
  shows "\<exists>ys s'. mapM f xs s = (Inr ys, s') \<and> list_all2 P xs ys"
proof (induction xs arbitrary: s)
  case (Cons x xs)
  obtain y s1 where "f x s = (Inr y, s1)" "P x y" using assms by blast
  moreover obtain ys s2 where "mapM f xs s1 = (Inr ys, s2)" "list_all2 P xs ys" using Cons by blast
  ultimately show ?case by (simp add: bindM_def returnM_def)
qed (simp add: returnM_def)

lemma outcome_of_total:
  "\<exists>oc s'. outcome_of StatusText known other path permission m s = (Inr oc, s') \<and> oc_path oc = path \<and>
     oc_permission oc = permission \<and> oc_success oc = (oc_error oc = None) \<and>
     oc_success oc = (known \<and> \<not> isl (fst (m s))) \<and> s' = (if known then snd (m s) else s)"
  by (cases "m s"; cases "fst (m s)") (auto simp: outcome_of_def Let_def)


text \<open>A path the caller was seen to own, before anything changed.\<close>

definition seen_owned ::
    "'w deps \<Rightarrow> ('w \<Rightarrow> string \<Rightarrow> string \<Rightarrow> permission) \<Rightarrow> 'w env \<Rightarrow> string \<Rightarrow> bool" where
  "seen_owned deps level s path \<longleftrightarrow>
     (\<exists>t st. level (env_world t) = level (env_world s) \<and> fst (Stat deps 0 path t) = Inr st \<and>
        st_permission st = PermissionOwn)"

context irods_backend begin

lemma undisturbed_exists_and_owned: "keeps (undisturbed h) (requireExistsAndOwned deps adm k user path)"
  unfolding requireExistsAndOwned_def requireOwns_def
  by (intro keeps_intros preorder_undisturbed undisturbed_refusing_one)

lemma exists_and_owned_seen:
  assumes "requireExistsAndOwned deps 1 0 user path s = (Inr (), s')"
  shows "seen_owned deps level s path"
proof -
  obtain t where run: "refusing_one deps 1 path (\<lambda>st. \<not> st_exists st) (with_path path (New ErrDoesNotExist)) s = (Inr (), t)"
      "requireOwns deps 0 user path t = (Inr (), s')"
    using assms by (auto simp: requireExistsAndOwned_def thenM_eq_Inr)
  have "level (env_world t) = level (env_world s)"
    using keepsD [OF undisturbed_refusing_one run(1)] by (simp add: undisturbed_def)
  with run(2) show ?thesis
    by (auto simp: requireOwns_def refusing_one_def seen_owned_def bindM_eq_Inr split: if_splits intro!: exI [of _ t])
qed

lemma guarded_change_seen:
  assumes "thenM (requireExistsAndOwned deps 1 0 user path) m s = (r, s')"
    and "level (env_world s') \<noteq> level (env_world s)"
  shows "seen_owned deps level s path \<and> (\<exists>t. level (env_world t) = level (env_world s) \<and> m t = (r, s'))"
proof -
  obtain q t where check: "requireExistsAndOwned deps 1 0 user path s = (q, t)" by fastforce
  then have same: "level (env_world t) = level (env_world s)"
    using keepsD [OF undisturbed_exists_and_owned] by (fastforce simp: undisturbed_def)
  with assms check have "q = Inr ()" "m t = (r, s')"
    by (cases q; auto simp: thenM_def bindM_def)+
  with check same exists_and_owned_seen show ?thesis by blast
qed

end

lemma sharePermission_cases:
  "sharePermission value s = (r, s') \<Longrightarrow> s' = s \<and> (case r of Inl _ \<Rightarrow> True | Inr lvl \<Rightarrow> lvl \<noteq> PermissionNone)"
  by (auto simp: sharePermission_def Let_def schemaErrorM_def split: if_splits)


definition sample_owner :: "(mem_world, unit) handler_deps" where
  "sample_owner =
     \<lparr>hd_rods = mem_deps, hd_Layout = sample_layout, hd_MaxPathsInRequest = 10, hd_PermsFilter = [],
      hd_BadChars = [], hd_ProxyUser = ''r'', hd_Tasks = None, hd_Creator = None, hd_Worker = False,
      hd_InstanceID = [], hd_AdminUsers = [], hd_AnonUser = ''n'', hd_AnonBaseURL = [], hd_AnonMappings = [],
      hd_KifshareURL = [], hd_KifshareTemplate = []\<rparr>"

definition sample_world :: mem_world where
  "sample_world =
     \<lparr>mw_acls = [(''/z'', [(''a'', PermissionOwn), (''b'', PermissionRead)])], mw_inherits = [],
      mw_avus = [], mw_tickets = []\<rparr>"

text \<open>The caller and the service account have both looked at the collection before.\<close>

definition sample_scope :: scope where
  "sample_scope = (empty_scope ''a'')\<lparr>sc_sess := Some \<lparr>sess_user = ''a'', sess_poisoned = False\<rparr>,
     sc_items := [''/z'' \<mapsto> Inr (mem_row sample_world ''a'' ''/z'')],
     sc_acls := [''/z'' \<mapsto> Inr (aclOf (mem_perms sample_world ''/z''))]\<rparr>"

definition sample_shared :: "mem_world env" where
  "sample_shared = \<lparr>env_world = sample_world, env_scopes = (\<lambda>_. sample_scope)\<rparr>"

definition sample_unshare :: "(gerror + string) \<times> mem_world env" where
  "sample_unshare = applyUnshare sample_owner ''a'' ''b'' ''/z'' sample_shared"


section \<open>Accounts\<close>

text \<open>A qualified name is the account and the zone it splits into, and qualifying changes neither.\<close>

lemma splitAccount_append: "\<not> List.member z CHR ''#'' \<Longrightarrow> splitAccount (a @ ''#'' @ z) zone = (a, z)"
  by (auto simp: splitAccount_def dropWhile_append takeWhile_append dropWhile_eq_Nil_conv)

lemma qualify_split: "case splitAccount m zone of (a, z) \<Rightarrow> a @ ''#'' @ z = qualify m zone"
proof (cases "List.member m CHR ''#''")
  case True
  then obtain a z where "m = a @ CHR ''#'' # z" "CHR ''#'' \<notin> set z"
    by (auto dest: split_list_last)
  with True show ?thesis
    using splitAccount_append [of z a zone] by (simp add: qualify_def)
qed (simp add: splitAccount_def qualify_def)

lemma splitAccount_qualify:
  "\<not> List.member zone CHR ''#'' \<Longrightarrow> splitAccount (qualify m zone) zone = splitAccount m zone"
  using splitAccount_append [of zone m zone] by (auto simp: qualify_def splitAccount_def)

end
