(* ===== verification/MetaHandlers.thy ===== *)
theory MetaHandlers
  imports ReadHandlers
begin

text \<open>
  The endpoints for metadata and for tickets (\<open>internal/handlers\<close>: \<open>avus.go\<close>, \<open>tickets.go\<close>).  The
  metadata service keeps the template AVUs: its four operations (\<open>clients/metadata\<close>) are a parameter
  over the state of the services outside the data store.  A change's body is the members of its JSON
  object.
\<close>

record 'b metadata_client =
  mc_ListAVUs :: "string \<Rightarrow> string \<Rightarrow> string \<Rightarrow> ('b, (string \<times> json) list) op"
  mc_UpdateAVUs :: "string \<Rightarrow> string \<Rightarrow> string \<Rightarrow> (string \<times> json) list \<Rightarrow> ('b, unit) op"
  mc_SetAVUs :: "string \<Rightarrow> string \<Rightarrow> string \<Rightarrow> (string \<times> json) list \<Rightarrow> ('b, unit) op"
  mc_CopyAVUs :: "string \<Rightarrow> string \<Rightarrow> string \<Rightarrow> (string \<times> string) list \<Rightarrow> ('b, unit) op"

section \<open>avus.go\<close>

definition avu_json :: "api_avu \<Rightarrow> json" where
  "avu_json a = JObj [(''attr'', JStr (aa_attr a)), (''value'', JStr (aa_value a)), (''unit'', JStr (aa_unit a))]"

record avuChangeRequest =
  ac_IRODSAVUs :: "api_avu list"
  ac_Rest :: "(string \<times> json) list"

definition string_member :: "(string \<times> json) list \<Rightarrow> string \<Rightarrow> string option" where
  "string_member object key = Option.bind (obj_get object key) as_string"

definition avu_of_item :: "json \<Rightarrow> gerror + api_avu" where
  "avu_of_item entry =
     (case entry of
        JObj object \<Rightarrow>
          (case string_member object ''attr'' of
             None \<Rightarrow> Inl (to_gerror (schemaError ''each entry of irods-avus needs a non-blank attr''))
           | Some attribute \<Rightarrow>
               if blank attribute then Inl (to_gerror (schemaError ''each entry of irods-avus needs a non-blank attr''))
               else (case (string_member object ''value'', string_member object ''unit'') of
                 (Some value, Some unit) \<Rightarrow> Inr \<lparr>aa_attr = attribute, aa_value = value, aa_unit = unit\<rparr>
               | _ \<Rightarrow> Inl (to_gerror (schemaError ''each entry of irods-avus needs a string value and unit''))))
      | _ \<Rightarrow> Inl (to_gerror (schemaError ''each entry of irods-avus must be an object'')))"

definition bindAVUChange :: "(string \<times> json) list request \<Rightarrow> bool \<Rightarrow> ('s, avuChangeRequest) op" where
  "bindAVUChange rq avusRequired =
     bindM (bindBody rq) (\<lambda>raw.
       let rest = filter (\<lambda>(k, v). k \<noteq> ''irods-avus'') (obj_entries raw) in
       case obj_get raw ''irods-avus'' of
         None \<Rightarrow> if avusRequired then schemaErrorM ''irods-avus is required''
                 else returnM \<lparr>ac_IRODSAVUs = [], ac_Rest = rest\<rparr>
       | Some JNull \<Rightarrow> returnM \<lparr>ac_IRODSAVUs = [], ac_Rest = rest\<rparr>
       | Some (JArr items) \<Rightarrow>
           bindM (ofM (traverse avu_of_item items)) (\<lambda>avus. returnM \<lparr>ac_IRODSAVUs = avus, ac_Rest = rest\<rparr>)
       | Some _ \<Rightarrow> schemaErrorM ''irods-avus must be a list'')"

definition requireNoReservedAVUs :: "api_avu list \<Rightarrow> ('s, unit) op" where
  "requireNoReservedAVUs avus =
     (if list_ex (\<lambda>a. IsReservedAVU (aa_attr a)) avus
      then failM (to_gerror (With ''avus'' (JArr (map avu_json avus)) (New ErrNotAuthorized)))
      else returnM ())"

definition readableItem :: "'w deps \<Rightarrow> nat \<Rightarrow> string \<Rightarrow> string \<Rightarrow> ('w env, stat) op" where
  "readableItem deps h user i =
     bindM (resolveID deps h i) (\<lambda>path.
     bindM (Stat deps h (trim_right path)) (\<lambda>st.
       if \<not> Permits (st_permission st) PermissionRead
       then failM (to_gerror (With ''user'' (JStr user) (with_path (st_path st) (New ErrNotReadable))))
       else returnM st))"

text \<open>\<open>proxyUser\<close>, the account of the administrative routes.\<close>

definition proxyUser :: "('w, 'b) handler_deps \<Rightarrow> 'c request \<Rightarrow> ('s, string) op" where
  "proxyUser d rq = returnM (hd_ProxyUser d)"

definition obj_put :: "string \<Rightarrow> json \<Rightarrow> (string \<times> json) list \<Rightarrow> (string \<times> json) list" where
  "obj_put k v obj = (k, v) # filter (\<lambda>(k', _). k' \<noteq> k) obj"

definition avus_get ::
    "('w, 'b) handler_deps \<Rightarrow> 'b metadata_client \<Rightarrow> unit request \<Rightarrow> (('w, 'b) server, string) op \<Rightarrow> bool \<Rightarrow>
     (('w, 'b) server, json) op" where
  "avus_get d mc rq whom includeReserved =
     bindM whom (\<lambda>user. with_scope d 0 user
       (thenM (on_env (requireKnownUser (hd_rods d) 0 user False))
       (bindM (on_env (readableItem (hd_rods d) 0 user (Param rq ''data-id''))) (\<lambda>st.
        bindM (on_env (AVUs (hd_rods d) 0 (st_path st))) (\<lambda>avus.
        bindM (on_board (mc_ListAVUs mc user (MetadataTargetType (st_type st)) (Param rq ''data-id''))) (\<lambda>out.
          returnM (JObj (obj_put ''path'' (JStr (st_path st))
            (obj_put ''irods-avus'' (JArr (map avu_json (VisibleAVUs avus includeReserved))) out)))))))))"

definition avus_Get ::
    "('w, 'b) handler_deps \<Rightarrow> 'b metadata_client \<Rightarrow> unit request \<Rightarrow> (('w, 'b) server, json) op" where
  "avus_Get d mc rq = avus_get d mc rq (requireUser rq) False"

definition AdminGet ::
    "('w, 'b) handler_deps \<Rightarrow> 'b metadata_client \<Rightarrow> unit request \<Rightarrow> (('w, 'b) server, json) op" where
  "AdminGet d mc rq = avus_get d mc rq (proxyUser d rq) True"

definition avuChangeResponse :: "string \<Rightarrow> string \<Rightarrow> json" where
  "avuChangeResponse path user = JObj [(''path'', JStr path), (''user'', JStr user)]"

definition add_avus :: "('w, 'b) handler_deps \<Rightarrow> string \<Rightarrow> api_avu list \<Rightarrow> ('w env, unit) op" where
  "add_avus d path avus = forM (\<lambda>a. AddAVUIfAbsent (hd_rods d) 0 path (StoredAVU a)) avus"

definition avus_add ::
    "('w, 'b) handler_deps \<Rightarrow> 'b metadata_client \<Rightarrow> (string \<times> json) list request \<Rightarrow> (('w, 'b) server, string) op \<Rightarrow>
     bool \<Rightarrow> (('w, 'b) server, json) op" where
  "avus_add d mc rq whom allowReserved =
     bindM whom (\<lambda>user.
     bindM (bindAVUChange rq False) (\<lambda>body. with_scope d 0 user
       (thenM (on_env (requireKnownUser (hd_rods d) 0 user False))
       (bindM (on_env (readableItem (hd_rods d) 0 user (Param rq ''data-id''))) (\<lambda>st.
        thenM (on_env (requireWriteable (hd_rods d) 0 (st_path st)))
       (thenM (if allowReserved then returnM () else requireNoReservedAVUs (ac_IRODSAVUs body))
       (thenM (if ac_Rest body = [] then returnM ()
               else on_board (mc_UpdateAVUs mc user (MetadataTargetType (st_type st)) (Param rq ''data-id'') (ac_Rest body)))
       (thenM (on_env (add_avus d (st_path st) (ac_IRODSAVUs body)))
         (returnM (avuChangeResponse (st_path st) user))))))))))"

definition avus_Add ::
    "('w, 'b) handler_deps \<Rightarrow> 'b metadata_client \<Rightarrow> (string \<times> json) list request \<Rightarrow> (('w, 'b) server, json) op" where
  "avus_Add d mc rq = avus_add d mc rq (requireUser rq) False"

definition AdminAdd ::
    "('w, 'b) handler_deps \<Rightarrow> 'b metadata_client \<Rightarrow> (string \<times> json) list request \<Rightarrow> (('w, 'b) server, json) op" where
  "AdminAdd d mc rq = avus_add d mc rq (proxyUser d rq) True"

text \<open>The removals of \<open>Set\<close>, then its additions.\<close>

definition replace_avus ::
    "('w, 'b) handler_deps \<Rightarrow> string \<Rightarrow> avu list \<Rightarrow> api_avu list \<Rightarrow> ('w env, unit) op" where
  "replace_avus d path held wanted =
     thenM (forM (\<lambda>a. if List.member wanted a then returnM ()
                      else DeleteAVU (hd_rods d) 0 path (StoredAVU a)) (VisibleAVUs held False))
       (add_avus d path wanted)"

definition avus_Set ::
    "('w, 'b) handler_deps \<Rightarrow> 'b metadata_client \<Rightarrow> (string \<times> json) list request \<Rightarrow> (('w, 'b) server, json) op" where
  "avus_Set d mc rq =
     bindM (requireUser rq) (\<lambda>user.
     bindM (bindAVUChange rq True) (\<lambda>body. with_scope d 0 user
       (thenM (on_env (requireKnownUser (hd_rods d) 0 user False))
       (bindM (on_env (readableItem (hd_rods d) 0 user (Param rq ''data-id''))) (\<lambda>st.
        thenM (on_env (requireWriteable (hd_rods d) 0 (st_path st)))
       (thenM (requireNoReservedAVUs (ac_IRODSAVUs body))
       (bindM (on_env (AVUs (hd_rods d) 0 (st_path st))) (\<lambda>held.
        thenM (on_board (mc_SetAVUs mc user (MetadataTargetType (st_type st)) (Param rq ''data-id'') (ac_Rest body)))
       (thenM (on_env (replace_avus d (st_path st) held (ac_IRODSAVUs body)))
         (returnM (avuChangeResponse (st_path st) user)))))))))))"

definition copy_target :: "'w deps \<Rightarrow> string \<Rightarrow> ('w env, string \<times> stat) op" where
  "copy_target deps i =
     bindM (resolveID deps 0 i) (\<lambda>path. bindM (Stat deps 0 path) (\<lambda>st. returnM (i, st)))"

definition avus_Copy ::
    "('w, 'b) handler_deps \<Rightarrow> 'b metadata_client \<Rightarrow> string list request \<Rightarrow> (('w, 'b) server, json) op" where
  "avus_Copy d mc rq =
     bindM (requireUser rq) (\<lambda>user.
     bindM (bindBody rq) (\<lambda>ids.
     thenM (CheckPathCount d (length ids)) (with_scope d 0 user
       (thenM (on_env (requireKnownUser (hd_rods d) 0 user False))
       (bindM (on_env (readableItem (hd_rods d) 0 user (Param rq ''data-id''))) (\<lambda>source.
        bindM (on_env (mapM (copy_target (hd_rods d)) ids)) (\<lambda>targets.
        let paths = map (\<lambda>(i, st). st_path st) targets in
        thenM (on_env (requireAllWriteable (hd_rods d) 0 paths))
       (bindM (on_env (AVUs (hd_rods d) 0 (st_path source))) (\<lambda>sourceAVUs.
        thenM (on_board (mc_CopyAVUs mc user (MetadataTargetType (st_type source)) (Param rq ''data-id'')
                 (map (\<lambda>(i, st). (i, MetadataTargetType (st_type st))) targets)))
       (thenM (on_env (forM (\<lambda>path. add_avus d path (VisibleAVUs sourceAVUs False)) paths))
         (returnM (JObj [(''user'', JStr user), (''src'', JStr (st_path source)), (''paths'', strings_json paths)]))))))))))))"

section \<open>tickets.go\<close>

definition ticketModeRead :: string where "ticketModeRead = ''read''"
definition ticketModeWrite :: string where "ticketModeWrite = ''write''"

definition ticketMode :: "'b request \<Rightarrow> ('s, string) op" where
  "ticketMode rq =
     (let mode = trim_space (QueryParam rq ''mode'')
      in if mode = [] then returnM ticketModeRead
         else if mode = ticketModeRead \<or> mode = ticketModeWrite then returnM mode
         else schemaErrorM ''mode must be read or write'')"

definition optionalInt :: "'b request \<Rightarrow> string \<Rightarrow> ('s, int option) op" where
  "optionalInt rq name =
     (let raw = trim_space (QueryParam rq name)
      in if raw = [] then returnM None
         else case parse_int64 raw of
           None \<Rightarrow> schemaErrorM (name @ '' must be a whole number'')
         | Some value \<Rightarrow> returnM (Some value))"

definition ticketLimits :: "'b request \<Rightarrow> ('s, int option \<times> int option) op" where
  "ticketLimits rq =
     bindM (optionalInt rq ''uses-limit'') (\<lambda>uses.
     bindM (optionalInt rq ''file-write-limit'') (\<lambda>fileWrite. returnM (uses, fileWrite)))"

text \<open>\<open>renderTemplate\<close>: a slot is two braces, text without a closing brace, and two closing braces; the
  pattern's leftmost matches are replaced.\<close>

definition slot_at :: "string \<Rightarrow> (string \<times> string) option" where
  "slot_at s =
     (if \<not> has_prefix s ''{{'' then None
      else let key = takeWhile (\<lambda>c. c \<noteq> CHR ''}'') (drop 2 s); rest = dropWhile (\<lambda>c. c \<noteq> CHR ''}'') (drop 2 s)
        in if key \<noteq> [] \<and> has_prefix rest ''}}'' then Some (key, drop 2 rest) else None)"

lemma slot_at_length: "slot_at s = Some (key, rest) \<Longrightarrow> length rest < length s"
  using length_dropWhile_le [of "\<lambda>c. c \<noteq> CHR ''}''" "drop 2 s"]
  by (cases s) (auto simp: slot_at_def Let_def split: if_splits)

function renderTemplate :: "string \<Rightarrow> (string \<times> string) list \<Rightarrow> string" where
  "renderTemplate template values =
     (case template of
        [] \<Rightarrow> []
      | c # cs \<Rightarrow>
          (case slot_at template of
             None \<Rightarrow> c # renderTemplate cs values
           | Some (key, rest) \<Rightarrow>
               (case map_of values key of Some value \<Rightarrow> value | None \<Rightarrow> ''{{'' @ key @ ''}}'') @
               renderTemplate rest values))"
  by pat_completeness auto
termination
  by (relation "measure (\<lambda>(t, vs). length t)") (auto dest: slot_at_length)

declare renderTemplate.simps [simp del]

record ticketView =
  tv_Path :: string
  tv_TicketID :: string
  tv_DownloadURL :: string
  tv_DownloadPageURL :: string

definition viewOf :: "('w, 'b) handler_deps \<Rightarrow> string \<Rightarrow> string \<Rightarrow> ticketView" where
  "viewOf d name path =
     (let base = trim_right (hd_KifshareURL d) in
      \<lparr>tv_Path = path, tv_TicketID = name,
       tv_DownloadURL = renderTemplate (hd_KifshareTemplate d)
         [(''url'', base), (''ticket-id'', name), (''filename'', Base path)],
       tv_DownloadPageURL = base @ ''/'' @ name\<rparr>)"

definition view_json :: "ticketView \<Rightarrow> json" where
  "view_json v = JObj [(''path'', JStr (tv_Path v)), (''ticket-id'', JStr (tv_TicketID v)),
     (''download-url'', JStr (tv_DownloadURL v)), (''download-page-url'', JStr (tv_DownloadPageURL v))]"

text \<open>The text of a UUID is ASCII.\<close>

definition upper_ascii :: "string \<Rightarrow> string" where
  "upper_ascii s = map (\<lambda>c. if in_range 97 122 (of_char c) then char_of ((of_char c :: nat) - 32) else c) s"

definition removeAfterFailure :: "'w deps \<Rightarrow> nat \<Rightarrow> string \<Rightarrow> ('w env, unit) op" where
  "removeAfterFailure deps h name = (\<lambda>s. (Inr (), snd (DeleteTicket deps h name s)))"

definition or_remove :: "'w deps \<Rightarrow> nat \<Rightarrow> string \<Rightarrow> ('w env, unit) op \<Rightarrow> ('w env, unit) op" where
  "or_remove deps h name m = (\<lambda>s. case m s of
     (Inl err, s') \<Rightarrow> thenM (removeAfterFailure deps h name) (failM err) s'
   | (Inr _, s') \<Rightarrow> (Inr (), s'))"

definition ticket_create ::
    "('w, 'b) handler_deps \<Rightarrow> nat \<Rightarrow> string \<Rightarrow> string \<Rightarrow> string \<Rightarrow> bool \<Rightarrow> int option \<times> int option \<Rightarrow>
     ('w env, ticketView) op" where
  "ticket_create d h uuid path mode public limits =
     (let name = upper_ascii uuid in
      thenM (CreateTicket (hd_rods d) h name mode path)
     (thenM (or_remove (hd_rods d) h name (SetTicketLimits (hd_rods d) h name (fst limits) (snd limits)))
     (thenM (if public then or_remove (hd_rods d) h name (PublicizeTicket (hd_rods d) h name) else returnM ())
       (returnM (viewOf d name path)))))"

text \<open>\<open>Add\<close>; \<open>uuid\<close> is the source of identifiers.\<close>

definition tickets_Add ::
    "(nat \<Rightarrow> string) \<Rightarrow> ('w, 'b) handler_deps \<Rightarrow> string list request \<Rightarrow> (('w, 'b) server, json) op" where
  "tickets_Add uuid d rq =
     bindM (requireUser rq) (\<lambda>user.
     bindM (ticketMode rq) (\<lambda>mode.
     bindM (boolParam rq ''for-job'') (\<lambda>forJob.
     bindM (boolParam rq ''public'') (\<lambda>public.
     bindM (ticketLimits rq) (\<lambda>limits.
     bindM (bindBody rq) (\<lambda>paths.
     thenM (CheckPathCount d (length paths))
      (let requested = trimAll paths in with_scope d 0 user
        (thenM (on_env (requireKnownUser (hd_rods d) 0 user False))
         (with_proxy d (on_env
           (thenM (requireAllExist (hd_rods d) 1 requested)
           (thenM (if forJob \<and> mode = ticketModeRead then requireAllReadable (hd_rods d) 0 requested
                   else requireAllWriteable (hd_rods d) 0 requested)
           (bindM (mapM (\<lambda>(i, path). ticket_create d 1 (uuid i) path mode public limits)
                     (zip [0..<length requested] requested)) (\<lambda>views.
             returnM (JObj [(''user'', JStr user), (''tickets'', JArr (map view_json views))])))))))))))))))"

definition tickets_List :: "('w, 'b) handler_deps \<Rightarrow> string list request \<Rightarrow> (('w, 'b) server, json) op" where
  "tickets_List d rq =
     bindM (requireUser rq) (\<lambda>user.
     bindM (bindBody rq) (\<lambda>paths.
     thenM (CheckPathCount d (length paths))
      (let requested = trimAll paths in with_scope d 0 user
        (thenM (on_env (requireKnownUser (hd_rods d) 0 user False))
         (with_proxy d (on_env
           (thenM (requireAllExist (hd_rods d) 1 requested)
           (thenM (requireAllReadable (hd_rods d) 0 requested)
           (bindM (foldM (\<lambda>out path. bindM (TicketsForPath (hd_rods d) 1 path) (\<lambda>tickets.
                     returnM (assoc_set path (JArr (map (\<lambda>t. view_json (viewOf d (ticket_name t) (ticket_path t))) tickets)) out)))
                   [] requested) (\<lambda>out.
             returnM (JObj [(''tickets'', JObj out)])))))))))))"

definition find_tickets :: "'w deps \<Rightarrow> string list \<Rightarrow> ('w env, string list \<times> string list) op" where
  "find_tickets deps names =
     foldM (\<lambda>(covered, missing) name. bindM (GetTicket deps 1 name) (\<lambda>found.
       returnM (case found of
         None \<Rightarrow> (covered, missing @ [name])
       | Some t \<Rightarrow> (covered @ [ticket_path t], missing)))) ([], []) names"

definition tickets_Delete :: "('w, 'b) handler_deps \<Rightarrow> string list option request \<Rightarrow> (('w, 'b) server, json) op" where
  "tickets_Delete d rq =
     bindM (requireUser rq) (\<lambda>user.
     bindM (boolParam rq ''for-job'') (\<lambda>forJob.
     bindM (bindBody rq) (\<lambda>body.
       let names = (case body of None \<Rightarrow> [] | Some ns \<Rightarrow> ns) in with_scope d 0 user
        (thenM (on_env (requireKnownUser (hd_rods d) 0 user False))
         (with_proxy d (on_env
           (bindM (find_tickets (hd_rods d) names) (\<lambda>(covered, missing).
            if missing \<noteq> [] then failM (to_gerror (With ''ticket-ids'' (strings_json missing) (New ErrTicketDoesNotExist)))
            else thenM (if forJob then requireAllReadable (hd_rods d) 0 covered
                        else requireAllWriteable (hd_rods d) 0 covered)
                (thenM (forM (DeleteTicket (hd_rods d) 1) names)
                  (returnM (JObj [(''user'', JStr user),
                     (''tickets'', case body of None \<Rightarrow> JNull | Some ns \<Rightarrow> strings_json ns)])))))))))))"

section \<open>What they keep to\<close>

text \<open>\<open>Set\<close> removes no AVU of the service's own, and adds none.\<close>

lemma visible_not_reserved: "a \<in> set (VisibleAVUs held False) \<Longrightarrow> \<not> IsReservedAVU (avu_attribute (StoredAVU a))"
  by (auto simp: VisibleAVUs_def VisibleAVU_def StoredAVU_def)

lemma checked_not_reserved:
  "requireNoReservedAVUs avus s = (Inr u, s') \<Longrightarrow> a \<in> set avus \<Longrightarrow> \<not> IsReservedAVU (avu_attribute (StoredAVU a))"
  by (auto simp: requireNoReservedAVUs_def StoredAVU_def list_ex_iff split: if_splits)

text \<open>A ticket that could not be given its limits is deleted before the failure is reported.\<close>

lemma or_remove_failed:
  "or_remove deps h name m s = (Inl e, s') \<Longrightarrow> \<exists>t. s' = snd (DeleteTicket deps h name t)"
  by (cases "m s"; cases "fst (m s)") (auto simp: or_remove_def removeAfterFailure_def thenM_def)

lemma unfinished_ticket_removed:
  assumes "ticket_create d h uuid path mode public limits s = (Inl e, s')"
    and created: "CreateTicket (hd_rods d) h (upper_ascii uuid) mode path s = (Inr (), s1)"
  shows "\<exists>t. s' = snd (DeleteTicket (hd_rods d) h (upper_ascii uuid) t)"
proof -
  let ?limit = "or_remove (hd_rods d) h (upper_ascii uuid)
      (SetTicketLimits (hd_rods d) h (upper_ascii uuid) (fst limits) (snd limits))"
  obtain q s2 where q: "?limit s1 = (q, s2)" by fastforce
  show ?thesis
  proof (cases q)
    case (Inl e')
    with assms q have "s' = s2"
      by (simp add: ticket_create_def Let_def thenM_def)
    with Inl q or_remove_failed show ?thesis by blast
  next
    case (Inr u)
    with assms q have "bindM (if public then or_remove (hd_rods d) h (upper_ascii uuid)
        (PublicizeTicket (hd_rods d) h (upper_ascii uuid)) else returnM ())
        (\<lambda>_. returnM (viewOf d (upper_ascii uuid) path)) s2 = (Inl e, s')"
      by (simp add: ticket_create_def Let_def thenM_def)
    then show ?thesis
      using or_remove_failed by (fastforce simp: bindM_eq_Inl split: if_splits)
  qed
qed

text \<open>A template without a slot is its own rendering.\<close>

lemma renderTemplate_plain:
  assumes "CHR ''{'' \<notin> set template"
  shows "renderTemplate template values = template"
  using assms
proof (induction template)
  case (Cons c cs)
  then have "slot_at (c # cs) = None"
    by (auto simp: slot_at_def)
  with Cons show ?case
    by (subst renderTemplate.simps) simp
qed (subst renderTemplate.simps, simp)

end
