(* ===== verification/PathLists.thy ===== *)
theory PathLists
  imports ReadHandlers
begin

text \<open>
  Path lists (\<open>internal/service/pathlists.go\<close>, \<open>internal/handlers/pathlists.go\<close>): a file that names what
  a selection contains.  Regular expressions are Go's: compiling one is a parameter, its matcher a
  predicate on names.  A recursive walk over a catalog that never stops answering with folders does
  not return.
\<close>

section \<open>service/pathlists.go\<close>

record pathListQuery =
  pq_FileIdentifier :: string
  pq_NamePattern :: string
  pq_InfoTypes :: "string list"
  pq_IncludeUnknown :: bool
  pq_FoldersOnly :: bool
  pq_Recursive :: bool

record pathListEntry =
  pe_Path :: string
  pe_Label :: string
  pe_Type :: object_type
  pe_InfoType :: string
  pe_Permission :: permission

definition ErrNoMatchingPaths :: gerror where
  "ErrNoMatchingPaths = Plain ''no paths matched the request''"

definition compilePattern ::
    "(string \<Rightarrow> gerror + (string \<Rightarrow> bool)) \<Rightarrow> string \<Rightarrow> gerror + (string \<Rightarrow> bool) option" where
  "compilePattern Compile pattern =
     (if trim_space pattern = [] then Inr None
      else case Compile pattern of
        Inl err \<Rightarrow> Inl (Wrap ''the name pattern is not a valid regular expression'' err)
      | Inr matcher \<Rightarrow> Inr (Some matcher))"

definition keepEntry :: "pathListEntry \<Rightarrow> pathListQuery \<Rightarrow> (string \<Rightarrow> bool) option \<Rightarrow> bool" where
  "keepEntry entry q pattern =
     (if pe_Permission entry = PermissionNone then False
      else if (case pattern of Some matches \<Rightarrow> \<not> matches (pe_Label entry) | None \<Rightarrow> False) then False
      else if pe_Type entry = ObjectTypeDir then pq_FoldersOnly q
      else \<not> pq_FoldersOnly q)"

definition BuildPathList ::
    "(string \<Rightarrow> gerror + (string \<Rightarrow> bool)) \<Rightarrow> pathListEntry list \<Rightarrow> pathListQuery \<Rightarrow> gerror + string" where
  "BuildPathList Compile entries q =
     (case compilePattern Compile (pq_NamePattern q) of
        Inl err \<Rightarrow> Inl err
      | Inr pattern \<Rightarrow>
          let kept = map pe_Path (filter (\<lambda>e. keepEntry e q pattern) entries) in
            if kept = [] then Inl ErrNoMatchingPaths
            else Inr (join_with [CHR 0x0A] (pq_FileIdentifier q # kept)))"

definition KeepInfoType :: "string \<Rightarrow> string list \<Rightarrow> bool" where
  "KeepInfoType infoType wanted \<longleftrightarrow> wanted = [] \<or> List.member wanted infoType"

definition ListingEntityType :: "bool \<Rightarrow> bool \<Rightarrow> entity_type" where
  "ListingEntityType recursive foldersOnly =
     (if recursive \<and> \<not> foldersOnly then EntityAny else if foldersOnly then EntityFolder else EntityFile)"

section \<open>handlers/pathlists.go\<close>

text \<open>\<open>PathListSettings\<close> of \<open>deps.go\<close>, and the configured attribute for info types.\<close>

record pathListSettings =
  ps_HTIdentifier :: string
  ps_HTInfoType :: string
  ps_MultiInputIdentifier :: string
  ps_MultiInputInfoType :: string
  ps_InfoTypeAttribute :: string

definition fileIdentifier :: "pathListSettings \<Rightarrow> string \<Rightarrow> ('s, string) op" where
  "fileIdentifier st listType =
     (if listType = ps_HTInfoType st then returnM (ps_HTIdentifier st)
      else if listType = ps_MultiInputInfoType st then returnM (ps_MultiInputIdentifier st)
      else schemaErrorM (''path-list-info-type must be '' @ ps_HTInfoType st @ '' or '' @ ps_MultiInputInfoType st))"

definition entryOf :: "stat \<Rightarrow> pathListEntry" where
  "entryOf st =
     \<lparr>pe_Path = st_path st, pe_Label = Base (st_path st), pe_Type = st_type st, pe_InfoType = st_info_type st,
      pe_Permission = st_permission st\<rparr>"

definition entry_of_row :: "row \<Rightarrow> pathListEntry" where
  "entry_of_row r =
     \<lparr>pe_Path = row_full_path r, pe_Label = row_base_name r,
      pe_Type = (if IsCollection r then ObjectTypeDir else ObjectTypeFile),
      pe_InfoType = null_string (row_info_type r), pe_Permission = row_permission r\<rparr>"

definition validate_list :: "('w, 'b) handler_deps \<Rightarrow> string \<Rightarrow> string \<Rightarrow> string list \<Rightarrow> ('w env, unit) op" where
  "validate_list d user dest requested =
     (let destDir = Dir dest in
      thenM (requireAllExist (hd_rods d) 0 [destDir])
     (thenM (requireAllWriteable (hd_rods d) 0 [destDir])
     (thenM (requireNoneExist (hd_rods d) 0 [dest])
     (thenM (requireAllExist (hd_rods d) 0 requested)
       (case find (IsBasePath (hd_Layout d) user) requested of
          Some path \<Rightarrow> failM (to_gerror (with_path path (New ErrBadOrMissingField)))
        | None \<Rightarrow> returnM ())))))"

definition walk_query :: "('w, 'b) handler_deps \<Rightarrow> pathListSettings \<Rightarrow> string \<Rightarrow> string \<Rightarrow> pathListQuery \<Rightarrow> listing_query" where
  "walk_query d st user path q =
     \<lparr>lq_path = path, lq_user = user, lq_zone = Zone (hd_Layout d), lq_groups = [], lq_info_types = pq_InfoTypes q,
      lq_include_unknown = pq_IncludeUnknown q,
      lq_entity = Some (ListingEntityType (pq_Recursive q) (pq_FoldersOnly q)),
      lq_attribute = ps_InfoTypeAttribute st, lq_column = ''full_path'', lq_direction = SortAscending,
      lq_limit = - 1, lq_offset = 0\<rparr>"

text \<open>\<open>walk\<close>: the rows still to visit, one list per call under way, innermost first.\<close>

partial_function (option) walk_from ::
    "('w, 'b) handler_deps \<Rightarrow> pathListSettings \<Rightarrow> string \<Rightarrow> pathListQuery \<Rightarrow> row list list \<Rightarrow> pathListEntry list \<Rightarrow>
     'w env \<Rightarrow> ((gerror + pathListEntry list) \<times> 'w env) option" where
  "walk_from d st user q calls out s =
     (case calls of
        [] \<Rightarrow> Some (Inr out, s)
      | [] # calls' \<Rightarrow> walk_from d st user q calls' out s
      | (r # rows) # calls' \<Rightarrow>
          if pq_Recursive q \<and> IsCollection r
          then (case Listing (hd_rods d) 0 (walk_query d st user (row_full_path r) q) s of
            (Inl e, s') \<Rightarrow> Some (Inl e, s')
          | (Inr below, s') \<Rightarrow> walk_from d st user q (below # rows # calls') (out @ [entry_of_row r]) s')
          else walk_from d st user q (rows # calls') (out @ [entry_of_row r]) s)"

definition walk ::
    "('w, 'b) handler_deps \<Rightarrow> pathListSettings \<Rightarrow> string \<Rightarrow> string \<Rightarrow> pathListQuery \<Rightarrow> 'w env \<Rightarrow>
     ((gerror + pathListEntry list) \<times> 'w env) option" where
  "walk d st user path q s =
     (case Listing (hd_rods d) 0 (walk_query d st user path q) s of
        (Inl e, s') \<Rightarrow> Some (Inl e, s')
      | (Inr rows, s') \<Rightarrow> walk_from d st user q [rows] [] s')"

primrec gather_from ::
    "('w, 'b) handler_deps \<Rightarrow> pathListSettings \<Rightarrow> string \<Rightarrow> pathListQuery \<Rightarrow> string list \<Rightarrow> pathListEntry list \<Rightarrow>
     'w env \<Rightarrow> ((gerror + pathListEntry list) \<times> 'w env) option" where
  "gather_from d st user q [] out s = Some (Inr out, s)"
| "gather_from d st user q (path # paths) out s =
     (case Stat (hd_rods d) 0 path s of
        (Inl e, s') \<Rightarrow> Some (Inl e, s')
      | (Inr stat, s') \<Rightarrow>
          if st_type stat \<noteq> ObjectTypeDir
          then gather_from d st user q paths
            (if KeepInfoType (st_info_type stat) (pq_InfoTypes q) then out @ [entryOf stat] else out) s'
          else (case walk d st user path q s' of
            None \<Rightarrow> None
          | Some (Inl e, s'') \<Rightarrow> Some (Inl e, s'')
          | Some (Inr below, s'') \<Rightarrow> gather_from d st user q paths (out @ below) s''))"

definition pathlist_gather ::
    "('w, 'b) handler_deps \<Rightarrow> pathListSettings \<Rightarrow> string \<Rightarrow> string list \<Rightarrow> pathListQuery \<Rightarrow> 'w env \<Rightarrow>
     ((gerror + pathListEntry list) \<times> 'w env) option" where
  "pathlist_gather d st user requested q = gather_from d st user q requested []"

definition recordType :: "('w, 'b) handler_deps \<Rightarrow> pathListSettings \<Rightarrow> string \<Rightarrow> string \<Rightarrow> ('w env, unit) op" where
  "recordType d st dest listType =
     thenM (OpenProxyScope d) (finallyM
       (SetAVU (hd_rods d) 1 dest
          \<lparr>avu_attribute = ps_InfoTypeAttribute st, avu_value = listType, avu_unit = InfoTypeUnit\<rparr>)
       (Close 1))"

definition write_list ::
    "('w, 'b) handler_deps \<Rightarrow> 'w streams \<Rightarrow> pathListSettings \<Rightarrow> string \<Rightarrow> string \<Rightarrow> string \<Rightarrow> string \<Rightarrow> ('w env, json) op" where
  "write_list d files st user dest listType contents =
     thenM (WriteFile (hd_rods d) files 0 dest (contents, None))
    (thenM (Checksum (hd_rods d) 0 dest)
    (thenM (recordType d st dest listType)
    (bindM (StatOf (hd_rods d) 0 user dest (stat_options_of d (ParseFieldSet [] []))) (\<lambda>stat.
       returnM (JObj [(''file'', status_json stat)])))))"

text \<open>What the request asks for: the destination, the type of the list, the paths and the query.\<close>

definition pathListRequest ::
    "pathListSettings \<Rightarrow> string list request \<Rightarrow> ('s, string \<times> string \<times> string \<times> string list \<times> pathListQuery) op" where
  "pathListRequest st rq =
     bindM (requireUser rq) (\<lambda>user.
       let dest = trim_right (trim_space (QueryParam rq ''dest''));
           asked = trim_space (QueryParam rq ''path-list-info-type'');
           listType = (if asked = [] then ps_HTInfoType st else asked)
       in if dest = [] then schemaErrorM ''dest must be a non-blank string''
          else bindM (fileIdentifier st listType) (\<lambda>identifier.
               bindM (boolParam rq ''folders-only'') (\<lambda>foldersOnly.
               bindM (boolParam rq ''recursive'') (\<lambda>recursive.
               bindM (bindBody rq) (\<lambda>paths.
                 if paths = [] then schemaErrorM ''paths must not be empty''
                 else returnM (user, dest, listType, trimAll paths,
                   \<lparr>pq_FileIdentifier = identifier, pq_NamePattern = QueryParam rq ''name-pattern'',
                    pq_InfoTypes = fst (infoTypeFilter rq), pq_IncludeUnknown = snd (infoTypeFilter rq),
                    pq_FoldersOnly = foldersOnly, pq_Recursive = recursive\<rparr>))))))"

definition create_list ::
    "(string \<Rightarrow> gerror + (string \<Rightarrow> bool)) \<Rightarrow> ('w, 'b) handler_deps \<Rightarrow> 'w streams \<Rightarrow> pathListSettings \<Rightarrow> string \<Rightarrow>
     string \<Rightarrow> string \<Rightarrow> string list \<Rightarrow> pathListQuery \<Rightarrow> 'w env \<Rightarrow> ((gerror + json) \<times> 'w env) option" where
  "create_list Compile d files st user dest listType requested q s =
     (case validate_list d user dest requested s of
        (Inl e, s1) \<Rightarrow> Some (Inl e, s1)
      | (Inr _, s1) \<Rightarrow>
          (case pathlist_gather d st user requested q s1 of
             None \<Rightarrow> None
           | Some (Inl e, s2) \<Rightarrow> Some (Inl e, s2)
           | Some (Inr entries, s2) \<Rightarrow>
               (case BuildPathList Compile entries q of
                  Inl err \<Rightarrow>
                    Some (Inl (if err = ErrNoMatchingPaths
                      then to_gerror (With ''reason'' (JStr (error_text err)) (New ErrNotFound)) else err), s2)
                | Inr contents \<Rightarrow> Some (write_list d files st user dest listType contents s2))))"

definition pathlist_Create ::
    "(string \<Rightarrow> gerror + (string \<Rightarrow> bool)) \<Rightarrow> ('w, 'b) handler_deps \<Rightarrow> 'w streams \<Rightarrow> pathListSettings \<Rightarrow>
     string list request \<Rightarrow> 'w env \<Rightarrow> ((gerror + json) \<times> 'w env) option" where
  "pathlist_Create Compile d files st rq s =
     (case pathListRequest st rq s of
        (Inl e, s') \<Rightarrow> Some (Inl e, s')
      | (Inr (user, dest, listType, requested, q), s') \<Rightarrow>
          (case OpenScope d 0 user s' of
             (Inl e, s1) \<Rightarrow> Some (Inl e, s1)
           | (Inr _, s1) \<Rightarrow>
               map_option (\<lambda>(r, s2). (r, snd (Close 0 s2)))
                 (create_list Compile d files st user dest listType requested q s1)))"

section \<open>The file\<close>

text \<open>A path list, split at its newlines, is the identifier line followed by the paths of exactly
  the entries asked for, in their order: those the caller can see, of the kind and with the name asked
  for; when there are none there is no file.\<close>

definition asked_for :: "pathListQuery \<Rightarrow> (string \<Rightarrow> bool) \<Rightarrow> pathListEntry \<Rightarrow> bool" where
  "asked_for q matches e \<longleftrightarrow> pe_Permission e \<noteq> PermissionNone \<and> matches (pe_Label e) \<and>
     (pe_Type e = ObjectTypeDir \<longleftrightarrow> pq_FoldersOnly q)"

lemma split_on_join:
  assumes "ws \<noteq> []" "\<And>w. w \<in> set ws \<Longrightarrow> c \<notin> set w"
  shows "split_on c (join_with [c] ws) = ws"
  using assms
proof (induction "[c]" ws rule: join_with.induct)
  case (3 w v ws)
  then show ?case by (simp add: split_on_append)
qed simp_all

lemma BuildPathList_lines:
  assumes "trim_space (pq_NamePattern q) = [] \<and> matches = (\<lambda>_. True) \<or>
      trim_space (pq_NamePattern q) \<noteq> [] \<and> Compile (pq_NamePattern q) = Inr matches"
    and "CHR 0x0A \<notin> set (pq_FileIdentifier q)" "\<And>e. e \<in> set entries \<Longrightarrow> CHR 0x0A \<notin> set (pe_Path e)"
  shows "map_sum id (split_on CHR 0x0A) (BuildPathList Compile entries q) =
    (if filter (asked_for q matches) entries = [] then Inl ErrNoMatchingPaths
     else Inr (pq_FileIdentifier q # map pe_Path (filter (asked_for q matches) entries)))"
proof -
  obtain pattern where pattern: "compilePattern Compile (pq_NamePattern q) = Inr pattern"
    and keep: "\<And>e. keepEntry e q pattern = asked_for q matches e"
    using assms(1)
    by (cases "trim_space (pq_NamePattern q) = []")
      (auto simp: compilePattern_def keepEntry_def asked_for_def)
  have "split_on CHR 0x0A (join_with [CHR 0x0A] (pq_FileIdentifier q # map pe_Path (filter (asked_for q matches) entries))) =
      pq_FileIdentifier q # map pe_Path (filter (asked_for q matches) entries)"
    by (rule split_on_join) (use assms(2,3) in auto)
  then show ?thesis
    by (simp add: BuildPathList_def pattern keep Let_def)
qed

end
