(* ===== verification/Middleware.thy ===== *)
theory Middleware
  imports GoUrls PathLists
begin

text \<open>
  What every request passes through (\<open>internal/middleware\<close>): parameter names without regard to case
  (\<open>params.go\<close>) and the idle timeout (\<open>idletimeout.go\<close>).  \<open>ParseQuery\<close> and \<open>Encode\<close> are the standard
  library's, a query a list of pairs in the order of the text.
\<close>

section \<open>net/url\<close>

definition cut_at :: "char \<Rightarrow> string \<Rightarrow> string \<times> string" where
  "cut_at c s = (takeWhile (\<lambda>x. x \<noteq> c) s, drop (Suc (length (takeWhile (\<lambda>x. x \<noteq> c) s))) s)"

text \<open>A pair with a semicolon or that does not decode is left out.\<close>

definition parse_pair :: "string \<Rightarrow> (string \<times> string) list" where
  "parse_pair key =
     (if key = [] \<or> List.member key CHR '';'' then []
      else case cut_at CHR ''='' key of (name, value) \<Rightarrow>
        (case (QueryUnescape name, QueryUnescape value) of
           (Some n, Some v) \<Rightarrow> [(n, v)]
         | _ \<Rightarrow> []))"

definition ParseQuery :: "string \<Rightarrow> (string \<times> string) list" where
  "ParseQuery raw = concat (map parse_pair (split_on CHR ''&'' raw))"

definition query_get :: "(string \<times> string) list \<Rightarrow> string \<Rightarrow> string list" where
  "query_get q name = map snd (filter (\<lambda>(n, v). n = name) q)"

text \<open>\<open>Values\<close> as an association list with one entry a key.\<close>

definition values_add :: "string \<Rightarrow> string \<Rightarrow> (string \<times> string list) list \<Rightarrow> (string \<times> string list) list" where
  "values_add k v m = assoc_set k ((case map_of m k of None \<Rightarrow> [] | Some vs \<Rightarrow> vs) @ [v]) m"

definition Encode :: "(string \<times> string list) list \<Rightarrow> string" where
  "Encode m = join_with ''&'' (concat (map (\<lambda>k. map (\<lambda>v. QueryEscape k @ ''='' @ QueryEscape v) (the (map_of m k)))
     (sort (map fst m))))"

section \<open>params.go\<close>

definition pair_end :: "char \<Rightarrow> bool" where
  "pair_end c \<longleftrightarrow> c = CHR ''&'' \<or> c = CHR '';''"

text \<open>The walk over a raw query: what lies between the separators, empty pieces passed over.\<close>

function query_pairs :: "string \<Rightarrow> string list" where
  "query_pairs raw =
     (if raw = [] then []
      else let pair = takeWhile (\<lambda>c. \<not> pair_end c) raw; rest = drop (Suc (length pair)) raw
        in (if pair = [] then [] else [pair]) @ query_pairs rest)"
  by pat_completeness auto
termination
  by (relation "measure length") auto

declare query_pairs.simps [simp del]

definition is_upper :: "char \<Rightarrow> bool" where
  "is_upper c \<longleftrightarrow> in_range 65 90 (of_char c)"

definition hasUpper :: "string \<Rightarrow> bool" where
  "hasUpper raw \<longleftrightarrow> list_ex (\<lambda>pair. list_ex is_upper (fst (cut_at CHR ''='' pair))) (query_pairs raw)"

definition decode_pair :: "string \<Rightarrow> (string \<times> string) option" where
  "decode_pair pair =
     (case cut_at CHR ''='' pair of (name, value) \<Rightarrow>
        (case QueryUnescape name of
           None \<Rightarrow> None
         | Some n \<Rightarrow> map_option (\<lambda>v. (n, v)) (QueryUnescape value)))"

primrec lower_pairs :: "string list \<Rightarrow> (string \<times> string list) list \<Rightarrow> (string \<times> string list) list option" where
  "lower_pairs [] lowered = Some lowered"
| "lower_pairs (pair # pairs) lowered =
     (case decode_pair pair of
        None \<Rightarrow> None
      | Some (n, v) \<Rightarrow> lower_pairs pairs (values_add (to_lower n) v lowered))"

text \<open>The query the handlers see.\<close>

definition LowercaseQueryParams :: "string \<Rightarrow> string" where
  "LowercaseQueryParams raw =
     (if raw = [] \<or> \<not> hasUpper raw then raw
      else case lower_pairs (query_pairs raw) [] of None \<Rightarrow> raw | Some lowered \<Rightarrow> Encode lowered)"

section \<open>idletimeout.go\<close>

text \<open>Times in nanoseconds.  \<open>ex_supported\<close> is whether the connection takes deadlines, \<open>ex_fails\<close> whether
  setting one fails for another reason; \<open>ex_last\<close> is when it was last set.\<close>

record extender =
  ex_budget :: int
  ex_last :: "int option"
  ex_deadline :: "int option"
  ex_supported :: bool
  ex_fails :: bool

definition extend :: "int \<Rightarrow> extender \<Rightarrow> bool \<times> extender" where
  "extend now e =
     (if (case ex_last e of Some l \<Rightarrow> now - l < go_div (ex_budget e) 4 | None \<Rightarrow> False) then (True, e)
      else let e' = e\<lparr>ex_last := Some now\<rparr>
        in if \<not> ex_supported e then (False, e')
           else if ex_fails e then (True, e')
           else (True, e'\<lparr>ex_deadline := Some (now + ex_budget e)\<rparr>))"

definition idle_budget :: "int \<Rightarrow> int \<Rightarrow> bool option \<Rightarrow> int" where
  "idle_budget normal long isLong = (if isLong = Some True then long else normal)"

text \<open>A read or a write of some bytes at a time extends; one of none does not.\<close>

definition on_bytes :: "int \<times> nat \<Rightarrow> extender \<Rightarrow> extender" where
  "on_bytes = (\<lambda>(now, n) e. if n > 0 then snd (extend now e) else e)"

definition IdleTimeout :: "int \<Rightarrow> int \<Rightarrow> bool option \<Rightarrow> bool \<Rightarrow> bool \<Rightarrow> int \<Rightarrow> (int \<times> nat) list \<Rightarrow> int option" where
  "IdleTimeout normal long isLong supported fails start moves =
     (let e = \<lparr>ex_budget = idle_budget normal long isLong, ex_last = None, ex_deadline = None,
               ex_supported = supported, ex_fails = fails\<rparr>
      in case extend start e of
           (False, _) \<Rightarrow> None
         | (True, e') \<Rightarrow> ex_deadline (fold on_bytes moves e'))"

section \<open>What the handlers read\<close>

definition get_values :: "(string \<times> string list) list \<Rightarrow> string \<Rightarrow> string list" where
  "get_values m k = (case map_of m k of None \<Rightarrow> [] | Some vs \<Rightarrow> vs)"

lemma assoc_set_lookup: "map_of (assoc_set k v m) = (map_of m)(k \<mapsto> v)"
  by (induction k v m rule: assoc_set.induct) auto

lemma assoc_set_keys: "map fst (assoc_set k v m) = (if k \<in> set (map fst m) then map fst m else map fst m @ [k])"
  by (induction k v m rule: assoc_set.induct) auto

lemma values_add_get: "get_values (values_add k v m) n = get_values m n @ (if n = k then [v] else [])"
  by (auto simp: values_add_def get_values_def assoc_set_lookup split: option.splits)

lemma values_add_distinct: "distinct (map fst m) \<Longrightarrow> distinct (map fst (values_add k v m))"
  by (auto simp: values_add_def assoc_set_keys simp del: map_map)

lemma lower_pairs_get:
  assumes "lower_pairs pairs m = Some lowered" "distinct (map fst m)"
  shows "distinct (map fst lowered) \<and> (\<exists>kvs. those (map decode_pair pairs) = Some kvs \<and>
    (\<forall>n. get_values lowered n = get_values m n @ map snd (filter (\<lambda>(k, v). to_lower k = n) kvs)))"
  using assms
proof (induction pairs arbitrary: m)
  case (Cons pair pairs)
  then obtain k v where kv: "decode_pair pair = Some (k, v)" "lower_pairs pairs (values_add (to_lower k) v m) = Some lowered"
    by (auto split: option.splits)
  from Cons.IH [OF kv(2) values_add_distinct [OF Cons.prems(2)]]
  obtain kvs where "distinct (map fst lowered)" "those (map decode_pair pairs) = Some kvs"
      "\<forall>n. get_values lowered n = get_values (values_add (to_lower k) v m) n @ map snd (filter (\<lambda>(k, v). to_lower k = n) kvs)"
    by blast
  with kv(1) show ?case
    by (intro conjI exI [of _ "(k, v) # kvs"]) (auto simp: values_add_get)
qed simp

lemma escape_set: "c \<in> set (QueryEscape s) \<Longrightarrow> unreserved c \<or> c = CHR ''+'' \<or> c = CHR ''%''"
proof -
  have digit: "unreserved (hex_digits ! d)" if "d < 16" for d
  proof -
    have "\<forall>d \<in> set [0..<16]. unreserved (hex_digits ! d)" by code_simp
    then show ?thesis using that by simp
  qed
  have "(of_char c :: nat) div 16 < 16" "(of_char c :: nat) mod 16 < 16" for c :: char
  proof -
    have "(of_char c :: nat) < 256" by simp
    then show "(of_char c :: nat) div 16 < 16" "(of_char c :: nat) mod 16 < 16"
      by (simp_all add: less_mult_imp_div_less)
  qed
  with digit have "unreserved (hex_digits ! (of_char c div 16))" "unreserved (hex_digits ! (of_char c mod 16))" for c
    by blast+
  then show "c \<in> set (QueryEscape s) \<Longrightarrow> unreserved c \<or> c = CHR ''+'' \<or> c = CHR ''%''"
    by (auto simp: QueryEscape_def percent_def Let_def split: if_splits)
qed

lemma escape_no_marks: "c \<in> {CHR ''&'', CHR ''='', CHR '';''} \<Longrightarrow> c \<notin> set (QueryEscape s)"
  by (auto dest!: escape_set simp: unreserved_def in_range_def)

lemma cut_at_append: "c \<notin> set a \<Longrightarrow> cut_at c (a @ c # b) = (a, b)"
  by (auto simp: cut_at_def takeWhile_append)

lemma parse_pair_escaped: "parse_pair (QueryEscape k @ CHR ''='' # QueryEscape v) = [(k, v)]"
  using escape_no_marks [of "CHR '';''"] escape_no_marks [of "CHR ''=''"]
  by (simp add: parse_pair_def cut_at_append QueryUnescape_QueryEscape)

lemma ParseQuery_Encode:
  assumes "distinct (map fst m)"
  shows "query_get (ParseQuery (Encode m)) n = get_values m n"
proof -
  let ?keys = "sort (map fst m)"
  let ?pairs = "concat (map (\<lambda>k. map (Pair k) (the (map_of m k))) ?keys)"
  let ?texts = "concat (map (\<lambda>k. map (\<lambda>v. QueryEscape k @ ''='' @ QueryEscape v) (the (map_of m k))) ?keys)"
  have texts: "?texts = map (\<lambda>(k, v). QueryEscape k @ ''='' @ QueryEscape v) ?pairs"
    by (simp add: map_concat comp_def)
  have "ParseQuery (Encode m) = ?pairs"
  proof (cases "?texts = []")
    case True
    from True have "?pairs = []"
      unfolding texts by (simp only: map_is_Nil_conv)
    then show ?thesis
      unfolding ParseQuery_def Encode_def True by (simp add: parse_pair_def)
  next
    case False
    have "split_on CHR ''&'' (join_with ''&'' ?texts) = ?texts"
      by (rule split_on_join [OF False]) (use escape_no_marks [of "CHR ''&''"] in auto)
    moreover have "concat (map parse_pair ?texts) = ?pairs"
      unfolding texts by (simp add: comp_def case_prod_unfold parse_pair_escaped concat_map_singleton)
    ultimately show ?thesis
      by (simp only: ParseQuery_def Encode_def)
  qed
  moreover have "map snd (filter (\<lambda>(k, v). k = n) (concat (map (\<lambda>k. map (Pair k) (the (map_of m k))) ks))) =
      (if n \<in> set ks then the (map_of m n) else [])" if "distinct ks" for ks
    using that
  proof (induction ks)
    case (Cons a ks)
    have "filter (\<lambda>x. a = n) (the (map_of m a)) = (if a = n then the (map_of m n) else [])"
      by simp
    with Cons show ?case by (auto simp: filter_map comp_def)
  qed simp
  moreover have "distinct ?keys" "set ?keys = fst ` set m"
    using assms by simp_all
  ultimately have "query_get (ParseQuery (Encode m)) n = (if n \<in> fst ` set m then the (map_of m n) else [])"
    by (simp only: query_get_def)
  then show ?thesis
    using map_of_eq_None_iff [of m n] by (cases "map_of m n") (auto simp: get_values_def)
qed

text \<open>C40.  Parameter names are read without regard to case: when a query has an upper case name and its
  pairs decode, the handlers find under a name the values of all its spellings, in the order of the
  query.\<close>

theorem query_names_caseless:
  assumes "hasUpper raw" "those (map decode_pair (query_pairs raw)) = Some kvs"
  shows "query_get (ParseQuery (LowercaseQueryParams raw)) n = map snd (filter (\<lambda>(k, v). to_lower k = n) kvs)"
proof -
  have "\<exists>lowered. lower_pairs pairs m = Some lowered" if "those (map decode_pair pairs) = Some kvs" for pairs m kvs
    using that by (induction pairs arbitrary: m kvs) (auto split: option.splits)
  with assms(2) obtain lowered where lowered: "lower_pairs (query_pairs raw) [] = Some lowered" by blast
  have "raw \<noteq> []"
    using assms(1) by (auto simp: hasUpper_def query_pairs.simps)
  with assms(1) lowered have "LowercaseQueryParams raw = Encode lowered"
    by (simp add: LowercaseQueryParams_def)
  with lower_pairs_get [OF lowered] assms(2) show ?thesis
    by (auto simp: ParseQuery_Encode get_values_def)
qed

theorem query_names_caseless_witness:
  "query_get (ParseQuery (LowercaseQueryParams ''Path=%2Fz&a=1&path=b'')) ''path'' = [''/z'', ''b'']"
proof -
  have "hasUpper ''Path=%2Fz&a=1&path=b''"
      "those (map decode_pair (query_pairs ''Path=%2Fz&a=1&path=b'')) = Some [(''Path'', ''/z''), (''a'', ''1''), (''path'', ''b'')]"
      "to_lower ''Path'' = ''path''" "to_lower ''a'' = ''a''" "to_lower ''path'' = ''path''"
    by code_simp+
  then show ?thesis
    using query_names_caseless [of "''Path=%2Fz&a=1&path=b''" _ "''path''"] by simp
qed

section \<open>The deadline\<close>

text \<open>While bytes move the deadline stays at least three quarters of the budget ahead of the last move.\<close>

definition well_extended :: "extender \<Rightarrow> bool" where
  "well_extended e \<longleftrightarrow> ex_supported e \<and> \<not> ex_fails e \<and> 0 \<le> ex_budget e \<and>
     (\<exists>l. ex_last e = Some l \<and> ex_deadline e = Some (l + ex_budget e))"

lemma extend_ahead:
  assumes "well_extended e" "extend now e = (r, e')"
  shows "r \<and> well_extended e' \<and> ex_budget e' = ex_budget e \<and> now + ex_budget e - ex_budget e div 4 \<le> the (ex_deadline e')"
proof -
  have "go_div (ex_budget e) 4 = ex_budget e div 4"
    using assms(1) by (simp add: well_extended_def go_div_pos)
  with assms show ?thesis
    by (auto simp: extend_def well_extended_def Let_def split: if_splits)
qed

lemma IdleTimeout_ahead:
  assumes "0 \<le> idle_budget normal long isLong" "0 < n"
    and "IdleTimeout normal long isLong True False start (moves @ [(now, n)]) = deadline"
  shows "\<exists>t. deadline = Some t \<and>
    now + idle_budget normal long isLong - idle_budget normal long isLong div 4 \<le> t"
proof -
  let ?b = "idle_budget normal long isLong"
  let ?e = "\<lparr>ex_budget = ?b, ex_last = Some start, ex_deadline = Some (start + ?b), ex_supported = True, ex_fails = False\<rparr>"
  have kept: "well_extended (fold on_bytes moves e) \<and> ex_budget (fold on_bytes moves e) = ex_budget e" if "well_extended e" for e moves
    using that
  proof (induction moves arbitrary: e)
    case (Cons m moves)
    have "well_extended (on_bytes m e) \<and> ex_budget (on_bytes m e) = ex_budget e"
      using extend_ahead [OF Cons.prems, of "fst m"] Cons.prems
      by (cases "extend (fst m) e") (auto simp: on_bytes_def case_prod_unfold)
    with Cons.IH [of "on_bytes m e"] show ?case by simp
  qed simp
  have "well_extended ?e"
    using assms(1) by (simp add: well_extended_def)
  from kept [OF this] have all: "well_extended (fold on_bytes moves ?e)" "ex_budget (fold on_bytes moves ?e) = ?b"
    by simp_all
  obtain r e' where last: "extend now (fold on_bytes moves ?e) = (r, e')" by fastforce
  have "deadline = ex_deadline e'"
    using assms(2,3) last by (auto simp: IdleTimeout_def extend_def on_bytes_def Let_def)
  with extend_ahead [OF all(1) last] all(2) show ?thesis
    by (auto simp: well_extended_def)
qed

end
