(* ===== verification/MetadataFiles.thy ===== *)
theory MetadataFiles
  imports ApiErrors Trimming
begin

text \<open>
  The documents DataONE harvests (\<open>internal/metadatafiles\<close>: \<open>xml.go\<close>, \<open>datacite.go\<close>, \<open>ore.go\<close>): the
  elements, how they are written, the DataCite record and the resource map built of a data set's AVUs.
  What is written is read back by a reader of the same subset of XML.
\<close>

section \<open>xml.go\<close>

record attr =
  at_Name :: string
  at_Value :: string

text \<open>\<open>Element\<close>; the text is present when \<open>hasText\<close> is set.\<close>

datatype element = Element string "attr list" "string option" "element list"

definition Elem :: "string \<Rightarrow> attr list \<Rightarrow> element option list \<Rightarrow> element" where
  "Elem name attrs children = Element name attrs None (List.map_filter id children)"

definition Text :: "string \<Rightarrow> attr list \<Rightarrow> string \<Rightarrow> element" where
  "Text name attrs text' = Element name attrs (Some text') []"

definition xml_declaration :: string where
  "xml_declaration = ''<?xml version=\"1.0\" encoding=\"UTF-8\"?>''"

abbreviation dquote :: char where "dquote \<equiv> CHR 0x22"

fun text_escape :: "char \<Rightarrow> string" where
  "text_escape c =
     (if c = CHR ''&'' then ''&amp;'' else if c = CHR ''<'' then ''&lt;'' else if c = CHR ''>'' then ''&gt;'' else [c])"

definition attr_escape :: "char \<Rightarrow> string" where
  "attr_escape c = (if c = dquote then ''&quot;'' else text_escape c)"

definition escapeText :: "string \<Rightarrow> string" where
  "escapeText s = concat (map text_escape s)"

definition escapeAttr :: "string \<Rightarrow> string" where
  "escapeAttr s = concat (map attr_escape s)"

definition write_attr :: "attr \<Rightarrow> string" where
  "write_attr a = '' '' @ at_Name a @ ''='' @ [dquote] @ escapeAttr (at_Value a) @ [dquote]"

fun write_element :: "element \<Rightarrow> string" where
  "write_element (Element name attrs txt children) =
     ''<'' @ name @ concat (map write_attr attrs) @
     (if txt = None \<and> children = [] then ''/>''
      else ''>'' @ (case txt of None \<Rightarrow> [] | Some t \<Rightarrow> escapeText t) @ concat (map write_element children) @
           ''</'' @ name @ ''>'')"

definition Render :: "element \<Rightarrow> string" where
  "Render root = xml_declaration @ write_element root"

section \<open>datacite.go\<close>

record md_avu =
  ma_Attribute :: string
  ma_Value :: string

definition dataciteNamespace :: string where "dataciteNamespace = ''http://datacite.org/schema/kernel-3''"
definition xsiNamespace :: string where "xsiNamespace = ''http://www.w3.org/2001/XMLSchema-instance''"
definition dataciteSchemaLocs :: string where
  "dataciteSchemaLocs =
     ''https://schema.datacite.org/meta/kernel-3.1 https://schema.datacite.org/meta/kernel-3.1/metadata.xsd''"

definition requiredAttributes :: "string list" where
  "requiredAttributes =
     [''Identifier'', ''identifierType'', ''datacite.creator'', ''creatorAffiliation'', ''datacite.title'',
      ''datacite.publisher'', ''datacite.publicationyear'', ''datacite.resourcetype'']"

definition missingAttributes :: "md_avu list \<Rightarrow> string list" where
  "missingAttributes avus =
     filter (\<lambda>name. \<not> list_ex (\<lambda>a. ma_Attribute a = name \<and> trim_space (ma_Value a) \<noteq> []) avus) requiredAttributes"

definition md_values :: "md_avu list \<Rightarrow> string \<Rightarrow> string list" where
  "md_values avus attribute = map (\<lambda>a. trim_space (ma_Value a)) (filter (\<lambda>a. ma_Attribute a = attribute) avus)"

definition md_value :: "md_avu list \<Rightarrow> string \<Rightarrow> string" where
  "md_value avus attribute = (case md_values avus attribute of [] \<Rightarrow> [] | v # _ \<Rightarrow> v)"

record association =
  as_required :: "string list"
  as_optional :: "string list"

definition creatorAttributes :: association where
  "creatorAttributes = \<lparr>as_required = [''datacite.creator'', ''creatorAffiliation''], as_optional = [''creatorNameIdentifier'']\<rparr>"
definition contributorAttributes :: association where
  "contributorAttributes = \<lparr>as_required = [''contributorName'', ''contributorType''], as_optional = []\<rparr>"
definition alternateIdentifierAttributes :: association where
  "alternateIdentifierAttributes = \<lparr>as_required = [''AlternateIdentifier'', ''alternateIdentifierType''], as_optional = []\<rparr>"
definition relatedIdentifierAttributes :: association where
  "relatedIdentifierAttributes =
     \<lparr>as_required = [''RelatedIdentifier'', ''relatedIdentifierType'', ''relationType''], as_optional = []\<rparr>"
definition descriptionAttributes :: association where
  "descriptionAttributes = \<lparr>as_required = [''Description'', ''descriptionType''], as_optional = []\<rparr>"
definition geoLocationAttributes :: association where
  "geoLocationAttributes =
     \<lparr>as_required = [], as_optional = [''geoLocationPoint'', ''geoLocationBox'', ''geoLocationPlace'']\<rparr>"

definition associations :: "association list" where
  "associations =
     [creatorAttributes, contributorAttributes, alternateIdentifierAttributes, relatedIdentifierAttributes,
      descriptionAttributes, geoLocationAttributes]"

text \<open>\<open>check\<close>: the reason for the refusal, if it refuses.\<close>

definition as_check :: "association \<Rightarrow> md_avu list \<Rightarrow> gerror option" where
  "as_check a avus =
     (case as_required a of
        [] \<Rightarrow> None
      | first # others \<Rightarrow>
          let n = length (md_values avus first) in
            if list_ex (\<lambda>name. length (md_values avus name) \<noteq> n) others
            then Some (Plain (''these attributes must have the same number of values: '' @ join_with '', '' (as_required a)))
            else if list_ex (\<lambda>name. length (md_values avus name) > n) (as_optional a)
            then Some (Plain (''none of the attributes '' @ join_with '', '' (as_optional a) @
                   '' may have more values than '' @ join_with '', '' (as_required a)))
            else None)"

definition allBlank :: "string list \<Rightarrow> bool" where
  "allBlank row \<longleftrightarrow> list_all (\<lambda>v. trim_space v = []) row"

definition as_table :: "association \<Rightarrow> md_avu list \<Rightarrow> string list list" where
  "as_table a avus =
     (let lists = map (md_values avus) (as_required a @ as_optional a);
          longest = foldl max 0 (map length lists)
      in map (\<lambda>i. map (\<lambda>held. if i < length held then held ! i else []) lists) [0..<longest])"

definition as_rows :: "association \<Rightarrow> md_avu list \<Rightarrow> string list list" where
  "as_rows a avus = dropWhile allBlank (as_table a avus)"

definition en :: "attr list" where "en = [\<lparr>at_Name = ''xml:lang'', at_Value = ''en''\<rparr>]"

definition identifier_of :: "md_avu list \<Rightarrow> element" where
  "identifier_of avus =
     Text ''datacite:identifier'' [\<lparr>at_Name = ''identifierType'', at_Value = md_value avus ''identifierType''\<rparr>]
       (if has_prefix (md_value avus ''Identifier'') ''doi:'' then drop 4 (md_value avus ''Identifier'')
        else md_value avus ''Identifier'')"

definition creators_of :: "md_avu list \<Rightarrow> element" where
  "creators_of avus =
     Elem ''datacite:creators'' [] (map (\<lambda>row. Some (Elem ''datacite:creator'' []
       [Some (Text ''datacite:creatorName'' [] (row ! 0)),
        if trim_space (row ! 2) \<noteq> []
        then Some (Text ''datacite:nameIdentifier'' [\<lparr>at_Name = ''nameIdentifierScheme'', at_Value = ''ORCID''\<rparr>] (row ! 2))
        else None,
        Some (Text ''datacite:affiliation'' [] (row ! 1))])) (as_rows creatorAttributes avus))"

definition titles_of :: "md_avu list \<Rightarrow> element" where
  "titles_of avus =
     Elem ''datacite:titles'' [] (map (\<lambda>title. Some (Text ''datacite:title'' en title)) (md_values avus ''datacite.title''))"

definition resourceType_of :: "md_avu list \<Rightarrow> element" where
  "resourceType_of avus =
     Text ''datacite:resourceType'' [\<lparr>at_Name = ''resourceTypeGeneral'', at_Value = ''Dataset''\<rparr>]
       (md_value avus ''datacite.resourcetype'')"

definition splitOnCommas :: "string \<Rightarrow> string list" where
  "splitOnCommas s = filter (\<lambda>t. t \<noteq> []) (map trim_space (split_on CHR '','' s))"

text \<open>A group of children, absent when there are none.\<close>

definition group_of :: "string \<Rightarrow> element list \<Rightarrow> element option" where
  "group_of name children = (if children = [] then None else Some (Elem name [] (map Some children)))"

definition subjects_of :: "md_avu list \<Rightarrow> element option" where
  "subjects_of avus =
     group_of ''datacite:subjects'' (map (Text ''datacite:subject'' en)
       (concat (map splitOnCommas (md_values avus ''Subject''))))"

definition contributors_of :: "md_avu list \<Rightarrow> element option" where
  "contributors_of avus =
     group_of ''datacite:contributors'' (map (\<lambda>row. Elem ''datacite:contributor''
       [\<lparr>at_Name = ''contributorType'', at_Value = row ! 1\<rparr>] [Some (Text ''datacite:contributorName'' [] (row ! 0))])
       (as_rows contributorAttributes avus))"

definition alternateIdentifiers_of :: "md_avu list \<Rightarrow> element option" where
  "alternateIdentifiers_of avus =
     group_of ''datacite:alternateIdentifiers'' (map (\<lambda>row. Text ''datacite:alternateIdentifier''
       [\<lparr>at_Name = ''alternateIdentifierType'', at_Value = row ! 1\<rparr>] (row ! 0))
       (as_rows alternateIdentifierAttributes avus))"

definition relatedIdentifiers_of :: "md_avu list \<Rightarrow> element option" where
  "relatedIdentifiers_of avus =
     group_of ''datacite:relatedIdentifiers'' (map (\<lambda>row. Text ''datacite:relatedIdentifier''
       [\<lparr>at_Name = ''relatedIdentifierType'', at_Value = row ! 1\<rparr>, \<lparr>at_Name = ''relationType'', at_Value = row ! 2\<rparr>]
       (row ! 0)) (as_rows relatedIdentifierAttributes avus))"

definition rightsList_of :: "md_avu list \<Rightarrow> element option" where
  "rightsList_of avus =
     group_of ''datacite:rightsList'' (map (Text ''datacite:rights'' []) (md_values avus ''Rights''))"

definition descriptions_of :: "md_avu list \<Rightarrow> element option" where
  "descriptions_of avus =
     group_of ''datacite:descriptions'' (map (\<lambda>row. Text ''datacite:description''
       (\<lparr>at_Name = ''descriptionType'', at_Value = row ! 1\<rparr> # en) (row ! 0)) (as_rows descriptionAttributes avus))"

definition optionalText :: "string \<Rightarrow> string \<Rightarrow> element option" where
  "optionalText name txt = (if txt = [] then None else Some (Text name [] txt))"

definition geoLocations_of :: "md_avu list \<Rightarrow> element option" where
  "geoLocations_of avus =
     group_of ''datacite:geoLocations'' (map (\<lambda>row. Elem ''datacite:geoLocation'' []
       [optionalText ''datacite:geoLocationPoint'' (row ! 0), optionalText ''datacite:geoLocationBox'' (row ! 1),
        optionalText ''datacite:geoLocationPlace'' (row ! 2)]) (as_rows geoLocationAttributes avus))"

definition datacite_root :: "md_avu list \<Rightarrow> element" where
  "datacite_root avus =
     Elem ''datacite:resource''
       [\<lparr>at_Name = ''xmlns:datacite'', at_Value = dataciteNamespace\<rparr>, \<lparr>at_Name = ''xmlns:xsi'', at_Value = xsiNamespace\<rparr>,
        \<lparr>at_Name = ''xsi:schemaLocation'', at_Value = dataciteSchemaLocs\<rparr>]
       [Some (identifier_of avus), Some (creators_of avus), Some (titles_of avus),
        Some (Text ''datacite:publisher'' [] (md_value avus ''datacite.publisher'')),
        Some (Text ''datacite:publicationYear'' [] (md_value avus ''datacite.publicationyear'')),
        Some (resourceType_of avus), subjects_of avus, contributors_of avus, alternateIdentifiers_of avus,
        relatedIdentifiers_of avus, rightsList_of avus, descriptions_of avus, geoLocations_of avus]"

definition BuildDataCite :: "md_avu list \<Rightarrow> gerror + string" where
  "BuildDataCite avus =
     (if missingAttributes avus \<noteq> []
      then Inl (Plain (''missing required attributes: '' @ join_with '', '' (missingAttributes avus)))
      else case List.map_filter (\<lambda>a. as_check a avus) associations of
        err # _ \<Rightarrow> Inl err
      | [] \<Rightarrow> Inr (Render (datacite_root avus)))"

section \<open>ore.go\<close>

definition OREFormatID :: string where "OREFormatID = ''http://www.openarchives.org/ore/terms''"

definition oreNamespaces :: "attr list" where
  "oreNamespaces = map (\<lambda>(n, v). \<lparr>at_Name = n, at_Value = v\<rparr>)
     [(''xmlns:dc'', ''http://purl.org/dc/elements/1.1/''), (''xmlns:owl'', ''http://www.w3.org/2002/07/owl#''),
      (''xmlns:foaf'', ''http://xmlns.com/foaf/0.1/''), (''xmlns:dcterms'', ''http://purl.org/dc/terms/''),
      (''xmlns:rdf'', ''http://www.w3.org/1999/02/22-rdf-syntax-ns#''),
      (''xmlns:ore'', ''http://www.openarchives.org/ore/terms/''),
      (''xmlns:rdfs'', ''http://www.w3.org/2000/01/rdf-schema#''), (''xmlns:cito'', ''http://purl.org/spar/cito/'')]"

definition aggregationType :: string where "aggregationType = ''http://www.openarchives.org/ore/terms/Aggregation''"
definition resourceMapType :: string where "resourceMapType = ''http://www.openarchives.org/ore/terms/ResourceMap''"

record archivedFile =
  af_ID :: string
  af_URI :: string

record oreInput =
  oi_AggregationURI :: string
  oi_ResourceMap :: archivedFile
  oi_Metadata :: archivedFile
  oi_Files :: "archivedFile list"
  oi_AVUs :: "md_avu list"

definition dublinCoreElement :: "(string \<times> string) list" where
  "dublinCoreElement =
     [(''datacite.title'', ''dc:title''), (''datacite.publisher'', ''dc:publisher''), (''datacite.creator'', ''dc:creator''),
      (''datacite.resourcetype'', ''dc:type''), (''contributorName'', ''dc:contributor''), (''Subject'', ''dc:subject''),
      (''Rights'', ''dc:rights''), (''Description'', ''dc:description''), (''Identifier'', ''dcterms:identifier'')]"

definition dcTermsElement :: "(string \<times> string) list" where
  "dcTermsElement =
     [(''geoLocationBox'', ''dcterms:Box''), (''geoLocationPlace'', ''dcterms:Location''), (''geoLocationPoint'', ''dcterms:Point'')]"

definition rdf_resource :: "string \<Rightarrow> attr list" where
  "rdf_resource uri = [\<lparr>at_Name = ''rdf:resource'', at_Value = uri\<rparr>]"

definition rdf_about :: "string \<Rightarrow> attr list" where
  "rdf_about uri = [\<lparr>at_Name = ''rdf:about'', at_Value = uri\<rparr>]"

definition describeAVU :: "md_avu \<Rightarrow> element option" where
  "describeAVU a =
     (let v = trim_space (ma_Value a) in
      if v = [] then None
      else case map_of dublinCoreElement (ma_Attribute a) of
        Some name \<Rightarrow> Some (Text name [] v)
      | None \<Rightarrow> map_option (\<lambda>name. Text name [\<lparr>at_Name = ''rdf:parseType'', at_Value = ''Literal''\<rparr>] v)
          (map_of dcTermsElement (ma_Attribute a)))"

definition urisOf :: "archivedFile list \<Rightarrow> string list" where
  "urisOf fs = map af_URI fs"

definition aggregation_of :: "oreInput \<Rightarrow> element" where
  "aggregation_of i =
     Elem ''rdf:Description'' (rdf_about (oi_AggregationURI i))
       ([Some (Elem ''rdf:type'' (rdf_resource aggregationType) [])] @
        map (\<lambda>uri. Some (Elem ''ore:aggregates'' (rdf_resource uri) []))
          (filter (\<lambda>uri. uri \<noteq> []) (af_URI (oi_Metadata i) # urisOf (oi_Files i))) @
        map describeAVU (oi_AVUs i))"

definition resourceMap_of :: "oreInput \<Rightarrow> element" where
  "resourceMap_of i =
     Elem ''rdf:Description'' (rdf_about (af_URI (oi_ResourceMap i)))
       [Some (Text ''dcterms:identifier'' [] (af_ID (oi_ResourceMap i))),
        Some (Elem ''rdf:type'' (rdf_resource resourceMapType) []),
        Some (Elem ''ore:describes'' (rdf_resource (oi_AggregationURI i)) [])]"

definition metadataFile_of :: "oreInput \<Rightarrow> element" where
  "metadataFile_of i =
     Elem ''rdf:Description'' (rdf_about (af_URI (oi_Metadata i)))
       (Some (Text ''dcterms:identifier'' [] (af_ID (oi_Metadata i))) #
        map (\<lambda>f. Some (Elem ''cito:documents'' (rdf_resource (af_URI f)) [])) (oi_Files i))"

definition archivedFile_of :: "archivedFile \<Rightarrow> string \<Rightarrow> element" where
  "archivedFile_of f metadataURI =
     Elem ''rdf:Description'' (rdf_about (af_URI f))
       [Some (Text ''dcterms:identifier'' [] (af_ID f)),
        if metadataURI = [] then None else Some (Elem ''cito:isDocumentedBy'' (rdf_resource metadataURI) [])]"

definition ore_root :: "oreInput \<Rightarrow> element" where
  "ore_root i =
     Elem ''rdf:RDF'' oreNamespaces
       ([Some (aggregation_of i), Some (resourceMap_of i),
         if af_URI (oi_Metadata i) = [] then None else Some (metadataFile_of i)] @
        map (\<lambda>f. Some (archivedFile_of f (af_URI (oi_Metadata i)))) (oi_Files i))"

definition BuildORE :: "oreInput \<Rightarrow> string" where
  "BuildORE i = Render (ore_root i)"

section \<open>Reading a document back\<close>

text \<open>A reader of what \<open>Render\<close> writes, written without it: attributes, then either text or elements,
  then the closing tag of the same name.\<close>

function xml_unescape :: "string \<Rightarrow> string" where
  "xml_unescape s =
     (case s of
        [] \<Rightarrow> []
      | c # r \<Rightarrow>
          if has_prefix s ''&amp;'' then CHR ''&'' # xml_unescape (drop 4 r)
          else if has_prefix s ''&lt;'' then CHR ''<'' # xml_unescape (drop 3 r)
          else if has_prefix s ''&gt;'' then CHR ''>'' # xml_unescape (drop 3 r)
          else if has_prefix s ''&quot;'' then dquote # xml_unescape (drop 5 r)
          else c # xml_unescape r)"
  by pat_completeness auto
termination
  by (relation "measure length") auto

declare xml_unescape.simps [simp del]

function read_attrs :: "string \<Rightarrow> attr list \<times> string" where
  "read_attrs s =
     (if has_prefix s '' '' then
        let name = takeWhile (\<lambda>c. c \<noteq> CHR ''='') (tl s);
            quoted = drop (length name + 2) (tl s);
            value = takeWhile (\<lambda>c. c \<noteq> dquote) quoted;
            (others, rest) = read_attrs (drop (Suc (length value)) quoted)
        in (\<lparr>at_Name = name, at_Value = xml_unescape value\<rparr> # others, rest)
      else ([], s))"
  by pat_completeness auto
termination
  by (relation "measure length") (auto dest!: prefix_length_le)

declare read_attrs.simps [simp del]

definition name_char :: "char \<Rightarrow> bool" where
  "name_char c \<longleftrightarrow> c \<notin> {CHR '' '', CHR ''/'', CHR ''<'', CHR ''>'', CHR ''='', dquote}"

text \<open>What follows the less-than sign of an opening tag: its name and attributes, and the rest.\<close>

definition read_tag :: "string \<Rightarrow> (string \<times> attr list) \<times> string" where
  "read_tag s =
     (let name = takeWhile name_char s; (attrs, rest) = read_attrs (drop (length name) s) in ((name, attrs), rest))"

text \<open>The elements up to a closing tag, or to the end of the text.\<close>

fun read_elements :: "nat \<Rightarrow> string \<Rightarrow> (element list \<times> string) option" where
  "read_elements 0 s = None"
| "read_elements (Suc n) s =
     (if s = [] \<or> has_prefix s ''</'' then Some ([], s)
      else if \<not> has_prefix s ''<'' then None
      else case read_tag (tl s) of ((name, attrs), r1) \<Rightarrow>
        (if has_prefix r1 ''/>''
         then map_option (\<lambda>(es, r). (Element name attrs None [] # es, r)) (read_elements n (drop 2 r1))
         else
           let txt = takeWhile (\<lambda>c. c \<noteq> CHR ''<'') (tl r1) in
           case read_elements n (drop (length txt) (tl r1)) of
             None \<Rightarrow> None
           | Some (kids, r2) \<Rightarrow>
               if has_prefix r2 (''</'' @ name @ ''>'')
               then map_option
                      (\<lambda>(es, r). (Element name attrs (if kids = [] then Some (xml_unescape txt) else None) kids # es, r))
                      (read_elements n (drop (length name + 3) r2))
               else None))"

definition read_document :: "string \<Rightarrow> element option" where
  "read_document doc =
     (if has_prefix doc xml_declaration then
        case read_elements (Suc (length doc)) (drop (length xml_declaration) doc) of
          Some ([e], []) \<Rightarrow> Some e
        | _ \<Rightarrow> None
      else None)"

text \<open>Elements with names a tag can hold, and text or children but not both.\<close>

definition good_name :: "string \<Rightarrow> bool" where
  "good_name name \<longleftrightarrow> name \<noteq> [] \<and> list_all name_char name"

fun well_formed :: "element \<Rightarrow> bool" where
  "well_formed (Element name attrs txt children) \<longleftrightarrow>
     good_name name \<and> list_all (\<lambda>a. good_name (at_Name a)) attrs \<and> (txt = None \<or> children = []) \<and>
     list_all well_formed children"

lemma xml_unescape_text: "xml_unescape (text_escape c @ r) = c # xml_unescape r"
  by (subst xml_unescape.simps [of "text_escape c @ r"]) auto

lemma xml_unescape_attr: "xml_unescape (attr_escape c @ r) = c # xml_unescape r"
  by (subst xml_unescape.simps [of "attr_escape c @ r"]) (auto simp: attr_escape_def)

lemma xml_unescape_Nil [simp]: "xml_unescape [] = []"
  by (subst xml_unescape.simps) simp

lemma xml_unescape_escapeText [simp]: "xml_unescape (escapeText s) = s"
  by (induction s) (simp_all add: escapeText_def xml_unescape_text del: text_escape.simps)

lemma xml_unescape_escapeAttr [simp]: "xml_unescape (escapeAttr s) = s"
  by (induction s) (simp_all add: escapeAttr_def xml_unescape_attr)

lemma text_no_tag: "CHR ''<'' \<notin> set (escapeText s)"
  by (auto simp: escapeText_def split: if_splits)

lemma attr_no_quote: "dquote \<notin> set (escapeAttr s)"
  by (auto simp: escapeAttr_def attr_escape_def split: if_splits)

lemma takeWhile_until: "\<forall>x \<in> set a. P x \<Longrightarrow> \<not> P c \<Longrightarrow> takeWhile P (a @ c # b) = a"
  by (simp add: takeWhile_append2)

lemma read_attrs_write:
  assumes "list_all (\<lambda>a. good_name (at_Name a)) attrs" "\<not> has_prefix rest '' ''"
  shows "read_attrs (concat (map write_attr attrs) @ rest) = (attrs, rest)"
  using assms(1)
proof (induction attrs)
  case Nil
  with assms(2) show ?case by (simp add: read_attrs.simps)
next
  case (Cons a attrs)
  let ?more = "concat (map write_attr attrs) @ rest"
  have "takeWhile (\<lambda>c. c \<noteq> CHR ''='') (at_Name a @ CHR ''='' # s) = at_Name a" for s
    by (rule takeWhile_until) (use Cons.prems in \<open>auto simp: good_name_def list_all_iff name_char_def\<close>)
  moreover have "takeWhile (\<lambda>c. c \<noteq> dquote) (escapeAttr (at_Value a) @ dquote # ?more) = escapeAttr (at_Value a)"
    by (rule takeWhile_until) (use attr_no_quote in auto)
  moreover have "read_attrs ?more = (attrs, rest)"
    using Cons by simp
  ultimately show ?case
    by (subst read_attrs.simps) (simp add: write_attr_def [of a])
qed

lemma read_tag_write:
  assumes "good_name name" "list_all (\<lambda>a. good_name (at_Name a)) attrs"
    and "rest \<noteq> []" "hd rest = CHR ''/'' \<or> hd rest = CHR ''>''"
  shows "read_tag (name @ concat (map write_attr attrs) @ rest) = ((name, attrs), rest)"
proof -
  have "\<exists>c more. concat (map write_attr attrs) @ rest = c # more \<and> \<not> name_char c"
    using assms(3,4) by (cases attrs; cases rest) (auto simp: write_attr_def name_char_def)
  then obtain c more where more: "concat (map write_attr attrs) @ rest = c # more" "\<not> name_char c" by blast
  have "takeWhile name_char (name @ c # more) = name"
    by (rule takeWhile_until) (use assms(1) more(2) in \<open>auto simp: good_name_def list_all_iff\<close>)
  moreover have "\<not> has_prefix rest '' ''"
    using assms(3,4) by (cases rest) auto
  then have "read_attrs (c # more) = (attrs, rest)"
    using read_attrs_write [OF assms(2), of rest] more(1) by simp
  ultimately show ?thesis
    by (simp add: read_tag_def more(1))
qed

lemma write_element_opens: "\<exists>r. write_element e = CHR ''<'' # r"
  by (cases e) simp

lemma read_elements_write:
  assumes "length (concat (map write_element es)) < n" "list_all well_formed es"
    and "rest = [] \<or> prefix ''</'' rest"
  shows "read_elements n (concat (map write_element es) @ rest) = Some (es, rest)"
  using assms
proof (induction n arbitrary: es rest)
  case (Suc n)
  show ?case
  proof (cases es)
    case Nil
    with Suc.prems(3) show ?thesis by auto
  next
    case (Cons e more)
    obtain name attrs body kids where e: "e = Element name attrs body kids" by (cases e)
    from Suc.prems(2) have good: "good_name name" "list_all (\<lambda>a. good_name (at_Name a)) attrs"
        "body = None \<or> kids = []" "list_all well_formed kids" "list_all well_formed more"
      by (simp_all add: Cons e)
    let ?more = "concat (map write_element more) @ rest"
    have opens: "\<not> prefix ''/'' (name @ s)" for s
      using good(1) by (cases name) (auto simp: good_name_def name_char_def)
    show ?thesis
    proof (cases "body = None \<and> kids = []")
      case True
      have "read_tag (name @ concat (map write_attr attrs) @ ''/>'' @ ?more) = ((name, attrs), ''/>'' @ ?more)"
        by (rule read_tag_write) (use good in simp_all)
      moreover have "read_elements n ?more = Some (more, rest)"
        by (rule Suc.IH) (use Suc.prems good True in \<open>simp_all add: Cons e\<close>)
      ultimately show ?thesis
        using True opens by (simp add: Cons e)
    next
      case False
      let ?text = "case body of None \<Rightarrow> [] | Some t \<Rightarrow> escapeText t"
      let ?kids = "concat (map write_element kids)"
      let ?close = "''</'' @ name @ ''>'' @ ?more"
      have tag: "read_tag (name @ concat (map write_attr attrs) @ ''>'' @ ?text @ ?kids @ ?close) =
          ((name, attrs), ''>'' @ ?text @ ?kids @ ?close)"
        by (rule read_tag_write) (use good in simp_all)
      have "\<exists>r. ?kids @ ?close = CHR ''<'' # r"
      proof (cases kids)
        case (Cons k ks)
        obtain r where "write_element k = CHR ''<'' # r" using write_element_opens by blast
        with Cons show ?thesis by simp
      qed simp
      then obtain r where r: "?kids @ ?close = CHR ''<'' # r" by blast
      have "takeWhile (\<lambda>c. c \<noteq> CHR ''<'') (?text @ CHR ''<'' # r) = ?text"
        by (rule takeWhile_until) (use text_no_tag in \<open>auto split: option.splits\<close>)
      then have upto: "takeWhile (\<lambda>c. c \<noteq> CHR ''<'') (?text @ ?kids @ ?close) = ?text"
        by (simp only: r)
      have kids: "read_elements n (?kids @ ?close) = Some (kids, ?close)"
        by (rule Suc.IH) (use Suc.prems good False in \<open>simp_all add: Cons e\<close>)
      have more: "read_elements n ?more = Some (more, rest)"
        by (rule Suc.IH) (use Suc.prems good False in \<open>simp_all add: Cons e\<close>)
      have content: "(if kids = [] then Some (xml_unescape ?text) else None) = body"
        using False good(3) by (cases body) simp_all
      have close: "drop (length name + 3) ?close = ?more"
        by (simp add: eval_nat_numeral)
      show ?thesis
        using tag upto kids more content close opens good(3) False by (cases body) (simp_all add: Cons e Let_def)
    qed
  qed
qed simp

lemma read_document_Render:
  assumes "well_formed root"
  shows "read_document (Render root) = Some root"
proof -
  have "read_elements (Suc (length (Render root))) (concat (map write_element [root]) @ []) = Some ([root], [])"
    by (rule read_elements_write) (use assms in \<open>simp_all add: Render_def\<close>)
  then show ?thesis
    by (simp add: read_document_def Render_def)
qed

lemma all_good_names:
  "list_all good_name
     [''datacite:resource'', ''xmlns:datacite'', ''xmlns:xsi'', ''xsi:schemaLocation'', ''datacite:identifier'',
      ''identifierType'', ''datacite:creators'', ''datacite:creator'', ''datacite:creatorName'',
      ''datacite:nameIdentifier'', ''nameIdentifierScheme'', ''datacite:affiliation'', ''datacite:titles'',
      ''datacite:title'', ''xml:lang'', ''datacite:publisher'', ''datacite:publicationYear'',
      ''datacite:resourceType'', ''resourceTypeGeneral'', ''datacite:subjects'', ''datacite:subject'',
      ''datacite:contributors'', ''datacite:contributor'', ''contributorType'', ''datacite:contributorName'',
      ''datacite:alternateIdentifiers'', ''datacite:alternateIdentifier'', ''alternateIdentifierType'',
      ''datacite:relatedIdentifiers'', ''datacite:relatedIdentifier'', ''relatedIdentifierType'', ''relationType'',
      ''datacite:rightsList'', ''datacite:rights'', ''datacite:descriptions'', ''datacite:description'',
      ''descriptionType'', ''datacite:geoLocations'', ''datacite:geoLocation'', ''datacite:geoLocationPoint'',
      ''datacite:geoLocationBox'', ''datacite:geoLocationPlace'']"
  by code_simp

lemmas datacite_names = all_good_names [simplified list.pred_inject simp_thms]

lemma well_formed_Elem [simp]:
  "well_formed (Elem name attrs children) \<longleftrightarrow>
     good_name name \<and> list_all (\<lambda>a. good_name (at_Name a)) attrs \<and> list_all (pred_option well_formed) children"
  by (induction children) (auto simp: Elem_def List.map_filter_simps split: option.splits)

lemma well_formed_Text [simp]:
  "well_formed (Text name attrs body) \<longleftrightarrow> good_name name \<and> list_all (\<lambda>a. good_name (at_Name a)) attrs"
  by (simp add: Text_def)

lemma well_formed_group:
  "good_name name \<Longrightarrow> list_all well_formed children \<Longrightarrow> pred_option well_formed (group_of name children)"
  by (simp add: group_of_def list_all_iff)

lemma well_formed_datacite: "well_formed (datacite_root avus)"
proof -
  have "pred_option well_formed (subjects_of avus)" "pred_option well_formed (contributors_of avus)"
      "pred_option well_formed (alternateIdentifiers_of avus)" "pred_option well_formed (relatedIdentifiers_of avus)"
      "pred_option well_formed (rightsList_of avus)" "pred_option well_formed (descriptions_of avus)"
      "pred_option well_formed (geoLocations_of avus)"
    unfolding subjects_of_def contributors_of_def alternateIdentifiers_of_def relatedIdentifiers_of_def
      rightsList_of_def descriptions_of_def geoLocations_of_def
    by (rule well_formed_group; simp add: datacite_names list_all_iff en_def optionalText_def)+
  moreover have "well_formed (identifier_of avus)" "well_formed (creators_of avus)" "well_formed (titles_of avus)"
      "well_formed (resourceType_of avus)"
    by (simp_all add: identifier_of_def creators_of_def titles_of_def resourceType_of_def datacite_names en_def list_all_iff)
  ultimately show ?thesis
    by (simp add: datacite_root_def datacite_names)
qed

lemma ore_good_names:
  "list_all good_name
     [''rdf:RDF'', ''rdf:Description'', ''rdf:about'', ''rdf:resource'', ''rdf:type'', ''rdf:parseType'',
      ''ore:aggregates'', ''ore:describes'', ''dcterms:identifier'', ''cito:documents'', ''cito:isDocumentedBy''] \<and>
   list_all (\<lambda>a. good_name (at_Name a)) oreNamespaces \<and>
   list_all good_name (map snd dublinCoreElement) \<and> list_all good_name (map snd dcTermsElement)"
  by code_simp

lemmas ore_names = ore_good_names [simplified list.pred_inject simp_thms conj_assoc]

lemma well_formed_describe: "pred_option well_formed (describeAVU a)"
proof -
  have "good_name name" if "map_of dublinCoreElement k = Some name \<or> map_of dcTermsElement k = Some name" for k name
    using that ore_good_names by (fastforce simp: list_all_iff dest!: map_of_SomeD)
  then show ?thesis
    by (cases "map_of dcTermsElement (ma_Attribute a)")
      (auto simp: describeAVU_def Let_def ore_names split: option.splits)
qed

text \<open>A resource map is read back too.\<close>

lemma ore_reads_back: "read_document (BuildORE i) = Some (ore_root i)"
proof -
  have "well_formed (aggregation_of i)" "well_formed (resourceMap_of i)" "well_formed (metadataFile_of i)"
      "well_formed (archivedFile_of f uri)" for f uri
    by (simp_all add: aggregation_of_def resourceMap_of_def metadataFile_of_def archivedFile_of_def rdf_about_def
        rdf_resource_def ore_names list_all_iff well_formed_describe ball_Un)
  with ore_good_names have "well_formed (ore_root i)"
    by (simp add: ore_root_def ore_names list_all_iff)
  then show ?thesis
    by (simp add: BuildORE_def read_document_Render)
qed

text \<open>Pairing by position loses no value of a required attribute, and pads the optional ones.\<close>

lemma as_table_column:
  assumes "names = as_required a @ as_optional a" "i < length names"
  shows "map (\<lambda>row. row ! i) (as_table a avus) =
    md_values avus (names ! i) @
    replicate (length (as_table a avus) - length (md_values avus (names ! i))) []"
proof -
  let ?held = "md_values avus (names ! i)"
  define longest where "longest = foldl max 0 (map length (map (md_values avus) names))"
  have max: "m \<le> foldl max m ns \<and> (\<forall>n \<in> set ns. n \<le> foldl max m ns)" for m :: nat and ns
    by (induction ns arbitrary: m) (simp_all, metis max.bounded_iff)
  from max [of 0 "map length (map (md_values avus) names)"] assms(2) have "length ?held \<le> longest"
    by (auto simp: longest_def)
  have table: "as_table a avus =
      map (\<lambda>k. map (\<lambda>held. if k < length held then held ! k else []) (map (md_values avus) names)) [0..<longest]"
    by (simp only: as_table_def Let_def longest_def assms(1))
  then have "map (\<lambda>row. row ! i) (as_table a avus) = map (\<lambda>k. if k < length ?held then ?held ! k else []) [0..<longest]"
    using assms(2) by simp
  moreover have "length (as_table a avus) = longest"
    by (simp add: table)
  ultimately show ?thesis
    using \<open>length ?held \<le> longest\<close> by (intro nth_equalityI) (auto simp: nth_append)
qed

text \<open>After \<open>check\<close>, the values of a required attribute are a whole column of the table.\<close>

lemma as_check_column:
  assumes "as_check a avus = None" "i < length (as_required a)"
  shows "map (\<lambda>row. row ! i) (as_table a avus) = md_values avus (as_required a ! i)"
proof -
  let ?names = "as_required a @ as_optional a"
  from assms(2) obtain first others where req: "as_required a = first # others"
    by (cases "as_required a") simp_all
  let ?n = "length (md_values avus first)"
  have same: "length (md_values avus name) = ?n" if "name \<in> set (as_required a)" for name
    using assms(1) that by (auto simp: as_check_def req Let_def list_ex_iff split: if_splits)
  have within: "length (md_values avus name) \<le> ?n" if "name \<in> set ?names" for name
  proof (cases "name \<in> set (as_required a)")
    case True
    then show ?thesis by (simp add: same)
  next
    case False
    with that have "name \<in> set (as_optional a)" by simp
    with assms(1) show ?thesis
      by (auto simp: as_check_def req Let_def list_ex_iff not_less split: if_splits)
  qed
  have "foldl max m ns \<le> b" if "m \<le> b" "\<forall>n \<in> set ns. n \<le> b" for m b :: nat and ns
    using that by (induction ns arbitrary: m) simp_all
  then have "length (as_table a avus) \<le> ?n"
    using within by (simp add: as_table_def Let_def)
  moreover have "length (md_values avus (as_required a ! i)) = ?n"
    using assms(2) by (simp add: same)
  ultimately show ?thesis
    using as_table_column [OF refl, of i a avus] assms(2) by (simp add: nth_append)
qed


lemma missing_blank:
  "missingAttributes avus = filter (\<lambda>name. list_all (\<lambda>v. v = []) (md_values avus name)) requiredAttributes"
  by (auto simp: missingAttributes_def md_values_def list_all_iff list_ex_iff intro!: filter_cong)

definition sample_avus :: "md_avu list" where
  "sample_avus = map (\<lambda>(a, v). \<lparr>ma_Attribute = a, ma_Value = v\<rparr>)
     [(''Identifier'', ''doi:10.1/x''), (''identifierType'', ''DOI''), (''datacite.creator'', ''A. & B.''),
      (''creatorAffiliation'', ''<none>''), (''datacite.title'', ''T''), (''datacite.publisher'', ''P''),
      (''datacite.publicationyear'', ''2020''), (''datacite.resourcetype'', ''R'')]"


end
