(* ===== verification/MetadataExports.thy ===== *)
theory MetadataExports
  imports MetaHandlers MetadataFiles MemStore
begin

text \<open>
  The endpoints that move metadata in and out of files (\<open>internal/handlers\<close>: \<open>metadatacsv.go\<close>,
  \<open>metadatafiles.go\<close>, \<open>metadataore.go\<close>).  A CSV file is applied to the items it names, an item's metadata
  is exported with its descendants' as indented JSON, and a data set's DataCite record and resource map
  are written for DataONE.  The walks over the data store may not end, so what holds them is optional; the
  export counts what it visits, and its recursion has fuel.
\<close>

section \<open>encoding/csv, without lazy quotes\<close>

text \<open>As \<open>parse_fields\<close>, but a quote in a bare field, text after a closing quote and a quoted field that
  is not closed are errors.\<close>

function strict_fields ::
    "string \<Rightarrow> bool \<Rightarrow> string \<Rightarrow> string list \<Rightarrow> string \<Rightarrow> string \<Rightarrow> (string list \<times> string) option" where
  "strict_fields comma inside buf fs line rest =
     (if \<not> inside then
        (if line = [] \<or> hd line \<noteq> quote then
           (case index_of comma line of
              Some i \<Rightarrow>
                if List.member (take i line) quote then None
                else strict_fields comma False [] (fs @ [take i line]) (drop (i + length comma) line) rest
            | None \<Rightarrow>
                if List.member line quote then None
                else Some (fs @ [if line \<noteq> [] \<and> last line = newline then butlast line else line], rest))
         else strict_fields comma True [] fs (tl line) rest)
      else
        (case index_of [quote] line of
           Some i \<Rightarrow>
             let buf' = buf @ take i line; line' = drop (Suc i) line
             in if next_is [quote] line' then strict_fields comma True (buf' @ [quote]) fs (tl line') rest
                else if next_is comma line' then
                  strict_fields comma False [] (fs @ [buf']) (drop (length comma) line') rest
                else if blank_line line' then Some (fs @ [buf'], rest)
                else None
         | None \<Rightarrow>
             if line \<noteq> [] then
               (case readLine rest of
                  None \<Rightarrow> None
                | Some (line', rest') \<Rightarrow> strict_fields comma True (buf @ line) fs line' rest')
             else None))"
  by pat_completeness (simp only: prod.inject)

termination
proof (relation "measure (\<lambda>(comma, inside, buf, fs, line, rest). length line + length rest)", goal_cases)
  case (2 comma inside buf fs line rest i)
  then have "0 < length comma" "i < length line"
    using index_of_advance by blast+
  then have "length (drop (i + length comma) line) < length line"
    by (simp only: length_drop)
  then show ?case by simp
next
  case (3 comma inside buf fs line rest)
  then show ?case by (cases line) auto
next
  case (4 comma inside buf fs line rest x line' rest')
  then have "0 < length line" "length line' + length rest' \<le> length rest"
    using readLine_shorter by auto
  then have "length line' + length rest' < length line + length rest"
    by linarith
  then show ?case by simp
next
  case (5 comma inside buf fs line rest i buf' line')
  then have "length line' < length line"
    using index_of_advance [of "[quote]" line i] by simp
  then show ?case by simp
next
  case (6 comma inside buf fs line rest i buf' line')
  then have "length line' < length line"
    using index_of_advance [of "[quote]" line i] by simp
  then show ?case by simp
qed simp

declare strict_fields.simps [simp del]

text \<open>A record that is read strictly is the record read with lazy quotes.\<close>

lemma strict_is_lazy:
  "strict_fields comma inside buf fs line rest = Some r \<Longrightarrow> parse_fields comma inside buf fs line rest = r"
proof (induction comma inside buf fs line rest rule: strict_fields.induct)
  case (1 comma inside buf fs line rest)
  from "1.prems" "1.IH" show ?case
    by (subst parse_fields.simps, subst (asm) strict_fields.simps)
      (auto simp: Let_def split: if_splits option.splits prod.splits)
qed

function csv_records :: "string \<Rightarrow> string \<Rightarrow> string list list option" where
  "csv_records comma s =
     (case first_line s of
        None \<Rightarrow> Some []
      | Some (line, rest) \<Rightarrow>
          (case strict_fields comma False [] [] line rest of
             None \<Rightarrow> None
           | Some (fs, rest') \<Rightarrow> map_option (Cons fs) (csv_records comma rest')))"
  by pat_completeness auto
termination
proof (relation "measure (\<lambda>(comma, s). length s)", goal_cases)
  case (2 comma s x line rest y fs rest')
  then have "parse_fields comma False [] [] line rest = (fs, rest')" "first_line s = Some (line, rest)"
    using strict_is_lazy by auto
  with parse_fields_rest [of comma False "[]" "[]" line rest] first_line_shorter [of s line rest] show ?case
    by simp
qed simp

declare csv_records.simps [simp del]

section \<open>metadatacsv.go\<close>

definition csvSeparator :: "string \<Rightarrow> ('s, string) op" where
  "csvSeparator raw =
     (if raw = [] then returnM '',''
      else case runes raw of
        [r] \<Rightarrow> returnM r
      | _ \<Rightarrow> schemaErrorM ''separator must be a single character'')"

definition readCSV :: "'w deps \<Rightarrow> 'w streams \<Rightarrow> string \<Rightarrow> string \<Rightarrow> ('w env, string list list) op" where
  "readCSV deps files src separator =
     bindM (ReadFile deps files 0 src) (\<lambda>contents.
       case (if List.member invalid_delimiters separator then None else csv_records separator contents) of
         None \<Rightarrow> failM (to_gerror
           (With ''reason'' (JStr ''the source file could not be parsed as delimited text'')
              (with_path src (New ErrBadOrMissingField))))
       | Some records \<Rightarrow> returnM (map (map trim_space) records))"

definition csvAVUs :: "string list \<Rightarrow> string list \<Rightarrow> api_avu list" where
  "csvAVUs attributes values =
     map (\<lambda>(attribute, value). \<lparr>aa_attr = attribute, aa_value = value, aa_unit = []\<rparr>) (zip attributes values)"

definition resolveCSVPath :: "string \<Rightarrow> string \<Rightarrow> string" where
  "resolveCSVPath base path =
     (if has_prefix path ''/'' then trim_right path else trim_right (Join [base, path]))"

text \<open>One row: the AVUs it carries go to the metadata service, when there are any.\<close>

definition apply_row ::
    "('w, 'b) handler_deps \<Rightarrow> 'b metadata_client \<Rightarrow> string \<Rightarrow> string list \<Rightarrow> string list \<times> string \<Rightarrow>
     (('w, 'b) server, json) op" where
  "apply_row d mc user attributes = (\<lambda>(row, target).
     let avus = csvAVUs attributes (tl row) in
     thenM (if avus = [] then returnM ()
            else bindM (on_env (Stat (hd_rods d) 0 target)) (\<lambda>st.
              on_board (mc_UpdateAVUs mc user (MetadataTargetType (st_type st)) (st_uuid st)
                [(''avus'', JArr (map avu_json avus))])))
       (returnM (JObj [(''path'', JStr target), (''avus'', JArr (map avu_json avus))])))"

definition apply_records ::
    "('w, 'b) handler_deps \<Rightarrow> 'b metadata_client \<Rightarrow> string \<Rightarrow> string \<Rightarrow> string list list \<Rightarrow> (('w, 'b) server, json) op" where
  "apply_records d mc user base records =
     (if length records < 2 then returnM (JObj [(''path-metadata'', JArr [])])
      else
        let attributes = tl (hd records); rows = tl records;
            targets = map (\<lambda>row. resolveCSVPath base (hd row)) rows
        in thenM (on_env (requireAllWriteable (hd_rods d) 0 targets))
             (bindM (mapM (apply_row d mc user attributes) (zip rows targets)) (\<lambda>applied.
                returnM (JObj [(''path-metadata'', JArr applied)]))))"

definition ParseCSV ::
    "('w, 'b) handler_deps \<Rightarrow> 'b metadata_client \<Rightarrow> 'w streams \<Rightarrow> unit request \<Rightarrow> (('w, 'b) server, json) op" where
  "ParseCSV d mc files rq =
     bindM (requireUser rq) (\<lambda>user.
       let src = trim_space (QueryParam rq ''src'') in
       if src = [] then schemaErrorM ''src must be a non-blank string''
       else bindM (csvSeparator (QueryParam rq ''separator'')) (\<lambda>separator. with_scope d 0 user
         (thenM (on_env (requireKnownUser (hd_rods d) 0 user False))
         (bindM (on_env (readableItem (hd_rods d) 0 user (Param rq ''data-id''))) (\<lambda>destination.
          bindM (on_env (readCSV (hd_rods d) files src separator)) (\<lambda>records.
            apply_records d mc user (st_path destination) records))))))"

section \<open>encoding/json, indented\<close>

definition hex_lower :: "nat \<Rightarrow> char" where
  "hex_lower n = ''0123456789abcdef'' ! n"

definition backslash :: char where "backslash = CHR 0x5C"

text \<open>One code point of a string, and one byte that starts none.\<close>

definition json_rune :: "string \<Rightarrow> string" where
  "json_rune r =
     (case r of
        [c] \<Rightarrow>
          let n = (of_char c :: nat) in
          if c = quote \<or> c = backslash then [backslash, c]
          else if n = 8 then [backslash, CHR ''b'']
          else if n = 12 then [backslash, CHR ''f'']
          else if c = newline then [backslash, CHR ''n'']
          else if c = cr then [backslash, CHR ''r'']
          else if n = 9 then [backslash, CHR ''t'']
          else if n < 32 \<or> c = CHR ''<'' \<or> c = CHR ''>'' \<or> c = CHR ''&''
          then backslash # ''u00'' @ [hex_lower (n div 16), hex_lower (n mod 16)]
          else [c]
      | _ \<Rightarrow>
          if map of_char r = [226 :: nat, 128, 168] then backslash # ''u2028''
          else if map of_char r = [226 :: nat, 128, 169] then backslash # ''u2029''
          else r)"

function json_chars :: "string \<Rightarrow> string" where
  "json_chars s =
     (if s = [] then []
      else if rune_width s = 0 then backslash # ''ufffd'' @ json_chars (tl s)
      else json_rune (take (rune_width s) s) @ json_chars (drop (rune_width s) s))"
  by pat_completeness auto
termination
  by (relation "measure length") auto

declare json_chars.simps [simp del]

definition json_string :: "string \<Rightarrow> string" where
  "json_string s = quote # json_chars s @ [quote]"

definition json_break :: "nat \<Rightarrow> string" where
  "json_break depth = newline # replicate (2 * depth) CHR '' ''"

fun json_indent :: "nat \<Rightarrow> json \<Rightarrow> string" where
  "json_indent depth JNull = ''null''"
| "json_indent depth (JBool b) = (if b then ''true'' else ''false'')"
| "json_indent depth (JInt i) = FormatInt i"
| "json_indent depth (JStr s) = json_string s"
| "json_indent depth (JArr xs) =
     (if xs = [] then ''[]''
      else ''['' @ json_break (Suc depth) @
        join_with ('','' @ json_break (Suc depth)) (map (json_indent (Suc depth)) xs) @ json_break depth @ '']'')"
| "json_indent depth (JObj members) =
     (if members = [] then ''{}''
      else ''{'' @ json_break (Suc depth) @
        join_with ('','' @ json_break (Suc depth))
          (map (\<lambda>(k, v). json_string k @ '': '' @ json_indent (Suc depth) v) members) @ json_break depth @ ''}'')"

text \<open>The members of a decoded object are written in the order of their names.\<close>

fun json_sorted :: "json \<Rightarrow> json" where
  "json_sorted (JArr xs) = JArr (map json_sorted xs)"
| "json_sorted (JObj members) = JObj (sort_key fst (map (\<lambda>(k, v). (k, json_sorted v)) members))"
| "json_sorted j = j"

section \<open>metadatafiles.go\<close>

record metadataSaveRequest =
  ms_Dest :: string
  ms_Recursive :: bool

text \<open>\<open>savedItem\<close>: the status, the metadata, the folders and the files.\<close>

datatype savedItem = SavedItem status "json list" "savedItem list" "savedItem list"

fun saved_json :: "savedItem \<Rightarrow> json" where
  "saved_json (SavedItem st metadata folders files) =
     JObj (status_fields st @ [(''metadata'', JArr metadata)] @
       (if folders = [] then [] else [(''folders'', JArr (map saved_json folders))]) @
       (if files = [] then [] else [(''files'', JArr (map saved_json files))]))"

text \<open>What is gathered of one item, the \<open>visited\<close>th: its status and both kinds of metadata.\<close>

definition describe_item ::
    "('w, 'b) handler_deps \<Rightarrow> 'b metadata_client \<Rightarrow> string \<Rightarrow> nat \<Rightarrow> stat \<Rightarrow> (('w, 'b) server, status \<times> json list) op" where
  "describe_item d mc user visited st =
     thenM (CheckPathCount d visited)
    (bindM (on_env (StatOf (hd_rods d) 0 user (st_path st) (stat_options_of d (ParseFieldSet [] [])))) (\<lambda>described.
     bindM (on_env (AVUs (hd_rods d) 0 (st_path st))) (\<lambda>held.
     bindM (on_board (mc_ListAVUs mc user (MetadataTargetType (st_type st)) (so_ID described))) (\<lambda>template.
       returnM (described, map avu_json (VisibleAVUs held False) @
         (case obj_get template ''avus'' of Some (JArr raw) \<Rightarrow> map json_sorted raw | _ \<Rightarrow> []))))))"

text \<open>\<open>collect\<close>, with the count it shares with the calls it makes, and its loop over the members of a
  collection, which keeps the folders and the files gathered so far.\<close>

fun collect ::
    "nat \<Rightarrow> ('w, 'b) handler_deps \<Rightarrow> 'b metadata_client \<Rightarrow> string \<Rightarrow> bool \<Rightarrow> stat \<Rightarrow> nat \<Rightarrow> ('w, 'b) server \<Rightarrow>
     ((gerror + savedItem) \<times> nat \<times> ('w, 'b) server) option"
  and collect_children ::
    "nat \<Rightarrow> ('w, 'b) handler_deps \<Rightarrow> 'b metadata_client \<Rightarrow> string \<Rightarrow> string list \<Rightarrow>
     savedItem list \<Rightarrow> savedItem list \<Rightarrow> nat \<Rightarrow> ('w, 'b) server \<Rightarrow>
     ((gerror + savedItem list \<times> savedItem list) \<times> nat \<times> ('w, 'b) server) option" where
  "collect 0 d mc user recursive st visited s = None"
| "collect (Suc n) d mc user recursive st visited s =
     (case describe_item d mc user (Suc visited) st s of
        (Inl e, s') \<Rightarrow> Some (Inl e, Suc visited, s')
      | (Inr (described, metadata), s') \<Rightarrow>
          if \<not> recursive \<or> st_type st \<noteq> ObjectTypeDir
          then Some (Inr (SavedItem described metadata [] []), Suc visited, s')
          else (case on_env (Children (hd_rods d) 0 (st_path st)) s' of
            (Inl e, s'') \<Rightarrow> Some (Inl e, Suc visited, s'')
          | (Inr children, s'') \<Rightarrow>
              map_option (\<lambda>(r, v, t). (case r of Inl e \<Rightarrow> Inl e
                  | Inr (folders, files) \<Rightarrow> Inr (SavedItem described metadata folders files), v, t))
                (collect_children n d mc user children [] [] (Suc visited) s'')))"
| "collect_children n d mc user [] folders files visited s = Some (Inr (folders, files), visited, s)"
| "collect_children n d mc user (path # paths) folders files visited s =
     (case on_env (Stat (hd_rods d) 0 path) s of
        (Inl e, s') \<Rightarrow> Some (Inl e, visited, s')
      | (Inr childStat, s') \<Rightarrow>
          (case collect n d mc user True childStat visited s' of
             None \<Rightarrow> None
           | Some (Inl e, v, t) \<Rightarrow> Some (Inl e, v, t)
           | Some (Inr child, v, t) \<Rightarrow>
               if st_type childStat = ObjectTypeDir
               then collect_children n d mc user paths (folders @ [child]) files v t
               else collect_children n d mc user paths folders (files @ [child]) v t))"

text \<open>The export of one item, with enough fuel for any limit on the paths of a request.\<close>

definition export_item ::
    "nat \<Rightarrow> ('w, 'b) handler_deps \<Rightarrow> 'b metadata_client \<Rightarrow> string \<Rightarrow> bool \<Rightarrow> stat \<Rightarrow> (('w, 'b) server, savedItem) pop" where
  "export_item fuel d mc user recursive st s =
     map_option (\<lambda>(r, v, s'). (r, s')) (collect fuel d mc user recursive st 0 s)"

definition or_save ::
    "('w, 'b) handler_deps \<Rightarrow> 'w streams \<Rightarrow> string \<Rightarrow> string \<Rightarrow> savedItem \<Rightarrow> ('w env, json) op" where
  "or_save d files user dest saved =
     thenM (WriteFile (hd_rods d) files 0 dest (json_indent 0 (saved_json saved), None))
    (thenM (Checksum (hd_rods d) 0 dest)
    (bindM (StatOf (hd_rods d) 0 user dest (stat_options_of d (ParseFieldSet [] []))) (\<lambda>st.
       returnM (JObj [(''file'', status_json st)]))))"

definition with_scope_P ::
    "('w, 'b) handler_deps \<Rightarrow> nat \<Rightarrow> string \<Rightarrow> (('w, 'b) server, 'a) pop \<Rightarrow> (('w, 'b) server, 'a) pop" where
  "with_scope_P d h user body =
     bindP (total (on_env (OpenScope d h user))) (\<lambda>_. finallyP body (on_env (Close h)))"

definition avus_Save ::
    "nat \<Rightarrow> ('w, 'b) handler_deps \<Rightarrow> 'b metadata_client \<Rightarrow> 'w streams \<Rightarrow> metadataSaveRequest request \<Rightarrow>
     (('w, 'b) server, json) pop" where
  "avus_Save fuel d mc files rq =
     bindP (total (requireUser rq)) (\<lambda>user.
     bindP (total (bindBody rq)) (\<lambda>body.
       let dest = trim_right (trim_space (ms_Dest body)); destDir = Dir dest in
       if dest = [] then total (schemaErrorM ''dest must be a non-blank string'')
       else with_scope_P d 0 user
        (bindP (total (on_env (requireKnownUser (hd_rods d) 0 user False))) (\<lambda>_.
         bindP (total (on_env (readableItem (hd_rods d) 0 user (Param rq ''data-id'')))) (\<lambda>source.
         bindP (total (on_env (thenM (requirePathExists (hd_rods d) 0 destDir)
                              (thenM (requireWriteable (hd_rods d) 0 destDir)
                                (requireDoesNotExist (hd_rods d) 0 dest))))) (\<lambda>_.
         bindP (export_item fuel d mc user (ms_Recursive body) source) (\<lambda>saved.
           total (on_env (or_save d files user dest saved)))))))))"

section \<open>metadataore.go\<close>

record dataONESettings =
  do_MemberNodeBase :: string
  do_OREAttribute :: string
  do_FormatIDAttribute :: string
  do_MetadataDirname :: string
  do_MetadataDirAttribute :: string

definition metadataDirFor :: "dataONESettings \<Rightarrow> string \<Rightarrow> string" where
  "metadataDirFor one dataSetPath = Join [Dir (Dir dataSetPath), do_MetadataDirname one, Base dataSetPath]"

definition uriFor :: "dataONESettings \<Rightarrow> string \<Rightarrow> string" where
  "uriFor one i = trim_right (do_MemberNodeBase one) @ ''/v1/object/'' @ i"

definition objectURI :: "dataONESettings \<Rightarrow> 'w deps \<Rightarrow> string \<Rightarrow> ('w env, string) op" where
  "objectURI one deps path = bindM (Stat deps 0 path) (\<lambda>st. returnM (uriFor one (st_uuid st)))"

definition dataCiteAVUs :: "api_avu list \<Rightarrow> md_avu list" where
  "dataCiteAVUs avus = map (\<lambda>a. \<lparr>ma_Attribute = aa_attr a, ma_Value = aa_value a\<rparr>) avus"

definition text_member :: "(string \<times> json) list \<Rightarrow> string \<Rightarrow> string" where
  "text_member object key = (case string_member object key of Some v \<Rightarrow> v | None \<Rightarrow> [])"

definition templateAVU :: "json \<Rightarrow> api_avu option" where
  "templateAVU entry =
     (case entry of
        JObj object \<Rightarrow> Some \<lparr>aa_attr = text_member object ''attr'', aa_value = text_member object ''value'',
                           aa_unit = text_member object ''unit''\<rparr>
      | _ \<Rightarrow> None)"

definition templateAVUs :: "(string \<times> json) list \<Rightarrow> api_avu list" where
  "templateAVUs response =
     (case obj_get response ''avus'' of Some (JArr raw) \<Rightarrow> List.map_filter templateAVU raw | _ \<Rightarrow> [])"

definition ensureExists :: "'w deps \<Rightarrow> 'w streams \<Rightarrow> string \<Rightarrow> ('w env, unit) op" where
  "ensureExists deps files path =
     bindM (FileExists deps 0 path) (\<lambda>present.
       if present then returnM () else thenM (WriteFile deps files 0 path ([], None)) (returnM ()))"

text \<open>\<open>filesUnder\<close>: the members still to visit, one list per call under way, innermost first.\<close>

partial_function (option) files_from ::
    "'w deps \<Rightarrow> (string \<times> bool) list list \<Rightarrow> string list \<Rightarrow> 'w env \<Rightarrow> ((gerror + string list) \<times> 'w env) option" where
  "files_from deps calls out s =
     (case calls of
        [] \<Rightarrow> Some (Inr out, s)
      | [] # calls' \<Rightarrow> files_from deps calls' out s
      | (entry # entries) # calls' \<Rightarrow>
          if \<not> snd entry then files_from deps (entries # calls') (out @ [fst entry]) s
          else (case ChildEntries deps 0 (fst entry) s of
            (Inl e, s') \<Rightarrow> Some (Inl e, s')
          | (Inr below, s') \<Rightarrow> files_from deps (below # entries # calls') out s'))"

definition filesUnder :: "'w deps \<Rightarrow> string \<Rightarrow> ('w env, string list) pop" where
  "filesUnder deps path = bindP (total (ChildEntries deps 0 path)) (\<lambda>entries. files_from deps [entries] [])"

record oreFiles =
  of_resourceMap :: archivedFile
  of_dataCite :: archivedFile
  of_files :: "archivedFile list"

definition noFile :: archivedFile where "noFile = \<lparr>af_ID = [], af_URI = []\<rparr>"

definition archive_one ::
    "dataONESettings \<Rightarrow> 'w deps \<Rightarrow> string \<Rightarrow> string \<Rightarrow> oreFiles \<Rightarrow> string \<Rightarrow> ('w env, oreFiles) op" where
  "archive_one one deps orePath dataCitePath out path =
     bindM (Stat deps 0 path) (\<lambda>st.
       let archived = \<lparr>af_ID = st_uuid st, af_URI = uriFor one (st_uuid st)\<rparr> in
       returnM (if path = orePath then out\<lparr>of_resourceMap := archived\<rparr>
                else if path = dataCitePath then out\<lparr>of_dataCite := archived\<rparr>
                else out\<lparr>of_files := of_files out @ [archived]\<rparr>))"

definition archivedFiles ::
    "dataONESettings \<Rightarrow> 'w deps \<Rightarrow> string \<Rightarrow> string \<Rightarrow> string \<Rightarrow> string \<Rightarrow> ('w env, oreFiles) pop" where
  "archivedFiles one deps dataSetPath metadataDir orePath dataCitePath =
     (let gather_dir = \<lambda>out dir. bindP (filesUnder deps dir) (\<lambda>held.
            total (foldM (archive_one one deps orePath dataCitePath) out held))
      in bindP (gather_dir \<lparr>of_resourceMap = noFile, of_dataCite = noFile, of_files = []\<rparr> dataSetPath) (\<lambda>out.
           gather_dir out metadataDir))"

definition buildResourceMap ::
    "dataONESettings \<Rightarrow> 'w deps \<Rightarrow> string \<Rightarrow> string \<Rightarrow> string \<Rightarrow> string \<Rightarrow> api_avu list \<Rightarrow> ('w env, string) pop" where
  "buildResourceMap one deps dataSetPath metadataDir orePath dataCitePath avus =
     bindP (archivedFiles one deps dataSetPath metadataDir orePath dataCitePath) (\<lambda>archived.
     bindP (total (objectURI one deps dataSetPath)) (\<lambda>aggregation.
       total (returnM (BuildORE \<lparr>oi_AggregationURI = aggregation, oi_ResourceMap = of_resourceMap archived,
         oi_Metadata = of_dataCite archived, oi_Files = of_files archived, oi_AVUs = dataCiteAVUs avus\<rparr>))))"

definition recordOREMetadata ::
    "dataONESettings \<Rightarrow> ('w, 'b) handler_deps \<Rightarrow> string \<Rightarrow> string \<Rightarrow> string \<Rightarrow> ('w env, unit) op" where
  "recordOREMetadata one d orePath dataSetPath metadataDir =
     thenM (OpenProxyScope d) (finallyM
       (forM (\<lambda>(path, attribute, value).
          SetAVU (hd_rods d) 1 path \<lparr>avu_attribute = attribute, avu_value = value, avu_unit = []\<rparr>)
        [(orePath, do_OREAttribute one, ''true''), (orePath, do_FormatIDAttribute one, OREFormatID),
         (dataSetPath, do_MetadataDirAttribute one, metadataDir)])
       (Close 1))"

text \<open>What \<open>SaveORE\<close> writes once the record is built; both files exist before the map is.\<close>

definition write_ore ::
    "dataONESettings \<Rightarrow> ('w, 'b) handler_deps \<Rightarrow> 'w streams \<Rightarrow> string \<Rightarrow> api_avu list \<Rightarrow> string \<Rightarrow> ('w env, unit) pop" where
  "write_ore one d files dataSetPath avus document =
     (let deps = hd_rods d; metadataDir = metadataDirFor one dataSetPath;
          orePath = Join [metadataDir, ''ore.xml'']; dataCitePath = Join [metadataDir, ''cyverse-metadata.xml'']
      in bindP (total (thenM (MakeDir deps 0 metadataDir True)
                      (thenM (WriteFile deps files 0 dataCitePath (document, None))
                      (thenM (Checksum deps 0 dataCitePath)
                        (ensureExists deps files orePath))))) (\<lambda>_.
         bindP (buildResourceMap one deps dataSetPath metadataDir orePath dataCitePath avus) (\<lambda>resourceMap.
           total (thenM (WriteFile deps files 0 orePath (resourceMap, None))
                 (thenM (Checksum deps 0 orePath)
                   (recordOREMetadata one d orePath dataSetPath metadataDir))))))"

definition SaveORE ::
    "dataONESettings \<Rightarrow> ('w, 'b) handler_deps \<Rightarrow> 'b metadata_client \<Rightarrow> 'w streams \<Rightarrow> unit request \<Rightarrow>
     (('w, 'b) server, unit) pop" where
  "SaveORE one d mc files rq =
     bindP (total (requireUser rq)) (\<lambda>user. with_scope_P d 0 user
       (bindP (total (on_env (requireKnownUser (hd_rods d) 0 user False))) (\<lambda>_.
        bindP (total (on_env (readableItem (hd_rods d) 0 user (Param rq ''data-id'')))) (\<lambda>dataSet.
          if st_type dataSet \<noteq> ObjectTypeDir
          then total (failM (to_gerror (with_path (st_path dataSet) (New ErrNotAFolder))))
          else bindP (total (on_env (requireWriteable (hd_rods d) 0 (st_path dataSet)))) (\<lambda>_.
               bindP (total (on_board (mc_ListAVUs mc user ''folder'' (Param rq ''data-id'')))) (\<lambda>response.
               let avus = templateAVUs response in
               case BuildDataCite (dataCiteAVUs avus) of
                 Inl err \<Rightarrow> total (failM (to_gerror (With ''reason'' (JStr (error_text err))
                   (with_path (st_path dataSet) (New ErrBadOrMissingField)))))
               | Inr document \<Rightarrow> on_env_P (write_ore one d files (st_path dataSet) avus document)))))))"

section \<open>What they keep to\<close>

lemma on_env_board: "sv_board (snd (on_env m s)) = sv_board s"
  by (simp add: on_env_def split: prod.split)

text \<open>C12.  A CSV file changes nothing at the metadata service unless every path it names was seen, and seen to be
  writeable by the caller, before the first row was applied.\<close>

theorem csv_needs_writeable:
  assumes "apply_records d mc user base records s = (r, s')" "sv_board s' \<noteq> sv_board s"
  shows "\<exists>stats e. Stats (hd_rods d) 0 (map (\<lambda>row. resolveCSVPath base (hd row)) (tl records)) (sv_env s) = (Inr stats, e) \<and>
    (\<forall>row \<in> set (tl records). \<exists>st. map_of stats (resolveCSVPath base (hd row)) = Some st \<and>
       Permits (st_permission st) PermissionWrite)"
proof -
  let ?targets = "map (\<lambda>row. resolveCSVPath base (hd row)) (tl records)"
  obtain q t where check: "on_env (requireAllWriteable (hd_rods d) 0 ?targets) s = (q, t)" by fastforce
  have "sv_board t = sv_board s"
    using on_env_board [of "requireAllWriteable (hd_rods d) 0 ?targets" s] check by simp
  with assms check have "q = Inr ()"
    by (cases q) (auto simp: apply_records_def thenM_def bindM_def Let_def split: if_splits)
  with check obtain e where "requireAllWriteable (hd_rods d) 0 ?targets (sv_env s) = (Inr (), e)"
    by (auto simp: on_env_def split: prod.splits)
  then obtain stats where stats: "Stats (hd_rods d) 0 ?targets (sv_env s) = (Inr stats, e)"
      and writeable: "filter (\<lambda>p. case map_of stats p of None \<Rightarrow> True | Some x \<Rightarrow> \<not> Permits (st_permission x) PermissionWrite) ?targets = []"
    by (auto simp: requireAllWriteable_def refusing_def bindM_eq_Inr Let_def split: if_splits)
  from writeable have "\<exists>st. map_of stats p = Some st \<and> Permits (st_permission st) PermissionWrite" if "p \<in> set ?targets" for p
    using that by (fastforce simp: filter_empty_conv split: option.splits)
  with stats show ?thesis by fastforce
qed

text \<open>A metadata service that counts the changes it is asked for.\<close>

definition counting_metadata :: "nat metadata_client" where
  "counting_metadata =
     \<lparr>mc_ListAVUs = (\<lambda>_ _ _. returnM []), mc_UpdateAVUs = (\<lambda>_ _ _ _ n. (Inr (), Suc n)),
      mc_SetAVUs = (\<lambda>_ _ _ _ n. (Inr (), Suc n)), mc_CopyAVUs = (\<lambda>_ _ _ _ n. (Inr (), Suc n))\<rparr>"

definition sample_curator :: "(mem_world, nat) handler_deps" where
  "sample_curator =
     \<lparr>hd_rods = mem_deps, hd_Layout = sample_layout, hd_MaxPathsInRequest = 2, hd_PermsFilter = [],
      hd_BadChars = [], hd_ProxyUser = ''r'', hd_Tasks = None, hd_Creator = None, hd_Worker = False,
      hd_InstanceID = [], hd_AdminUsers = [], hd_AnonUser = ''n'', hd_AnonBaseURL = [], hd_AnonMappings = [],
      hd_KifshareURL = [], hd_KifshareTemplate = []\<rparr>"

definition curated_world :: mem_world where
  "curated_world = \<lparr>mw_acls = [(''/z'', [(''a'', PermissionOwn)])], mw_inherits = [], mw_avus = [], mw_tickets = []\<rparr>"

definition curated_server :: "(mem_world, nat) server" where
  "curated_server =
     \<lparr>sv_env = \<lparr>env_world = curated_world,
        env_scopes = (\<lambda>_. (empty_scope ''a'')\<lparr>sc_sess := Some \<lparr>sess_user = ''a'', sess_poisoned = False\<rparr>,
          sc_items := [''/z'' \<mapsto> Inr (mem_row curated_world ''a'' ''/z'')]\<rparr>)\<rparr>,
      sv_board = 0, sv_runner = \<lparr>ru_stopping = False, ru_cancelled = False, ru_running = []\<rparr>\<rparr>"

definition sample_records :: "string list list" where
  "sample_records = [[''path'', ''colour''], [''/z/'', ''red''], [''/z'']]"

definition sample_applied :: "(gerror + json) \<times> (mem_world, nat) server" where
  "sample_applied = apply_records sample_curator counting_metadata ''a'' ''/z'' sample_records curated_server"

theorem csv_needs_writeable_witness:
  "sv_board (snd sample_applied) = 1 \<and>
   (\<exists>stats e. Stats mem_deps 0 [''/z'', ''/z''] (sv_env curated_server) = (Inr stats, e) \<and>
      (\<exists>st. map_of stats ''/z'' = Some st \<and> Permits (st_permission st) PermissionWrite))"
proof -
  have run: "sv_board (snd sample_applied) = 1" "sv_board curated_server = 0"
      "map (\<lambda>row. resolveCSVPath ''/z'' (hd row)) (tl sample_records) = [''/z'', ''/z'']"
    by code_simp+
  have "apply_records sample_curator counting_metadata ''a'' ''/z'' sample_records curated_server =
      (fst sample_applied, snd sample_applied)"
    by (simp add: sample_applied_def)
  from csv_needs_writeable [OF this] run show ?thesis
    by (auto simp: sample_curator_def sample_records_def)
qed

subsection \<open>The export ends\<close>

fun item_count :: "savedItem \<Rightarrow> nat" where
  "item_count (SavedItem st metadata folders files) =
     Suc (sum_list (map item_count folders) + sum_list (map item_count files))"

lemma describe_item_within:
  assumes "describe_item d mc user visited st s = (Inr out, s')" "0 < hd_MaxPathsInRequest d"
  shows "int visited \<le> hd_MaxPathsInRequest d"
  using assms by (auto simp: describe_item_def CheckPathCount_def op_inversions split: if_splits)

text \<open>What a call that started at \<open>visited\<close>, with \<open>held\<close> items gathered before, may have counted, and
  what its result counts.\<close>

definition counted :: "nat \<Rightarrow> nat \<Rightarrow> nat \<Rightarrow> ('e + 'a) \<Rightarrow> ('a \<Rightarrow> nat) \<Rightarrow> nat \<Rightarrow> bool" where
  "counted limit held visited r count_of v \<longleftrightarrow>
     visited \<le> v \<and> v \<le> Suc limit \<and> (case r of Inl _ \<Rightarrow> True | Inr a \<Rightarrow> v + held = visited + count_of a \<and> v \<le> limit)"

lemma counted_simps [simp]:
  "counted limit held visited (Inl e) count_of v \<longleftrightarrow> visited \<le> v \<and> v \<le> Suc limit"
  "counted limit held visited (Inr a) count_of v \<longleftrightarrow> visited \<le> v \<and> v \<le> limit \<and> v + held = visited + count_of a"
  by (auto simp: counted_def)

abbreviation gathered :: "savedItem list \<times> savedItem list \<Rightarrow> nat" where
  "gathered \<equiv> \<lambda>(folders, files). sum_list (map item_count folders) + sum_list (map item_count files)"

lemma collect_counted:
  fixes d :: "('w, 'b) handler_deps"
  assumes "0 < hd_MaxPathsInRequest d" "limit = nat (hd_MaxPathsInRequest d)"
  shows "visited \<le> limit \<Longrightarrow> limit < visited + fuel \<Longrightarrow>
      \<exists>r v s'. collect fuel d mc user recursive st visited s = Some (r, v, s') \<and> counted limit 0 visited r item_count v"
    and "visited \<le> limit \<Longrightarrow> limit < visited + fuel \<Longrightarrow>
      \<exists>r v s'. collect_children fuel d mc user paths folders files visited s = Some (r, v, s') \<and>
        counted limit (gathered (folders, files)) visited r gathered v"
  using assms
proof (induction fuel d mc user recursive st visited s and fuel d mc user paths folders files visited s
    rule: collect_collect_children.induct)
  case (2 n d mc user recursive st visited s)
  show ?case
  proof (cases "describe_item d mc user (Suc visited) st s")
    case (Pair q s')
    show ?thesis
    proof (cases q)
      case (Inl e)
      with Pair 2 show ?thesis by simp
    next
      case (Inr out)
      obtain described metadata where out: "out = (described, metadata)" by fastforce
      have within: "Suc visited \<le> limit"
        using describe_item_within Pair Inr "2.prems" by fastforce
      show ?thesis
      proof (cases "\<not> recursive \<or> st_type st \<noteq> ObjectTypeDir")
        case True
        with Pair Inr out within show ?thesis by simp
      next
        case deep: False
        obtain c s2 where children: "on_env (Children (hd_rods d) 0 (st_path st)) s' = (c, s2)" by fastforce
        show ?thesis
        proof (cases c)
          case (Inl e)
          with Pair Inr out deep children within show ?thesis by simp
        next
          case paths: (Inr paths)
          from "2.IH" [OF Pair [symmetric] Inr out [symmetric] deep children [symmetric] paths] "2.prems" within
          obtain r v t where below: "collect_children n d mc user paths [] [] (Suc visited) s2 = Some (r, v, t)"
              "counted limit (gathered ([], [])) (Suc visited) r gathered v"
            by auto
          with Pair Inr out deep children paths show ?thesis
            by (cases r) auto
        qed
      qed
    qed
  qed
next
  case (4 n d mc user path paths folders files visited s)
  obtain q s' where stat: "on_env (Stat (hd_rods d) 0 path) s = (q, s')" by fastforce
  show ?case
  proof (cases q)
    case (Inl e)
    with stat "4.prems" show ?thesis by simp
  next
    case (Inr childStat)
    from "4.IH"(1) [OF stat [symmetric] Inr] "4.prems"
    obtain r v t where child: "collect n d mc user True childStat visited s' = Some (r, v, t)"
        "counted limit 0 visited r item_count v"
      by auto
    show ?thesis
    proof (cases r)
      case failed: (Inl e)
      with stat Inr child show ?thesis by simp
    next
      case found: (Inr item)
      have next_v: "v \<le> limit" "limit < v + n" "v = visited + item_count item"
        using child(2) found "4.prems" by simp_all
      show ?thesis
      proof (cases "st_type childStat = ObjectTypeDir")
        case True
        from "4.IH"(2) [OF stat [symmetric] Inr child(1) refl found refl True next_v(1,2) "4.prems"(3,4)]
        obtain r2 v2 t2 where
          "collect_children n d mc user paths (folders @ [item]) files v t = Some (r2, v2, t2)"
          "counted limit (gathered (folders @ [item], files)) v r2 gathered v2"
          by blast
        with stat Inr child(1) found True next_v(3) show ?thesis
          by (cases r2) auto
      next
        case False
        from "4.IH"(3) [OF stat [symmetric] Inr child(1) refl found refl False next_v(1,2) "4.prems"(3,4)]
        obtain r2 v2 t2 where
          "collect_children n d mc user paths folders (files @ [item]) v t = Some (r2, v2, t2)"
          "counted limit (gathered (folders, files @ [item])) v r2 gathered v2"
          by blast
        with stat Inr child(1) found False next_v(3) show ?thesis
          by (cases r2) auto
      qed
    qed
  qed
qed simp_all

text \<open>C22.  Where a deployment limits the paths of a request, a metadata export ends, however the data store
  answers and whatever links it holds: with fuel beyond the limit there is a result, and an export that
  succeeds holds at most that many items.\<close>

theorem export_bounded:
  assumes "0 < hd_MaxPathsInRequest d" "hd_MaxPathsInRequest d < int fuel"
  shows "\<exists>r s'. export_item fuel d mc user recursive st s = Some (r, s') \<and>
    (case r of Inl _ \<Rightarrow> True | Inr saved \<Rightarrow> int (item_count saved) \<le> hd_MaxPathsInRequest d)"
proof -
  from assms have fuel: "0 \<le> nat (hd_MaxPathsInRequest d)" "nat (hd_MaxPathsInRequest d) < 0 + fuel" by linarith+
  from collect_counted(1) [OF assms(1) refl fuel, of mc user recursive st s] obtain r v s' where
    "collect fuel d mc user recursive st 0 s = Some (r, v, s')"
    "counted (nat (hd_MaxPathsInRequest d)) 0 0 r item_count v"
    by blast
  then show ?thesis
    using assms(1) by (cases r) (auto simp: export_item_def)
qed

definition sample_folder :: stat where
  "sample_folder =
     \<lparr>st_path = ''/z'', st_type = ObjectTypeDir, st_uuid = ''u1'', st_info_type = [], st_size = 0, st_created = 0,
      st_modified = 0, st_permission = PermissionOwn, st_checksum = None, st_exists = True\<rparr>"

theorem export_bounded_witness:
  "\<exists>r s'. export_item 3 sample_curator counting_metadata ''a'' True sample_folder curated_server = Some (r, s') \<and>
     (case r of Inl _ \<Rightarrow> True | Inr saved \<Rightarrow> int (item_count saved) \<le> 2)"
proof -
  have limit: "hd_MaxPathsInRequest sample_curator = 2"
    by (simp add: sample_curator_def)
  from export_bounded [of sample_curator 3, unfolded limit] show ?thesis
    by (simp only: zero_less_numeral of_nat_numeral numeral_less_iff num.simps less_num_simps simp_thms)
qed

subsection \<open>What a resource map holds\<close>

text \<open>A resource map lists neither itself nor the record that describes the data set, and every other
  object once for each time it was found.\<close>

lemma archive_one_result:
  assumes "archive_one one deps orePath dataCitePath out p s = (Inr out1, s1)"
  shows "\<exists>a. out1 = (if p = orePath then out\<lparr>of_resourceMap := a\<rparr>
    else if p = dataCitePath then out\<lparr>of_dataCite := a\<rparr> else out\<lparr>of_files := of_files out @ [a]\<rparr>)"
  using assms by (auto simp: archive_one_def bindM_eq_Inr Let_def returnM_def)

lemma archive_keeps_apart:
  assumes "foldM (archive_one one deps orePath dataCitePath) out held s = (Inr out', s')"
  shows "length (of_files out') = length (of_files out) +
      length (filter (\<lambda>p. p \<noteq> orePath \<and> p \<noteq> dataCitePath) held) \<and>
    (orePath \<notin> set held \<longrightarrow> of_resourceMap out' = of_resourceMap out)"
  using assms
proof (induction held arbitrary: out s)
  case (Cons p held)
  then obtain out1 s1 where "archive_one one deps orePath dataCitePath out p s = (Inr out1, s1)"
      "foldM (archive_one one deps orePath dataCitePath) out1 held s1 = (Inr out', s')"
    by (auto simp: bindM_eq_Inr)
  from archive_one_result [OF this(1)] obtain a where
    "out1 = (if p = orePath then out\<lparr>of_resourceMap := a\<rparr>
      else if p = dataCitePath then out\<lparr>of_dataCite := a\<rparr> else out\<lparr>of_files := of_files out @ [a]\<rparr>)"
    by blast
  with Cons.IH [OF \<open>foldM (archive_one one deps orePath dataCitePath) out1 held s1 = _\<close>] show ?case
    by (cases "p = orePath"; cases "p = dataCitePath") simp_all
qed simp

end
