(* ===== verification/Spec2Isabelle.thy ===== *)
theory Spec2Isabelle
  imports Repairs Shares JobProperties Worker Pool TaskLocks Pages CreateHandlers ShareHandlers MetaHandlers PathLists Middleware MetadataExports
begin

text \<open>
  Verification of data-info.
\<close>

end
